theory Spec2Isabelle
  imports Complex_Main "HOL-Library.Multiset"
begin

section \<open>Error Galaxy Shooter: the game loop of static/js/game.js\<close>

text \<open>
  The embedding follows \<^verbatim>\<open>class Game\<close> method by method. JavaScript numbers are
  modelled as mathematical reals: no rounding, no NaN, no infinities. The browser is the
  environment: \<^verbatim>\<open>Math.random()\<close> is a fixed stream of reals indexed by the number of
  draws made so far, \<^verbatim>\<open>performance.now()\<close> readings, window sizes, pointer
  coordinates and the rasterised text arrive as arguments of the call that reads them.
  Calls that leave the game object (sound, overlay, timer) are appended to a trace, and so
  is every call of \<^verbatim>\<open>spawnExplosion\<close>. The canvas, its 2d context and the frame handle
  \<^verbatim>\<open>rafId\<close> are browser objects with no part in the update and are left out, as is
  the renderer, which only reads.
\<close>

subsection \<open>CONFIG and the helpers\<close>

definition backgroundStarDensity :: real where "backgroundStarDensity = 18000"
definition shootIntervalMs :: real where "shootIntervalMs = 120"
definition shakeDurationMs :: real where "shakeDurationMs = 150"
definition maxDeltaMs :: real where "maxDeltaMs = 40"
definition bulletRadius :: real where "bulletRadius = 4"
definition bulletSpeedMin :: real where "bulletSpeedMin = 400"
definition bulletSpeedFactor :: real where "bulletSpeedFactor = 0.7"
definition playerLerp :: real where "playerLerp = 0.18"
definition gravity :: real where "gravity = 400 * 0.3"
definition piece_step :: nat where "piece_step = 9"
definition piece_alphaThreshold :: nat where "piece_alphaThreshold = 80"
definition piece_radiusMin :: real where "piece_radiusMin = 3"
definition piece_radiusRand :: real where "piece_radiusRand = 2"

text \<open>\<^verbatim>\<open>clamp = (v, min, max) => Math.max(min, Math.min(max, v))\<close> and
  \<^verbatim>\<open>lerp = (a, b, t) => a + (b - a) * t\<close>.\<close>

definition clamp :: "real \<Rightarrow> real \<Rightarrow> real \<Rightarrow> real" where
  "clamp v lo hi = max lo (min hi v)"

definition lerp :: "real \<Rightarrow> real \<Rightarrow> real \<Rightarrow> real" where
  "lerp a b t = a + (b - a) * t"

text \<open>The remainder operator \<^verbatim>\<open>%\<close> on numbers: the quotient is truncated towards
  zero, so the result has the sign of the dividend.\<close>

definition js_rem :: "real \<Rightarrow> real \<Rightarrow> real" where
  "js_rem a b = a - b * of_int (if 0 \<le> a / b then \<lfloor>a / b\<rfloor> else \<lceil>a / b\<rceil>)"

text \<open>\<^verbatim>\<open>xs.splice(i, 1)\<close>: the array without its element at index \<open>i\<close>.\<close>

definition splice1 :: "nat \<Rightarrow> 'a list \<Rightarrow> 'a list" where
  "splice1 i xs = take i xs @ drop (Suc i) xs"

subsection \<open>Entities and the game object\<close>

text \<open>A piece's colour is the string \<^verbatim>\<open>hsl(${hue}, 90%, 70%)\<close>; the model keeps its three
  numbers.\<close>

datatype color = Hsl real real real

record star =
  s_x :: real
  s_y :: real
  s_r :: real
  s_tw :: real

record player =
  pl_x :: real
  pl_y :: real
  pl_w :: real
  pl_h :: real
  pl_targetX :: real

record piece =
  pc_x :: real
  pc_y :: real
  pc_r :: real
  pc_color :: color

record bullet =
  b_x :: real
  b_y :: real
  b_vy :: real
  b_r :: real

record particle =
  pa_x :: real
  pa_y :: real
  pa_vx :: real
  pa_vy :: real
  pa_life :: real
  pa_age :: real
  pa_alpha :: real
  pa_color :: color

text \<open>What the game sends out, in call order: \<open>Burst x y c\<close> is a call
  \<^verbatim>\<open>spawnExplosion(x, y, c)\<close>, \<open>BubbleSound\<close> a call \<^verbatim>\<open>playBubbleSound()\<close>,
  \<open>OverlayTimer ms\<close> the call \<^verbatim>\<open>window.setTimeout(() => setOverlayVisible(true), ms)\<close>
  and \<open>OverlayVisible v\<close> a direct call \<^verbatim>\<open>setOverlayVisible(v)\<close>.\<close>

datatype effect =
    Burst real real color
  | BubbleSound
  | OverlayTimer real
  | OverlayVisible bool

record game =
  width :: real
  height :: real
  dpr :: real
  player :: "player option"
  stars :: "star list"
  pieces :: "piece list"
  bullets :: "bullet list"
  particles :: "particle list"
  pointerX :: real
  pointerDown :: bool
  globalTime :: real
  lastShotAt :: real
  lastFrameAt :: real
  shakeMs :: real
  shakeIntensity :: real
  isRunning :: bool
  isGameOver :: bool
  draws :: nat
  trace :: "effect list"

text \<open>The page: \<^verbatim>\<open>prefersReducedMotion\<close> is read once when the script loads;
  \<open>math_random k\<close> is what the \<open>k\<close>-th call of \<^verbatim>\<open>Math.random()\<close> returns.\<close>

record env =
  prefersReducedMotion :: bool
  math_random :: "nat \<Rightarrow> real"

definition rand :: "env \<Rightarrow> game \<Rightarrow> real" where
  "rand e g = math_random e (draws g)"

definition drawn :: "game \<Rightarrow> game" where
  "drawn g = g\<lparr>draws := Suc (draws g)\<rparr>"

text \<open>What \<^verbatim>\<open>create404Pieces\<close> gets from the offscreen canvas and the page style: the
  image of the text's bounding box (\<open>None\<close> when \<^verbatim>\<open>getContext("2d")\<close> returns null) and the
  two hue bounds as parsed, \<^verbatim>\<open>parseInt(...) || 180\<close> and \<^verbatim>\<open>parseInt(...) || 300\<close>.\<close>

record raster =
  startX :: real
  startY :: real
  img_width :: nat
  img_height :: nat
  img_data :: "nat \<Rightarrow> nat"

record page =
  offCtx :: "raster option"
  hueMin :: real
  hueMax :: real

subsection \<open>createStars, createPlayer, create404Pieces\<close>

text \<open>\<^verbatim>\<open>Array.from({ length: count }, ...)\<close> calls its function for the indices
  \<open>0, ..., count - 1\<close> in order, and each call draws four numbers: x, y, r, tw.\<close>

definition star_at :: "env \<Rightarrow> game \<Rightarrow> nat \<Rightarrow> star" where
  "star_at e g k =
     \<lparr>s_x = math_random e (draws g + 4 * k) * width g,
      s_y = math_random e (draws g + 4 * k + 1) * height g,
      s_r = math_random e (draws g + 4 * k + 2) * 1.5 + 0.3,
      s_tw = math_random e (draws g + 4 * k + 3) * pi * 2\<rparr>"

definition createStars :: "env \<Rightarrow> game \<Rightarrow> game" where
  "createStars e g =
     (let count = nat \<lfloor>(width g * height g) / backgroundStarDensity\<rfloor>
      in g\<lparr>stars := map (star_at e g) [0..<count], draws := draws g + 4 * count\<rparr>)"

definition createPlayer :: "game \<Rightarrow> game" where
  "createPlayer g =
     g\<lparr>player := Some
        \<lparr>pl_x = width g / 2,
         pl_y = height g * 0.85,
         pl_w = max 50 (width g * 0.05),
         pl_h = max 18 (height g * 0.025),
         pl_targetX = width g / 2\<rparr>\<rparr>"

text \<open>Lines 332 to 341: the hue of one piece from the bounds and one random draw \<open>r\<close>.\<close>

definition sample_hue :: "real \<Rightarrow> real \<Rightarrow> real \<Rightarrow> real" where
  "sample_hue lo hi r =
     (if lo > hi then
        (let range = (360 - lo) + hi;
             randomValue = r * range
         in js_rem (lo + randomValue) 360)
      else lo + r * (hi - lo))"

text \<open>The body of the inner loop at the sample point \<open>(x, y)\<close>: the alpha byte of the pixel
  is \<^verbatim>\<open>data[(y * w + x) * 4 + 3]\<close>; a piece draws its radius, its hue and the two jitters,
  in this order.\<close>

definition sample_pixel :: "env \<Rightarrow> page \<Rightarrow> raster \<Rightarrow> nat \<Rightarrow> nat \<Rightarrow> game \<Rightarrow> game" where
  "sample_pixel e pg im y x g =
     (let idx = (y * img_width im + x) * 4;
          alpha = img_data im (idx + 3)
      in if alpha > piece_alphaThreshold then
           (let px = startX im + real x;
                py = startY im + real y;
                radius = piece_radiusMin + rand e g * piece_radiusRand;
                g1 = drawn g;
                hue = sample_hue (hueMin pg) (hueMax pg) (rand e g1);
                g2 = drawn g1;
                jx = (rand e g2 - 0.5) * 2;
                g3 = drawn g2;
                jy = (rand e g3 - 0.5) * 2;
                g4 = drawn g3
            in g4\<lparr>pieces := pieces g4 @
                 [\<lparr>pc_x = px + jx, pc_y = py + jy, pc_r = radius, pc_color = Hsl hue 90 70\<rparr>]\<rparr>)
         else g)"

function scan_x :: "env \<Rightarrow> page \<Rightarrow> raster \<Rightarrow> nat \<Rightarrow> nat \<Rightarrow> game \<Rightarrow> game" where
  "scan_x e pg im y x g =
     (if x < img_width im then scan_x e pg im y (x + piece_step) (sample_pixel e pg im y x g)
      else g)"
  by pat_completeness auto
termination
  by (relation "measure (\<lambda>(e, pg, im, y, x, g). img_width im - x)") (auto simp: piece_step_def)

function scan_y :: "env \<Rightarrow> page \<Rightarrow> raster \<Rightarrow> nat \<Rightarrow> game \<Rightarrow> game" where
  "scan_y e pg im y g =
     (if y < img_height im then scan_y e pg im (y + piece_step) (scan_x e pg im y 0 g)
      else g)"
  by pat_completeness auto
termination
  by (relation "measure (\<lambda>(e, pg, im, y, g). img_height im - y)") (auto simp: piece_step_def)

declare scan_x.simps [simp del] scan_y.simps [simp del]

definition create404Pieces :: "env \<Rightarrow> page \<Rightarrow> game \<Rightarrow> game" where
  "create404Pieces e pg g =
     (let g0 = g\<lparr>pieces := []\<rparr>
      in case offCtx pg of
           None \<Rightarrow> g0
         | Some im \<Rightarrow> scan_y e pg im 0 g0)"

subsection \<open>spawnBullet, spawnExplosion, triggerShake\<close>

definition spawnBullet :: "game \<Rightarrow> game" where
  "spawnBullet g =
     (case player g of
        None \<Rightarrow> g
      | Some p \<Rightarrow>
          (let speed = 0.9 * max bulletSpeedMin (height g * bulletSpeedFactor)
           in g\<lparr>bullets := bullets g @
                [\<lparr>b_x = pl_x p, b_y = pl_y p - pl_h p / 2, b_vy = - speed, b_r = bulletRadius\<rparr>]\<rparr>))"

definition add_particle :: "env \<Rightarrow> real \<Rightarrow> real \<Rightarrow> color \<Rightarrow> game \<Rightarrow> game" where
  "add_particle e x y baseColor g =
     (let angle = rand e g * pi * 2;
          g1 = drawn g;
          speed = 50 + rand e g1 * 200;
          g2 = drawn g1;
          life = 0.4 + rand e g2 * 0.5;
          g3 = drawn g2
      in g3\<lparr>particles := particles g3 @
           [\<lparr>pa_x = x, pa_y = y, pa_vx = cos angle * speed, pa_vy = sin angle * speed,
             pa_life = life, pa_age = 0, pa_alpha = 1, pa_color = baseColor\<rparr>]\<rparr>)"

text \<open>\<^verbatim>\<open>for (let i = 0; i < count; i++)\<close> with a real bound \<open>cnt\<close> (the source's \<^verbatim>\<open>count\<close>).\<close>

function explode_loop :: "env \<Rightarrow> real \<Rightarrow> nat \<Rightarrow> real \<Rightarrow> real \<Rightarrow> color \<Rightarrow> game \<Rightarrow> game" where
  "explode_loop e cnt i x y baseColor g =
     (if real i < cnt
      then explode_loop e cnt (Suc i) x y baseColor (add_particle e x y baseColor g)
      else g)"
  by pat_completeness auto
termination
proof (relation "measure (\<lambda>(e, cnt, i, x, y, c, g). nat \<lceil>cnt\<rceil> - i)")
  show "wf (measure (\<lambda>(e, cnt, i, x, y, c, g). nat \<lceil>cnt\<rceil> - i))"
    by simp
next
  fix e :: env and cnt :: real and i :: nat and x y :: real and baseColor :: color and g :: game
  assume "real i < cnt"
  then have "i < nat \<lceil>cnt\<rceil>"
    by linarith
  then show "((e, cnt, Suc i, x, y, baseColor, add_particle e x y baseColor g),
              (e, cnt, i, x, y, baseColor, g))
             \<in> measure (\<lambda>(e, cnt, i, x, y, c, g). nat \<lceil>cnt\<rceil> - i)"
    by simp
qed

declare explode_loop.simps [simp del]

definition spawnExplosion :: "env \<Rightarrow> real \<Rightarrow> real \<Rightarrow> color \<Rightarrow> game \<Rightarrow> game" where
  "spawnExplosion e x y baseColor g =
     (let g0 = g\<lparr>trace := trace g @ [Burst x y baseColor]\<rparr>;
          cnt = 12 + rand e g0 * 10;
          g1 = drawn g0
      in explode_loop e cnt 0 x y baseColor g1)"

definition triggerShake :: "env \<Rightarrow> game \<Rightarrow> game" where
  "triggerShake e g =
     (if prefersReducedMotion e then g
      else g\<lparr>shakeMs := shakeDurationMs, shakeIntensity := 7\<rparr>)"

definition playBubbleSound :: "game \<Rightarrow> game" where
  "playBubbleSound g = g\<lparr>trace := trace g @ [BubbleSound]\<rparr>"

definition setOverlayVisible :: "bool \<Rightarrow> game \<Rightarrow> game" where
  "setOverlayVisible isVisible g = g\<lparr>trace := trace g @ [OverlayVisible isVisible]\<rparr>"

subsection \<open>update, phase by phase\<close>

text \<open>\<^verbatim>\<open>// Player segue o alvo suavemente\<close> (lines 402 and 403).\<close>

definition follow_target :: "game \<Rightarrow> game" where
  "follow_target g =
     (case player g of
        None \<Rightarrow> g
      | Some p \<Rightarrow>
          (let p1 = p\<lparr>pl_x := lerp (pl_x p) (pl_targetX p) playerLerp\<rparr>;
               p2 = p1\<lparr>pl_x := clamp (pl_x p1) (pl_w p1 / 2) (width g - pl_w p1 / 2)\<rparr>
           in g\<lparr>player := Some p2\<rparr>))"

text \<open>\<^verbatim>\<open>// Tiro continuo\<close> (lines 406 to 409). \<open>now1\<close> is the clock reading of the
  condition, \<open>now2\<close> the one stored in \<^verbatim>\<open>lastShotAt\<close>.\<close>

definition continuous_fire :: "real \<Rightarrow> real \<Rightarrow> game \<Rightarrow> game" where
  "continuous_fire now1 now2 g =
     (if \<not> isGameOver g \<and> pointerDown g \<and> now1 - lastShotAt g > shootIntervalMs
      then (spawnBullet g)\<lparr>lastShotAt := now2\<rparr>
      else g)"

text \<open>\<^verbatim>\<open>// Balas\<close> (lines 412 to 419). The loops over an array run from the last index
  down to 0; the first argument is the number of indices still to visit, so the index in
  hand is \<open>i\<close> when it is \<open>Suc i\<close>.\<close>

definition move_bullet :: "real \<Rightarrow> bullet \<Rightarrow> bullet" where
  "move_bullet dtSec b = b\<lparr>b_y := b_y b + b_vy b * dtSec\<rparr>"

fun bullets_loop :: "nat \<Rightarrow> real \<Rightarrow> bullet list \<Rightarrow> bullet list" where
  "bullets_loop 0 dtSec bs = bs"
| "bullets_loop (Suc i) dtSec bs =
     (let b = move_bullet dtSec (bs ! i)
      in if b_y b + b_r b < 0 then bullets_loop i dtSec (splice1 i bs)
         else bullets_loop i dtSec (bs[i := b]))"

definition move_bullets :: "real \<Rightarrow> game \<Rightarrow> game" where
  "move_bullets dtSec g = g\<lparr>bullets := bullets_loop (length (bullets g)) dtSec (bullets g)\<rparr>"

text \<open>\<^verbatim>\<open>// Colisao bala x peca\<close> (lines 422 to 440). The test of line 431: \<close>

definition overlaps :: "bullet \<Rightarrow> piece \<Rightarrow> bool" where
  "overlaps b p =
     (let dx = b_x b - pc_x p;
          dy = b_y b - pc_y p;
          rr = b_r b + pc_r p
      in dx * dx + dy * dy \<le> rr * rr)"

text \<open>The inner loop up to its \<^verbatim>\<open>break\<close>: the pieces are tested from the last index down,
  and the index of the first one that overlaps is returned; \<open>None\<close> when the loop runs out.\<close>

fun find_hit :: "bullet \<Rightarrow> piece list \<Rightarrow> nat \<Rightarrow> nat option" where
  "find_hit b ps 0 = None"
| "find_hit b ps (Suc j) = (if overlaps b (ps ! j) then Some j else find_hit b ps j)"

text \<open>One turn of the outer loop, for the bullet at index \<open>i\<close>. A hit sends out
  \<open>hit_effects p\<close>: the burst at the piece and the sound.\<close>

definition hit_effects :: "piece \<Rightarrow> effect list" where
  "hit_effects p = [Burst (pc_x p) (pc_y p) (pc_color p), BubbleSound]"

definition collide_bullet :: "env \<Rightarrow> nat \<Rightarrow> game \<Rightarrow> game" where
  "collide_bullet e i g =
     (let b = bullets g ! i
      in case find_hit b (pieces g) (length (pieces g)) of
           None \<Rightarrow> g
         | Some j \<Rightarrow>
             (let p = pieces g ! j;
                  g1 = spawnExplosion e (pc_x p) (pc_y p) (pc_color p) g;
                  g2 = g1\<lparr>pieces := splice1 j (pieces g1)\<rparr>;
                  g3 = g2\<lparr>bullets := splice1 i (bullets g2)\<rparr>;
                  g4 = triggerShake e g3
              in playBubbleSound g4))"

fun collide_loop :: "env \<Rightarrow> nat \<Rightarrow> game \<Rightarrow> game" where
  "collide_loop e 0 g = g"
| "collide_loop e (Suc i) g = collide_loop e i (collide_bullet e i g)"

definition resolve_collisions :: "env \<Rightarrow> game \<Rightarrow> game" where
  "resolve_collisions e g = collide_loop e (length (bullets g)) g"

text \<open>\<^verbatim>\<open>// Particulas\<close> (lines 443 to 458). The body of the loop on one particle:
  \<open>None\<close> is the branch that splices it out.\<close>

definition age_particle :: "real \<Rightarrow> particle \<Rightarrow> particle option" where
  "age_particle dtSec pa =
     (let pa1 = pa\<lparr>pa_age := pa_age pa + dtSec\<rparr>
      in if pa_age pa1 \<ge> pa_life pa1 then None
         else
           (let t = 1 - pa_age pa1 / pa_life pa1;
                pa2 = pa1\<lparr>pa_alpha := t\<rparr>;
                pa3 = pa2\<lparr>pa_x := pa_x pa2 + pa_vx pa2 * dtSec\<rparr>;
                pa4 = pa3\<lparr>pa_y := pa_y pa3 + pa_vy pa3 * dtSec\<rparr>
            in Some (pa4\<lparr>pa_vy := pa_vy pa4 + gravity * dtSec\<rparr>)))"

fun particles_loop :: "nat \<Rightarrow> real \<Rightarrow> particle list \<Rightarrow> particle list" where
  "particles_loop 0 dtSec ps = ps"
| "particles_loop (Suc i) dtSec ps =
     (case age_particle dtSec (ps ! i) of
        None \<Rightarrow> particles_loop i dtSec (splice1 i ps)
      | Some pa \<Rightarrow> particles_loop i dtSec (ps[i := pa]))"

definition age_particles :: "real \<Rightarrow> game \<Rightarrow> game" where
  "age_particles dtSec g =
     g\<lparr>particles := particles_loop (length (particles g)) dtSec (particles g)\<rparr>"

text \<open>\<^verbatim>\<open>// Shake\<close> (lines 461 to 464) and \<^verbatim>\<open>// Victory\<close> (lines 467 to 472).\<close>

definition decay_shake :: "real \<Rightarrow> game \<Rightarrow> game" where
  "decay_shake dt g =
     (if shakeMs g > 0 then
        (let g1 = g\<lparr>shakeMs := shakeMs g - dt\<rparr>
         in if shakeMs g1 < 0 then g1\<lparr>shakeMs := 0\<rparr> else g1)
      else g)"

definition check_victory :: "game \<Rightarrow> game" where
  "check_victory g =
     (if \<not> isGameOver g \<and> length (pieces g) = 0
      then (g\<lparr>isGameOver := True\<rparr>)\<lparr>trace := trace g @ [OverlayTimer 350]\<rparr>
      else g)"

definition update :: "env \<Rightarrow> real \<Rightarrow> real \<Rightarrow> real \<Rightarrow> game \<Rightarrow> game" where
  "update e dtMs now1 now2 g =
     (case player g of
        None \<Rightarrow> g
      | Some _ \<Rightarrow>
          (let dt = min dtMs maxDeltaMs;
               dtSec = dt / 1000;
               g1 = g\<lparr>globalTime := globalTime g + dt\<rparr>;
               g2 = follow_target g1;
               g3 = continuous_fire now1 now2 g2;
               g4 = move_bullets dtSec g3;
               g5 = resolve_collisions e g4;
               g6 = age_particles dtSec g5;
               g7 = decay_shake dt g6
           in check_victory g7))"

subsection \<open>The loop, the event handlers and a session\<close>

text \<open>\<^verbatim>\<open>loop(ts)\<close>; \<^verbatim>\<open>render()\<close> only reads the game.\<close>

definition loop :: "env \<Rightarrow> real \<Rightarrow> real \<Rightarrow> real \<Rightarrow> game \<Rightarrow> game" where
  "loop e ts now1 now2 g =
     (if \<not> isRunning g then g
      else (let dt = ts - lastFrameAt g;
                g1 = g\<lparr>lastFrameAt := ts\<rparr>
            in update e dt now1 now2 g1))"

text \<open>The constructor, from \<^verbatim>\<open>window.innerWidth\<close>, \<^verbatim>\<open>window.innerHeight\<close>,
  \<^verbatim>\<open>window.devicePixelRatio\<close> and \<^verbatim>\<open>now()\<close>. A pixel ratio of 0 is falsy and becomes 1.\<close>

definition read_dpr :: "real \<Rightarrow> real" where
  "read_dpr devicePixelRatio = max 1 (min 2 (if devicePixelRatio = 0 then 1 else devicePixelRatio))"

definition new_game :: "real \<Rightarrow> real \<Rightarrow> real \<Rightarrow> real \<Rightarrow> game" where
  "new_game innerWidth innerHeight devicePixelRatio t =
     \<lparr>width = innerWidth, height = innerHeight, dpr = read_dpr devicePixelRatio,
      player = None, stars = [], pieces = [], bullets = [], particles = [],
      pointerX = innerWidth / 2, pointerDown = False,
      globalTime = 0, lastShotAt = 0, lastFrameAt = t,
      shakeMs = 0, shakeIntensity = 0,
      isRunning = False, isGameOver = False,
      draws = 0, trace = []\<rparr>"

definition start :: "env \<Rightarrow> real \<Rightarrow> page \<Rightarrow> game \<Rightarrow> game" where
  "start e t pg g =
     (let g1 = g\<lparr>isRunning := True, isGameOver := False\<rparr>;
          g2 = setOverlayVisible False g1;
          g3 = createStars e g2;
          g4 = createPlayer g3;
          g5 = create404Pieces e pg g4
      in g5\<lparr>lastFrameAt := t\<rparr>)"

definition reset :: "env \<Rightarrow> real \<Rightarrow> page \<Rightarrow> game \<Rightarrow> game" where
  "reset e t pg g =
     (let g1 = g\<lparr>player := None, stars := [], pieces := [], bullets := [], particles := [],
                 pointerX := width g / 2, pointerDown := False,
                 globalTime := 0, lastShotAt := 0, lastFrameAt := t,
                 shakeMs := 0, shakeIntensity := 0, isGameOver := False\<rparr>;
          g2 = createStars e g1;
          g3 = createPlayer g2;
          g4 = create404Pieces e pg g3
      in setOverlayVisible False g4)"

definition onResize :: "env \<Rightarrow> real \<Rightarrow> real \<Rightarrow> real \<Rightarrow> page \<Rightarrow> game \<Rightarrow> game" where
  "onResize e innerWidth innerHeight devicePixelRatio pg g =
     (let g1 = g\<lparr>width := innerWidth, height := innerHeight, dpr := read_dpr devicePixelRatio\<rparr>;
          g2 = (case player g1 of
                  None \<Rightarrow> g1
                | Some p \<Rightarrow> g1\<lparr>player := Some (p\<lparr>pl_y := height g1 * 0.85\<rparr>)\<rparr>);
          g3 = createStars e g2
      in create404Pieces e pg g3)"

text \<open>A hidden page only cancels the pending frame; a visible one resets the baseline.\<close>

definition onVisibilityChange :: "bool \<Rightarrow> real \<Rightarrow> game \<Rightarrow> game" where
  "onVisibilityChange hidden t g = (if hidden then g else g\<lparr>lastFrameAt := t\<rparr>)"

definition getCanvasRelativeX :: "real \<Rightarrow> real \<Rightarrow> real" where
  "getCanvasRelativeX rect_left clientX = clientX - rect_left"

definition aim :: "game \<Rightarrow> game" where
  "aim g =
     (case player g of
        None \<Rightarrow> g
      | Some p \<Rightarrow> g\<lparr>player := Some (p\<lparr>pl_targetX := pointerX g\<rparr>)\<rparr>)"

definition onPointerMove :: "real \<Rightarrow> real \<Rightarrow> game \<Rightarrow> game" where
  "onPointerMove rect_left clientX g = aim (g\<lparr>pointerX := getCanvasRelativeX rect_left clientX\<rparr>)"

definition onPointerDown :: "real \<Rightarrow> real \<Rightarrow> game \<Rightarrow> game" where
  "onPointerDown rect_left clientX g =
     aim (g\<lparr>pointerDown := True, pointerX := getCanvasRelativeX rect_left clientX\<rparr>)"

definition onPointerUp :: "game \<Rightarrow> game" where
  "onPointerUp g = g\<lparr>pointerDown := False\<rparr>"

text \<open>What the browser delivers once \<^verbatim>\<open>start()\<close> has attached the listeners: animation
  frames, pointer events, resizes, visibility changes, and the restart action of the overlay.
  \<^verbatim>\<open>stop()\<close> has no caller.\<close>

datatype event =
    Frame real real real
  | PointerMove real real
  | PointerDown real real
  | PointerUp
  | Resize real real real page
  | VisibilityChange bool real
  | Reset real page

fun handle :: "env \<Rightarrow> event \<Rightarrow> game \<Rightarrow> game" where
  "handle e (Frame ts now1 now2) g = loop e ts now1 now2 g"
| "handle e (PointerMove rect_left clientX) g = onPointerMove rect_left clientX g"
| "handle e (PointerDown rect_left clientX) g = onPointerDown rect_left clientX g"
| "handle e PointerUp g = onPointerUp g"
| "handle e (Resize w h d pg) g = onResize e w h d pg g"
| "handle e (VisibilityChange hidden t) g = onVisibilityChange hidden t g"
| "handle e (Reset t pg) g = reset e t pg g"

fun run :: "env \<Rightarrow> event list \<Rightarrow> game \<Rightarrow> game" where
  "run e [] g = g"
| "run e (ev # evs) g = run e evs (handle e ev g)"

text \<open>The events that leave the stores alone between ticks: every event but a resize and
  a restart, which run \<^verbatim>\<open>create404Pieces\<close> again. The restart alone clears the
  game-over flag. And the number of overlay timers in a trace.\<close>

fun plays :: "event \<Rightarrow> bool" where
  "plays (Resize w h d pg) = False"
| "plays (Reset t pg) = False"
| "plays ev = True"

fun restarts :: "event \<Rightarrow> bool" where
  "restarts (Reset t pg) = True"
| "restarts ev = False"

fun overlay_timers :: "effect list \<Rightarrow> nat" where
  "overlay_timers [] = 0"
| "overlay_timers (OverlayTimer ms # tr) = Suc (overlay_timers tr)"
| "overlay_timers (ef # tr) = overlay_timers tr"

text \<open>The states of a session: \<^verbatim>\<open>new Game(canvas, ctx)\<close>, then \<^verbatim>\<open>game.start()\<close>, then
  any events.\<close>

inductive in_session :: "env \<Rightarrow> game \<Rightarrow> bool" for e :: env where
  started: "in_session e (start e t pg (new_game w h d t0))"
| handled: "in_session e g \<Longrightarrow> in_session e (handle e ev g)"

subsection \<open>Concrete pages and sessions\<close>

text \<open>Two pages whose random source always returns 0, one with and one without the
  reduced-motion preference; a page whose offscreen context is missing; and a
  100 by 100 window started on it.\<close>

definition motion_env :: env where
  "motion_env = \<lparr>prefersReducedMotion = False, math_random = (\<lambda>k. 0)\<rparr>"

definition calm_env :: env where
  "calm_env = \<lparr>prefersReducedMotion = True, math_random = (\<lambda>k. 0)\<rparr>"

definition blank_page :: page where
  "blank_page = \<lparr>offCtx = None, hueMin = 180, hueMax = 300\<rparr>"

definition blank_session :: "env \<Rightarrow> game" where
  "blank_session e = start e 0 blank_page (new_game 100 100 1 0)"

text \<open>A window 40 wide: narrower than the player, whose width is at least 50.\<close>

definition narrow_session :: game where
  "narrow_session = start motion_env 0 blank_page (new_game 40 100 1 0)"

text \<open>A page whose text image is one row of ten opaque pixels starting at \<open>(46, y)\<close>:
  it is sampled at the columns 0 and 9.\<close>

definition opaque_row :: "real \<Rightarrow> raster" where
  "opaque_row y = \<lparr>startX = 46, startY = y, img_width = 10, img_height = 1, img_data = (\<lambda>i. 255)\<rparr>"

definition row_page :: "real \<Rightarrow> page" where
  "row_page y = \<lparr>offCtx = Some (opaque_row y), hueMin = 340, hueMax = 20\<rparr>"

text \<open>A session on such a page: the pointer goes down, a frame fires a bullet, a resize
  moves the pieces under it, and the next frame resolves the collision. With every random
  draw 0 the two pieces have radius 3 and stand at \<open>(45, y - 1)\<close> and \<open>(54, y - 1)\<close>.\<close>

definition row_session :: game where
  "row_session = start motion_env 0 (row_page 30) (new_game 100 100 1 0)"

definition armed :: game where
  "armed = handle motion_env (PointerDown 0 50) row_session"

definition before_hit :: game where
  "before_hit =
     run motion_env [PointerDown 0 50, Frame 16 1000 1000, Resize 100 100 1 (row_page 71)] row_session"

definition after_hit :: game where
  "after_hit = handle motion_env (Frame 17 1000 1000) before_hit"

text \<open>The state of that frame when it reaches the collision loop, the bullet as the frame
  finds it, and the two pieces.\<close>

definition at_impact :: game where
  "at_impact =
     move_bullets (1 / 1000) (continuous_fire 1000 1000
       (follow_target (before_hit\<lparr>lastFrameAt := 17, globalTime := 17\<rparr>)))"

definition shot :: bullet where
  "shot = \<lparr>b_x = 50, b_y = 1756 / 25, b_vy = - 360, b_r = 4\<rparr>"

definition left_piece :: piece where
  "left_piece = \<lparr>pc_x = 45, pc_y = 70, pc_r = 3, pc_color = Hsl 340 90 70\<rparr>"

definition right_piece :: piece where
  "right_piece = \<lparr>pc_x = 54, pc_y = 70, pc_r = 3, pc_color = Hsl 340 90 70\<rparr>"

text \<open>A page with a single piece, at \<open>(50, 28)\<close>, and a session on it that is won: the
  pointer goes down, the first frame fires, the pointer goes up, and the third frame
  brings the bullet onto the piece.\<close>

definition dot_page :: page where
  "dot_page = \<lparr>offCtx = Some \<lparr>startX = 51, startY = 29, img_width = 1, img_height = 1,
                               img_data = (\<lambda>i. 255)\<rparr>,
               hueMin = 340, hueMax = 20\<rparr>"

definition dot_session :: game where
  "dot_session = start motion_env 0 dot_page (new_game 100 100 1 0)"

definition in_flight :: game where
  "in_flight =
     run motion_env [PointerDown 0 50, Frame 40 1000 1000, PointerUp, Frame 80 1040 1040] dot_session"

definition won :: game where
  "won = handle motion_env (Frame 120 1080 1080) in_flight"

text \<open>One of the twelve particles of the explosion, as that frame leaves it.\<close>

definition spark :: particle where
  "spark = \<lparr>pa_x = 1081 / 20, pa_y = 70, pa_vx = 50, pa_vy = 3 / 25, pa_life = 2 / 5,
            pa_age = 1 / 1000, pa_alpha = 399 / 400, pa_color = Hsl 340 90 70\<rparr>"

section \<open>Properties\<close>

lemmas CONFIG =
  backgroundStarDensity_def shootIntervalMs_def shakeDurationMs_def maxDeltaMs_def
  bulletRadius_def bulletSpeedMin_def bulletSpeedFactor_def playerLerp_def gravity_def
  piece_step_def piece_alphaThreshold_def piece_radiusMin_def piece_radiusRand_def

subsection \<open>What each operation leaves alone\<close>

lemma add_particle_frame:
  "(add_particle e x y c g)\<lparr>particles := ps, draws := d\<rparr> = g\<lparr>particles := ps, draws := d\<rparr>"
  by (simp add: add_particle_def drawn_def Let_def)

lemma explode_loop_frame:
  "(explode_loop e cnt i x y c g)\<lparr>particles := ps, draws := d\<rparr> = g\<lparr>particles := ps, draws := d\<rparr>"
proof (induction e cnt i x y c g rule: explode_loop.induct)
  case (1 e cnt i x y c g)
  show ?case
  proof (cases "real i < cnt")
    case True
    then show ?thesis
      using "1.IH" add_particle_frame [where e=e and x=x and y=y and c=c and g=g and ps=ps and d=d]
      by (simp add: explode_loop.simps [of e cnt i])
  next
    case False
    then show ?thesis
      by (simp add: explode_loop.simps [of e cnt i])
  qed
qed

lemma spawnExplosion_frame:
  "(spawnExplosion e x y c g)\<lparr>particles := ps, draws := d\<rparr>
     = g\<lparr>trace := trace g @ [Burst x y c], particles := ps, draws := d\<rparr>"
  using explode_loop_frame [where e=e and i=0 and x=x and y=y and c=c and g="drawn (g\<lparr>trace := trace g @ [Burst x y c]\<rparr>)" and ps=ps and d=d]
  by (simp add: spawnExplosion_def Let_def drawn_def)

lemma spawnExplosion_keeps:
  "pieces (spawnExplosion e x y c g) = pieces g"
  "bullets (spawnExplosion e x y c g) = bullets g"
  "player (spawnExplosion e x y c g) = player g"
  "trace (spawnExplosion e x y c g) = trace g @ [Burst x y c]"
  using arg_cong [OF spawnExplosion_frame [where e=e and x=x and y=y and c=c and g=g and ps="[]" and d=0], of pieces]
        arg_cong [OF spawnExplosion_frame [where e=e and x=x and y=y and c=c and g=g and ps="[]" and d=0], of bullets]
        arg_cong [OF spawnExplosion_frame [where e=e and x=x and y=y and c=c and g=g and ps="[]" and d=0], of player]
        arg_cong [OF spawnExplosion_frame [where e=e and x=x and y=y and c=c and g=g and ps="[]" and d=0], of trace]
  by simp_all

subsection \<open>Splicing and the collision loop\<close>

lemma splice1_length: "i < length xs \<Longrightarrow> length (splice1 i xs) = length xs - 1"
  by (simp add: splice1_def)

lemma splice1_subset: "set (splice1 i xs) \<subseteq> set xs"
  unfolding splice1_def using set_take_subset [of i xs] set_drop_subset [of "Suc i" xs] by auto

lemma splice1_mset: "i < length xs \<Longrightarrow> mset xs = mset (splice1 i xs) + {#xs ! i#}"
proof -
  assume a: "i < length xs"
  have "xs = take i xs @ xs ! i # drop (Suc i) xs"
    using a by (simp add: id_take_nth_drop)
  then have "mset xs = mset (take i xs @ xs ! i # drop (Suc i) xs)"
    by simp
  then show ?thesis
    by (simp add: splice1_def)
qed

lemma splice1_append_last: "splice1 (length xs) (xs @ x # ys) = xs @ ys"
  by (simp add: splice1_def)

lemma splice1_nth_below: "k < j \<Longrightarrow> j < length xs \<Longrightarrow> splice1 j xs ! k = xs ! k"
  by (simp add: splice1_def nth_append)

lemma drop_splice1: "i < length xs \<Longrightarrow> drop i (splice1 i xs) = drop (Suc i) xs"
  by (simp add: splice1_def)

lemma take_splice1: "i < length xs \<Longrightarrow> take i (splice1 i xs) = take i xs"
  by (simp add: splice1_def)

lemma find_hit_None: "find_hit b ps n = None \<longleftrightarrow> (\<forall>j<n. \<not> overlaps b (ps ! j))"
  by (induction n) (auto simp: less_Suc_eq)

lemma find_hit_Some:
  "find_hit b ps n = Some j \<Longrightarrow> j < n \<and> overlaps b (ps ! j) \<and> (\<forall>k. j < k \<and> k < n \<longrightarrow> \<not> overlaps b (ps ! k))"
proof (induction n)
  case 0
  then show ?case by simp
next
  case (Suc n)
  show ?case
  proof (cases "overlaps b (ps ! n)")
    case True
    then show ?thesis using Suc.prems by auto
  next
    case False
    then have "find_hit b ps n = Some j" using Suc.prems by simp
    then have "j < n \<and> overlaps b (ps ! j) \<and> (\<forall>k. j < k \<and> k < n \<longrightarrow> \<not> overlaps b (ps ! k))"
      by (rule Suc.IH)
    then show ?thesis using False by (auto simp: less_Suc_eq)
  qed
qed

lemma find_hit_all_None:
  "find_hit b ps (length ps) = None \<Longrightarrow> p \<in> set ps \<Longrightarrow> \<not> overlaps b p"
  by (auto simp: find_hit_None in_set_conv_nth)

lemma collide_bullet_miss:
  "find_hit (bullets g ! i) (pieces g) (length (pieces g)) = None \<Longrightarrow> collide_bullet e i g = g"
  by (simp add: collide_bullet_def)

lemma collide_bullet_hit:
  assumes "find_hit (bullets g ! i) (pieces g) (length (pieces g)) = Some j"
  shows "pieces (collide_bullet e i g) = splice1 j (pieces g)"
    and "bullets (collide_bullet e i g) = splice1 i (bullets g)"
    and "trace (collide_bullet e i g)
           = trace g @ [Burst (pc_x (pieces g ! j)) (pc_y (pieces g ! j)) (pc_color (pieces g ! j)),
                        BubbleSound]"
  using assms
  by (simp_all add: collide_bullet_def Let_def playBubbleSound_def triggerShake_def
        spawnExplosion_keeps)

lemma spawnExplosion_same:
  "width (spawnExplosion e x y c g) = width g"
  "height (spawnExplosion e x y c g) = height g"
  "dpr (spawnExplosion e x y c g) = dpr g"
  "player (spawnExplosion e x y c g) = player g"
  "stars (spawnExplosion e x y c g) = stars g"
  "pieces (spawnExplosion e x y c g) = pieces g"
  "bullets (spawnExplosion e x y c g) = bullets g"
  "pointerX (spawnExplosion e x y c g) = pointerX g"
  "pointerDown (spawnExplosion e x y c g) = pointerDown g"
  "globalTime (spawnExplosion e x y c g) = globalTime g"
  "lastShotAt (spawnExplosion e x y c g) = lastShotAt g"
  "lastFrameAt (spawnExplosion e x y c g) = lastFrameAt g"
  "shakeMs (spawnExplosion e x y c g) = shakeMs g"
  "shakeIntensity (spawnExplosion e x y c g) = shakeIntensity g"
  "isRunning (spawnExplosion e x y c g) = isRunning g"
  "isGameOver (spawnExplosion e x y c g) = isGameOver g"
  using arg_cong [OF spawnExplosion_frame [where e=e and x=x and y=y and c=c and g=g and ps="[]" and d=0], of width]
        arg_cong [OF spawnExplosion_frame [where e=e and x=x and y=y and c=c and g=g and ps="[]" and d=0], of height]
        arg_cong [OF spawnExplosion_frame [where e=e and x=x and y=y and c=c and g=g and ps="[]" and d=0], of dpr]
        arg_cong [OF spawnExplosion_frame [where e=e and x=x and y=y and c=c and g=g and ps="[]" and d=0], of player]
        arg_cong [OF spawnExplosion_frame [where e=e and x=x and y=y and c=c and g=g and ps="[]" and d=0], of stars]
        arg_cong [OF spawnExplosion_frame [where e=e and x=x and y=y and c=c and g=g and ps="[]" and d=0], of pieces]
        arg_cong [OF spawnExplosion_frame [where e=e and x=x and y=y and c=c and g=g and ps="[]" and d=0], of bullets]
        arg_cong [OF spawnExplosion_frame [where e=e and x=x and y=y and c=c and g=g and ps="[]" and d=0], of pointerX]
        arg_cong [OF spawnExplosion_frame [where e=e and x=x and y=y and c=c and g=g and ps="[]" and d=0], of pointerDown]
        arg_cong [OF spawnExplosion_frame [where e=e and x=x and y=y and c=c and g=g and ps="[]" and d=0], of globalTime]
        arg_cong [OF spawnExplosion_frame [where e=e and x=x and y=y and c=c and g=g and ps="[]" and d=0], of lastShotAt]
        arg_cong [OF spawnExplosion_frame [where e=e and x=x and y=y and c=c and g=g and ps="[]" and d=0], of lastFrameAt]
        arg_cong [OF spawnExplosion_frame [where e=e and x=x and y=y and c=c and g=g and ps="[]" and d=0], of shakeMs]
        arg_cong [OF spawnExplosion_frame [where e=e and x=x and y=y and c=c and g=g and ps="[]" and d=0], of shakeIntensity]
        arg_cong [OF spawnExplosion_frame [where e=e and x=x and y=y and c=c and g=g and ps="[]" and d=0], of isRunning]
        arg_cong [OF spawnExplosion_frame [where e=e and x=x and y=y and c=c and g=g and ps="[]" and d=0], of isGameOver]
  by simp_all

lemma collide_bullet_same:
  "width (collide_bullet e i g) = width g"
  "height (collide_bullet e i g) = height g"
  "dpr (collide_bullet e i g) = dpr g"
  "player (collide_bullet e i g) = player g"
  "stars (collide_bullet e i g) = stars g"
  "pointerX (collide_bullet e i g) = pointerX g"
  "pointerDown (collide_bullet e i g) = pointerDown g"
  "globalTime (collide_bullet e i g) = globalTime g"
  "lastShotAt (collide_bullet e i g) = lastShotAt g"
  "lastFrameAt (collide_bullet e i g) = lastFrameAt g"
  "isRunning (collide_bullet e i g) = isRunning g"
  "isGameOver (collide_bullet e i g) = isGameOver g"
  by (simp_all add: collide_bullet_def Let_def playBubbleSound_def triggerShake_def
        spawnExplosion_same split: option.split)

lemma collide_loop_same:
  "width (collide_loop e n g) = width g"
  "height (collide_loop e n g) = height g"
  "dpr (collide_loop e n g) = dpr g"
  "player (collide_loop e n g) = player g"
  "stars (collide_loop e n g) = stars g"
  "pointerX (collide_loop e n g) = pointerX g"
  "pointerDown (collide_loop e n g) = pointerDown g"
  "globalTime (collide_loop e n g) = globalTime g"
  "lastShotAt (collide_loop e n g) = lastShotAt g"
  "lastFrameAt (collide_loop e n g) = lastFrameAt g"
  "isRunning (collide_loop e n g) = isRunning g"
  "isGameOver (collide_loop e n g) = isGameOver g"
  by (induction n arbitrary: g) (simp_all add: collide_bullet_same)

lemma collide_loop_no_overlap:
  "n \<le> length (bullets g) \<Longrightarrow>
   (\<forall>b\<in>set (drop n (bullets g)). \<forall>p\<in>set (pieces g). \<not> overlaps b p) \<Longrightarrow>
   (\<forall>b\<in>set (bullets (collide_loop e n g)). \<forall>p\<in>set (pieces (collide_loop e n g)). \<not> overlaps b p)"
proof (induction n arbitrary: g)
  case 0
  then show ?case by simp
next
  case (Suc i)
  let ?b = "bullets g ! i"
  have i: "i < length (bullets g)" using Suc.prems(1) by simp
  show ?case
  proof (cases "find_hit ?b (pieces g) (length (pieces g))")
    case None
    have "drop i (bullets g) = ?b # drop (Suc i) (bullets g)"
      using i by (simp add: Cons_nth_drop_Suc)
    then have "\<forall>b\<in>set (drop i (bullets g)). \<forall>p\<in>set (pieces g). \<not> overlaps b p"
      using Suc.prems(2) find_hit_all_None [OF None] by auto
    then show ?thesis
      using Suc.IH [of g] i None by (simp add: collide_bullet_miss)
  next
    case (Some j)
    let ?g' = "collide_bullet e i g"
    have pc: "pieces ?g' = splice1 j (pieces g)" and bs: "bullets ?g' = splice1 i (bullets g)"
      using collide_bullet_hit [OF Some] by simp_all
    have "i \<le> length (bullets ?g')"
      using i by (simp add: bs splice1_length)
    moreover have "\<forall>b\<in>set (drop i (bullets ?g')). \<forall>p\<in>set (pieces ?g'). \<not> overlaps b p"
      using Suc.prems(2) splice1_subset [of j "pieces g"] i
      by (auto simp: bs pc drop_splice1)
    ultimately show ?thesis
      using Suc.IH [of ?g'] by simp
  qed
qed

lemma collide_loop_accounting:
  "n \<le> length (bullets g) \<Longrightarrow>
   \<exists>hits. mset (pieces g) = mset (pieces (collide_loop e n g)) + mset hits
        \<and> length (bullets g) = length (bullets (collide_loop e n g)) + length hits
        \<and> trace (collide_loop e n g) = trace g @ concat (map hit_effects hits)
        \<and> (\<forall>p\<in>set hits. \<exists>b\<in>set (bullets g). overlaps b p)"
proof (induction n arbitrary: g)
  case 0
  have "mset (pieces g) = mset (pieces (collide_loop e 0 g)) + mset []
        \<and> length (bullets g) = length (bullets (collide_loop e 0 g)) + length ([] :: piece list)
        \<and> trace (collide_loop e 0 g) = trace g @ concat (map hit_effects [])
        \<and> (\<forall>p\<in>set []. \<exists>b\<in>set (bullets g). overlaps b p)"
    by simp
  then show ?case by blast
next
  case (Suc i)
  let ?b = "bullets g ! i"
  have i: "i < length (bullets g)" using Suc.prems(1) by simp
  show ?case
  proof (cases "find_hit ?b (pieces g) (length (pieces g))")
    case None
    then show ?thesis
      using Suc.IH [of g] i by (simp add: collide_bullet_miss)
  next
    case (Some j)
    let ?g' = "collide_bullet e i g"
    let ?p = "pieces g ! j"
    have j: "j < length (pieces g)" and ov: "overlaps ?b ?p"
      using find_hit_Some [OF Some] by simp_all
    have pc: "pieces ?g' = splice1 j (pieces g)" and bs: "bullets ?g' = splice1 i (bullets g)"
      and tr: "trace ?g' = trace g @ hit_effects ?p"
      using collide_bullet_hit [OF Some] by (simp_all add: hit_effects_def)
    have "i \<le> length (bullets ?g')"
      using i by (simp add: bs splice1_length)
    then obtain hits where h:
      "mset (pieces ?g') = mset (pieces (collide_loop e i ?g')) + mset hits"
      "length (bullets ?g') = length (bullets (collide_loop e i ?g')) + length hits"
      "trace (collide_loop e i ?g') = trace ?g' @ concat (map hit_effects hits)"
      "\<forall>p\<in>set hits. \<exists>b\<in>set (bullets ?g'). overlaps b p"
      using Suc.IH [of ?g'] by blast
    have 1: "mset (pieces g) = mset (pieces (collide_loop e (Suc i) g)) + mset (?p # hits)"
      using h(1) splice1_mset [OF j] by (simp add: pc)
    have 2: "length (bullets g) = length (bullets (collide_loop e (Suc i) g)) + length (?p # hits)"
      using h(2) i by (simp add: bs splice1_length)
    have 3: "trace (collide_loop e (Suc i) g) = trace g @ concat (map hit_effects (?p # hits))"
      using h(3) by (simp add: tr)
    have "?b \<in> set (bullets g)" using i by simp
    then have 4: "\<forall>p\<in>set (?p # hits). \<exists>b\<in>set (bullets g). overlaps b p"
      using h(4) ov splice1_subset [of i "bullets g"] by (auto simp: bs)
    show ?thesis
      using 1 2 3 4 by blast
  qed
qed

subsection \<open>The bullet and particle loops as list functions\<close>

lemma bullets_loop_append:
  "bullets_loop (length xs) dtSec (xs @ ys)
     = filter (\<lambda>b. \<not> b_y b + b_r b < 0) (map (move_bullet dtSec) xs) @ ys"
proof (induction xs arbitrary: ys rule: rev_induct)
  case Nil
  then show ?case by simp
next
  case (snoc x xs)
  have a: "(xs @ x # ys) ! length xs = x" by simp
  have b: "(xs @ x # ys)[length xs := z] = xs @ z # ys" for z by simp
  show ?case
    using snoc.IH [of ys] snoc.IH [of "move_bullet dtSec x # ys"]
    by (simp add: a b splice1_append_last Let_def)
qed

lemma bullets_loop_eq:
  "bullets_loop (length bs) dtSec bs
     = filter (\<lambda>b. \<not> b_y b + b_r b < 0) (map (move_bullet dtSec) bs)"
  using bullets_loop_append [of bs dtSec "[]"] by simp

lemma particles_loop_append:
  "particles_loop (length xs) dtSec (xs @ ys) = List.map_filter (age_particle dtSec) xs @ ys"
proof (induction xs arbitrary: ys rule: rev_induct)
  case Nil
  then show ?case by (simp add: List.map_filter_simps)
next
  case (snoc x xs)
  have a: "(xs @ x # ys) ! length xs = x" by simp
  have b: "(xs @ x # ys)[length xs := z] = xs @ z # ys" for z by simp
  show ?case
  proof (cases "age_particle dtSec x")
    case None
    then show ?thesis
      using snoc.IH [of ys]
      by (simp add: a splice1_append_last List.map_filter_def)
  next
    case (Some z)
    then show ?thesis
      using snoc.IH [of "z # ys"]
      by (simp add: a b List.map_filter_def)
  qed
qed

lemma particles_loop_eq:
  "particles_loop (length ps) dtSec ps = List.map_filter (age_particle dtSec) ps"
  using particles_loop_append [of ps dtSec "[]"] by simp

subsection \<open>The phases of update; the player of a session\<close>

lemma sample_pixel_frame:
  "(sample_pixel e pg im y x g)\<lparr>pieces := ps, draws := d\<rparr> = g\<lparr>pieces := ps, draws := d\<rparr>"
  by (simp add: sample_pixel_def drawn_def Let_def)

lemma scan_x_frame:
  "(scan_x e pg im y x g)\<lparr>pieces := ps, draws := d\<rparr> = g\<lparr>pieces := ps, draws := d\<rparr>"
proof (induction e pg im y x g rule: scan_x.induct)
  case (1 e pg im y x g)
  show ?case
  proof (cases "x < img_width im")
    case True
    then show ?thesis
      using "1.IH" sample_pixel_frame [where e=e and pg=pg and im=im and y=y and x=x and g=g and ps=ps and d=d]
      by (simp add: scan_x.simps [of e pg im y x])
  next
    case False
    then show ?thesis
      by (simp add: scan_x.simps [of e pg im y x])
  qed
qed

lemma scan_y_frame:
  "(scan_y e pg im y g)\<lparr>pieces := ps, draws := d\<rparr> = g\<lparr>pieces := ps, draws := d\<rparr>"
proof (induction e pg im y g rule: scan_y.induct)
  case (1 e pg im y g)
  show ?case
  proof (cases "y < img_height im")
    case True
    then show ?thesis
      using "1.IH" scan_x_frame [where e=e and pg=pg and im=im and y=y and x=0 and g=g and ps=ps and d=d]
      by (simp add: scan_y.simps [of e pg im y])
  next
    case False
    then show ?thesis
      by (simp add: scan_y.simps [of e pg im y])
  qed
qed

lemma create404Pieces_frame:
  "(create404Pieces e pg g)\<lparr>pieces := ps, draws := d\<rparr> = g\<lparr>pieces := ps, draws := d\<rparr>"
  using scan_y_frame [where e=e and pg=pg and y=0 and g="g\<lparr>pieces := []\<rparr>" and ps=ps and d=d]
  by (simp add: create404Pieces_def Let_def split: option.split)

lemma create404Pieces_player: "player (create404Pieces e pg g) = player g"
  using arg_cong [OF create404Pieces_frame [where e=e and pg=pg and g=g and ps="[]" and d=0], of player]
  by simp

lemma spawnBullet_same:
  "width (spawnBullet g) = width g"
  "height (spawnBullet g) = height g"
  "dpr (spawnBullet g) = dpr g"
  "player (spawnBullet g) = player g"
  "stars (spawnBullet g) = stars g"
  "pieces (spawnBullet g) = pieces g"
  "particles (spawnBullet g) = particles g"
  "pointerX (spawnBullet g) = pointerX g"
  "pointerDown (spawnBullet g) = pointerDown g"
  "globalTime (spawnBullet g) = globalTime g"
  "lastShotAt (spawnBullet g) = lastShotAt g"
  "lastFrameAt (spawnBullet g) = lastFrameAt g"
  "shakeMs (spawnBullet g) = shakeMs g"
  "shakeIntensity (spawnBullet g) = shakeIntensity g"
  "isRunning (spawnBullet g) = isRunning g"
  "isGameOver (spawnBullet g) = isGameOver g"
  "draws (spawnBullet g) = draws g"
  "trace (spawnBullet g) = trace g"
  by (simp_all add: spawnBullet_def Let_def split: option.split)

lemma follow_target_same:
  "width (follow_target g) = width g"
  "height (follow_target g) = height g"
  "dpr (follow_target g) = dpr g"
  "stars (follow_target g) = stars g"
  "pieces (follow_target g) = pieces g"
  "bullets (follow_target g) = bullets g"
  "particles (follow_target g) = particles g"
  "pointerX (follow_target g) = pointerX g"
  "pointerDown (follow_target g) = pointerDown g"
  "globalTime (follow_target g) = globalTime g"
  "lastShotAt (follow_target g) = lastShotAt g"
  "lastFrameAt (follow_target g) = lastFrameAt g"
  "shakeMs (follow_target g) = shakeMs g"
  "shakeIntensity (follow_target g) = shakeIntensity g"
  "isRunning (follow_target g) = isRunning g"
  "isGameOver (follow_target g) = isGameOver g"
  "draws (follow_target g) = draws g"
  "trace (follow_target g) = trace g"
  by (simp_all add: follow_target_def Let_def split: option.split)

lemma continuous_fire_same:
  "width (continuous_fire now1 now2 g) = width g"
  "height (continuous_fire now1 now2 g) = height g"
  "dpr (continuous_fire now1 now2 g) = dpr g"
  "player (continuous_fire now1 now2 g) = player g"
  "stars (continuous_fire now1 now2 g) = stars g"
  "pieces (continuous_fire now1 now2 g) = pieces g"
  "particles (continuous_fire now1 now2 g) = particles g"
  "pointerX (continuous_fire now1 now2 g) = pointerX g"
  "pointerDown (continuous_fire now1 now2 g) = pointerDown g"
  "globalTime (continuous_fire now1 now2 g) = globalTime g"
  "lastFrameAt (continuous_fire now1 now2 g) = lastFrameAt g"
  "shakeMs (continuous_fire now1 now2 g) = shakeMs g"
  "shakeIntensity (continuous_fire now1 now2 g) = shakeIntensity g"
  "isRunning (continuous_fire now1 now2 g) = isRunning g"
  "isGameOver (continuous_fire now1 now2 g) = isGameOver g"
  "draws (continuous_fire now1 now2 g) = draws g"
  "trace (continuous_fire now1 now2 g) = trace g"
  by (simp_all add: continuous_fire_def spawnBullet_same)

lemma move_bullets_same:
  "width (move_bullets dtSec g) = width g"
  "height (move_bullets dtSec g) = height g"
  "dpr (move_bullets dtSec g) = dpr g"
  "player (move_bullets dtSec g) = player g"
  "stars (move_bullets dtSec g) = stars g"
  "pieces (move_bullets dtSec g) = pieces g"
  "particles (move_bullets dtSec g) = particles g"
  "pointerX (move_bullets dtSec g) = pointerX g"
  "pointerDown (move_bullets dtSec g) = pointerDown g"
  "globalTime (move_bullets dtSec g) = globalTime g"
  "lastShotAt (move_bullets dtSec g) = lastShotAt g"
  "lastFrameAt (move_bullets dtSec g) = lastFrameAt g"
  "shakeMs (move_bullets dtSec g) = shakeMs g"
  "shakeIntensity (move_bullets dtSec g) = shakeIntensity g"
  "isRunning (move_bullets dtSec g) = isRunning g"
  "isGameOver (move_bullets dtSec g) = isGameOver g"
  "draws (move_bullets dtSec g) = draws g"
  "trace (move_bullets dtSec g) = trace g"
  by (simp_all add: move_bullets_def)

lemma resolve_collisions_same:
  "width (resolve_collisions e g) = width g"
  "height (resolve_collisions e g) = height g"
  "dpr (resolve_collisions e g) = dpr g"
  "player (resolve_collisions e g) = player g"
  "stars (resolve_collisions e g) = stars g"
  "pointerX (resolve_collisions e g) = pointerX g"
  "pointerDown (resolve_collisions e g) = pointerDown g"
  "globalTime (resolve_collisions e g) = globalTime g"
  "lastShotAt (resolve_collisions e g) = lastShotAt g"
  "lastFrameAt (resolve_collisions e g) = lastFrameAt g"
  "isRunning (resolve_collisions e g) = isRunning g"
  "isGameOver (resolve_collisions e g) = isGameOver g"
  by (simp_all add: resolve_collisions_def collide_loop_same)

lemma age_particles_same:
  "width (age_particles dtSec g) = width g"
  "height (age_particles dtSec g) = height g"
  "dpr (age_particles dtSec g) = dpr g"
  "player (age_particles dtSec g) = player g"
  "stars (age_particles dtSec g) = stars g"
  "pieces (age_particles dtSec g) = pieces g"
  "bullets (age_particles dtSec g) = bullets g"
  "pointerX (age_particles dtSec g) = pointerX g"
  "pointerDown (age_particles dtSec g) = pointerDown g"
  "globalTime (age_particles dtSec g) = globalTime g"
  "lastShotAt (age_particles dtSec g) = lastShotAt g"
  "lastFrameAt (age_particles dtSec g) = lastFrameAt g"
  "shakeMs (age_particles dtSec g) = shakeMs g"
  "shakeIntensity (age_particles dtSec g) = shakeIntensity g"
  "isRunning (age_particles dtSec g) = isRunning g"
  "isGameOver (age_particles dtSec g) = isGameOver g"
  "draws (age_particles dtSec g) = draws g"
  "trace (age_particles dtSec g) = trace g"
  by (simp_all add: age_particles_def)

lemma decay_shake_same:
  "width (decay_shake dt g) = width g"
  "height (decay_shake dt g) = height g"
  "dpr (decay_shake dt g) = dpr g"
  "player (decay_shake dt g) = player g"
  "stars (decay_shake dt g) = stars g"
  "pieces (decay_shake dt g) = pieces g"
  "bullets (decay_shake dt g) = bullets g"
  "particles (decay_shake dt g) = particles g"
  "pointerX (decay_shake dt g) = pointerX g"
  "pointerDown (decay_shake dt g) = pointerDown g"
  "globalTime (decay_shake dt g) = globalTime g"
  "lastShotAt (decay_shake dt g) = lastShotAt g"
  "lastFrameAt (decay_shake dt g) = lastFrameAt g"
  "shakeIntensity (decay_shake dt g) = shakeIntensity g"
  "isRunning (decay_shake dt g) = isRunning g"
  "isGameOver (decay_shake dt g) = isGameOver g"
  "draws (decay_shake dt g) = draws g"
  "trace (decay_shake dt g) = trace g"
  by (simp_all add: decay_shake_def Let_def)

lemma check_victory_same:
  "width (check_victory g) = width g"
  "height (check_victory g) = height g"
  "dpr (check_victory g) = dpr g"
  "player (check_victory g) = player g"
  "stars (check_victory g) = stars g"
  "pieces (check_victory g) = pieces g"
  "bullets (check_victory g) = bullets g"
  "particles (check_victory g) = particles g"
  "pointerX (check_victory g) = pointerX g"
  "pointerDown (check_victory g) = pointerDown g"
  "globalTime (check_victory g) = globalTime g"
  "lastShotAt (check_victory g) = lastShotAt g"
  "lastFrameAt (check_victory g) = lastFrameAt g"
  "shakeMs (check_victory g) = shakeMs g"
  "shakeIntensity (check_victory g) = shakeIntensity g"
  "isRunning (check_victory g) = isRunning g"
  "draws (check_victory g) = draws g"
  by (simp_all add: check_victory_def)

lemmas phase_same =
  follow_target_same continuous_fire_same move_bullets_same resolve_collisions_same
  age_particles_same decay_shake_same check_victory_same

lemma update_Some:
  "player g = Some p \<Longrightarrow>
   update e dtMs now1 now2 g =
     check_victory (decay_shake (min dtMs maxDeltaMs) (age_particles (min dtMs maxDeltaMs / 1000)
       (resolve_collisions e (move_bullets (min dtMs maxDeltaMs / 1000)
         (continuous_fire now1 now2
           (follow_target (g\<lparr>globalTime := globalTime g + min dtMs maxDeltaMs\<rparr>)))))))"
  by (simp add: update_def Let_def)

lemma update_None: "player g = None \<Longrightarrow> update e dtMs now1 now2 g = g"
  by (simp add: update_def)

lemma follow_target_player:
  "player g = Some p \<Longrightarrow>
   player (follow_target g) =
     Some (p\<lparr>pl_x := clamp (lerp (pl_x p) (pl_targetX p) playerLerp) (pl_w p / 2)
                            (width g - pl_w p / 2)\<rparr>)"
  by (simp add: follow_target_def Let_def)

lemma update_player:
  assumes "player g \<noteq> None"
  shows "player (update e dtMs now1 now2 g) \<noteq> None"
proof -
  obtain p where p: "player g = Some p" using assms by blast
  then have "player (g\<lparr>globalTime := globalTime g + min dtMs maxDeltaMs\<rparr>) = Some p"
    by simp
  then show ?thesis
    by (simp add: update_Some [OF p] phase_same follow_target_player)
qed

lemma handle_player:
  assumes "player g \<noteq> None"
  shows "player (handle e ev g) \<noteq> None"
proof (cases ev)
  case (Frame ts now1 now2)
  have "player (g\<lparr>lastFrameAt := ts\<rparr>) \<noteq> None" using assms by simp
  then have "player (update e (ts - lastFrameAt g) now1 now2 (g\<lparr>lastFrameAt := ts\<rparr>)) \<noteq> None"
    by (rule update_player)
  then show ?thesis
    using Frame assms by (simp add: loop_def Let_def)
next
  case (PointerMove l x)
  then show ?thesis using assms by (auto simp: onPointerMove_def aim_def)
next
  case (PointerDown l x)
  then show ?thesis using assms by (auto simp: onPointerDown_def aim_def)
next
  case PointerUp
  then show ?thesis using assms by (simp add: onPointerUp_def)
next
  case (Resize w h d pg)
  then show ?thesis
    using assms
    by (auto simp: onResize_def Let_def create404Pieces_player createStars_def)
next
  case (VisibilityChange hidden t)
  then show ?thesis using assms by (simp add: onVisibilityChange_def)
next
  case (Reset t pg)
  then show ?thesis
    by (simp add: reset_def Let_def setOverlayVisible_def create404Pieces_player createPlayer_def)
qed

lemma in_session_player: "in_session e g \<Longrightarrow> player g \<noteq> None"
proof (induction rule: in_session.induct)
  case (started t pg w h d t0)
  have "player (createPlayer g') \<noteq> None" for g'
    by (simp add: createPlayer_def)
  then show ?case
    unfolding start_def Let_def by (simp add: create404Pieces_player)
next
  case (handled g ev)
  from handled.IH show ?case by (rule handle_player)
qed

lemma blank_session_value:
  "blank_session e =
     \<lparr>width = 100, height = 100, dpr = 1,
      player = Some \<lparr>pl_x = 50, pl_y = 85, pl_w = 50, pl_h = 18, pl_targetX = 50\<rparr>,
      stars = [], pieces = [], bullets = [], particles = [],
      pointerX = 50, pointerDown = False,
      globalTime = 0, lastShotAt = 0, lastFrameAt = 0,
      shakeMs = 0, shakeIntensity = 0,
      isRunning = True, isGameOver = False,
      draws = 0, trace = [OverlayVisible False]\<rparr>"
  by (simp add: blank_session_def start_def new_game_def read_dpr_def Let_def setOverlayVisible_def
      createStars_def createPlayer_def create404Pieces_def blank_page_def backgroundStarDensity_def)

lemma blank_session_in_session: "in_session e (blank_session e)"
  unfolding blank_session_def by (rule in_session.started)

subsection \<open>The shake fields through a session\<close>

lemma create404Pieces_same:
  "width (create404Pieces e pg g) = width g"
  "height (create404Pieces e pg g) = height g"
  "dpr (create404Pieces e pg g) = dpr g"
  "player (create404Pieces e pg g) = player g"
  "stars (create404Pieces e pg g) = stars g"
  "bullets (create404Pieces e pg g) = bullets g"
  "particles (create404Pieces e pg g) = particles g"
  "pointerX (create404Pieces e pg g) = pointerX g"
  "pointerDown (create404Pieces e pg g) = pointerDown g"
  "globalTime (create404Pieces e pg g) = globalTime g"
  "lastShotAt (create404Pieces e pg g) = lastShotAt g"
  "lastFrameAt (create404Pieces e pg g) = lastFrameAt g"
  "shakeMs (create404Pieces e pg g) = shakeMs g"
  "shakeIntensity (create404Pieces e pg g) = shakeIntensity g"
  "isRunning (create404Pieces e pg g) = isRunning g"
  "isGameOver (create404Pieces e pg g) = isGameOver g"
  "trace (create404Pieces e pg g) = trace g"
  using arg_cong [OF create404Pieces_frame [where e=e and pg=pg and g=g and ps="[]" and d=0], of width]
        arg_cong [OF create404Pieces_frame [where e=e and pg=pg and g=g and ps="[]" and d=0], of height]
        arg_cong [OF create404Pieces_frame [where e=e and pg=pg and g=g and ps="[]" and d=0], of dpr]
        arg_cong [OF create404Pieces_frame [where e=e and pg=pg and g=g and ps="[]" and d=0], of player]
        arg_cong [OF create404Pieces_frame [where e=e and pg=pg and g=g and ps="[]" and d=0], of stars]
        arg_cong [OF create404Pieces_frame [where e=e and pg=pg and g=g and ps="[]" and d=0], of bullets]
        arg_cong [OF create404Pieces_frame [where e=e and pg=pg and g=g and ps="[]" and d=0], of particles]
        arg_cong [OF create404Pieces_frame [where e=e and pg=pg and g=g and ps="[]" and d=0], of pointerX]
        arg_cong [OF create404Pieces_frame [where e=e and pg=pg and g=g and ps="[]" and d=0], of pointerDown]
        arg_cong [OF create404Pieces_frame [where e=e and pg=pg and g=g and ps="[]" and d=0], of globalTime]
        arg_cong [OF create404Pieces_frame [where e=e and pg=pg and g=g and ps="[]" and d=0], of lastShotAt]
        arg_cong [OF create404Pieces_frame [where e=e and pg=pg and g=g and ps="[]" and d=0], of lastFrameAt]
        arg_cong [OF create404Pieces_frame [where e=e and pg=pg and g=g and ps="[]" and d=0], of shakeMs]
        arg_cong [OF create404Pieces_frame [where e=e and pg=pg and g=g and ps="[]" and d=0], of shakeIntensity]
        arg_cong [OF create404Pieces_frame [where e=e and pg=pg and g=g and ps="[]" and d=0], of isRunning]
        arg_cong [OF create404Pieces_frame [where e=e and pg=pg and g=g and ps="[]" and d=0], of isGameOver]
        arg_cong [OF create404Pieces_frame [where e=e and pg=pg and g=g and ps="[]" and d=0], of trace]
  by simp_all

lemma calm_collide_bullet:
  "prefersReducedMotion e \<Longrightarrow> shakeMs (collide_bullet e i g) = shakeMs g"
  "prefersReducedMotion e \<Longrightarrow> shakeIntensity (collide_bullet e i g) = shakeIntensity g"
  by (simp_all add: collide_bullet_def Let_def playBubbleSound_def triggerShake_def
        spawnExplosion_same split: option.split)

lemma calm_collide_loop:
  "prefersReducedMotion e \<Longrightarrow>
   shakeMs (collide_loop e n g) = shakeMs g \<and> shakeIntensity (collide_loop e n g) = shakeIntensity g"
  by (induction n arbitrary: g) (simp_all add: calm_collide_bullet)

lemma calm_update:
  assumes "prefersReducedMotion e" and "shakeMs g = 0" and "shakeIntensity g = 0"
  shows "shakeMs (update e dtMs now1 now2 g) = 0 \<and> shakeIntensity (update e dtMs now1 now2 g) = 0"
proof (cases "player g")
  case None
  then show ?thesis using assms by (simp add: update_None)
next
  case (Some p)
  let ?g4 = "move_bullets (min dtMs maxDeltaMs / 1000) (continuous_fire now1 now2
       (follow_target (g\<lparr>globalTime := globalTime g + min dtMs maxDeltaMs\<rparr>)))"
  have a: "shakeMs ?g4 = 0" "shakeIntensity ?g4 = 0"
    using assms by (simp_all add: phase_same)
  have b: "shakeMs (resolve_collisions e ?g4) = 0" "shakeIntensity (resolve_collisions e ?g4) = 0"
    using a calm_collide_loop [OF assms(1)] by (simp_all add: resolve_collisions_def)
  have "shakeMs (decay_shake dt (age_particles dtSec (resolve_collisions e ?g4))) = 0" for dt dtSec
    using b by (simp add: decay_shake_def age_particles_same)
  then show ?thesis
    using b by (simp add: update_Some [OF Some] phase_same)
qed

lemma calm_handle:
  assumes "prefersReducedMotion e" and "shakeMs g = 0 \<and> shakeIntensity g = 0"
  shows "shakeMs (handle e ev g) = 0 \<and> shakeIntensity (handle e ev g) = 0"
proof (cases ev)
  case (Frame ts now1 now2)
  have "shakeMs (g\<lparr>lastFrameAt := ts\<rparr>) = 0" "shakeIntensity (g\<lparr>lastFrameAt := ts\<rparr>) = 0"
    using assms(2) by simp_all
  then have "shakeMs (update e (ts - lastFrameAt g) now1 now2 (g\<lparr>lastFrameAt := ts\<rparr>)) = 0
      \<and> shakeIntensity (update e (ts - lastFrameAt g) now1 now2 (g\<lparr>lastFrameAt := ts\<rparr>)) = 0"
    by (rule calm_update [OF assms(1)])
  then show ?thesis
    using Frame assms(2) by (simp add: loop_def Let_def)
next
  case (PointerMove l x)
  then show ?thesis using assms(2) by (simp add: onPointerMove_def aim_def split: option.split)
next
  case (PointerDown l x)
  then show ?thesis using assms(2) by (simp add: onPointerDown_def aim_def split: option.split)
next
  case PointerUp
  then show ?thesis using assms(2) by (simp add: onPointerUp_def)
next
  case (Resize w h d pg)
  then show ?thesis
    using assms(2)
    by (simp add: onResize_def Let_def create404Pieces_same createStars_def split: option.split)
next
  case (VisibilityChange hidden t)
  then show ?thesis using assms(2) by (simp add: onVisibilityChange_def)
next
  case (Reset t pg)
  then show ?thesis
    by (simp add: reset_def Let_def setOverlayVisible_def create404Pieces_same createPlayer_def
        createStars_def)
qed

lemma calm_session:
  "in_session e g \<Longrightarrow> prefersReducedMotion e \<Longrightarrow> shakeMs g = 0 \<and> shakeIntensity g = 0"
proof (induction rule: in_session.induct)
  case (started t pg w h d t0)
  show ?case
    by (simp add: start_def Let_def create404Pieces_same createPlayer_def createStars_def
        setOverlayVisible_def new_game_def)
next
  case (handled g ev)
  then show ?case by (simp add: calm_handle)
qed

subsection \<open>Screen shake and reduced motion\<close>

text \<open>
  Claim C10. With the reduced-motion preference \<^verbatim>\<open>triggerShake\<close> returns the game as it
  got it; without it the result is the game with \<^verbatim>\<open>shakeMs\<close> set to the configured
  duration and \<^verbatim>\<open>shakeIntensity\<close> set to 7, every other field as before. With the
  preference, both fields are 0 in every state of a session.
\<close>

theorem triggerShake_frame:
  "(prefersReducedMotion e \<longrightarrow> triggerShake e g = g)
   \<and> (\<not> prefersReducedMotion e \<longrightarrow>
        triggerShake e g = g\<lparr>shakeMs := shakeDurationMs, shakeIntensity := 7\<rparr>)
   \<and> (prefersReducedMotion e \<and> in_session e g \<longrightarrow> shakeMs g = 0 \<and> shakeIntensity g = 0)"
  using calm_session [of e g] by (simp add: triggerShake_def)

theorem triggerShake_frame_witness:
  "prefersReducedMotion calm_env \<and> in_session calm_env (handle calm_env (Frame 16 1000 1000) (blank_session calm_env))
   \<and> triggerShake calm_env (blank_session calm_env) = blank_session calm_env
   \<and> shakeMs (handle calm_env (Frame 16 1000 1000) (blank_session calm_env)) = 0
   \<and> shakeIntensity (handle calm_env (Frame 16 1000 1000) (blank_session calm_env)) = 0
   \<and> \<not> prefersReducedMotion motion_env
   \<and> triggerShake motion_env (blank_session motion_env)
       = (blank_session motion_env)\<lparr>shakeMs := 150, shakeIntensity := 7\<rparr>"
proof -
  have s: "in_session calm_env (handle calm_env (Frame 16 1000 1000) (blank_session calm_env))"
    by (rule in_session.handled) (rule blank_session_in_session)
  have c: "prefersReducedMotion calm_env" and m: "\<not> prefersReducedMotion motion_env"
    by (simp_all add: calm_env_def motion_env_def)
  show ?thesis
    using s c m
      triggerShake_frame [of calm_env "blank_session calm_env"]
      triggerShake_frame [of calm_env "handle calm_env (Frame 16 1000 1000) (blank_session calm_env)"]
      triggerShake_frame [of motion_env "blank_session motion_env"]
    by (simp add: shakeDurationMs_def)
qed

subsection \<open>The clamped delta\<close>

lemma update_clamped: "update e dtMs now1 now2 g = update e (min dtMs maxDeltaMs) now1 now2 g"
  by (cases "player g") (simp_all add: update_None update_Some)

lemma update_globalTime:
  "globalTime (update e dtMs now1 now2 g)
     = (case player g of None \<Rightarrow> globalTime g | Some _ \<Rightarrow> globalTime g + min dtMs maxDeltaMs)"
proof (cases "player g")
  case None
  then show ?thesis by (simp add: update_None)
next
  case (Some p)
  then show ?thesis by (simp add: update_Some [OF Some] phase_same)
qed

subsection \<open>The concrete pages, evaluated\<close>

lemma row_pieces:
  "create404Pieces motion_env (row_page y) g =
     g\<lparr>pieces := [\<lparr>pc_x = 45, pc_y = y - 1, pc_r = 3, pc_color = Hsl 340 90 70\<rparr>,
                  \<lparr>pc_x = 54, pc_y = y - 1, pc_r = 3, pc_color = Hsl 340 90 70\<rparr>],
       draws := draws g + 8\<rparr>"
  by (simp add: create404Pieces_def row_page_def opaque_row_def Let_def scan_y.simps scan_x.simps
      sample_pixel_def motion_env_def rand_def drawn_def sample_hue_def js_rem_def CONFIG)

subsection \<open>Hue sampling\<close>

lemma js_rem_below: "0 \<le> a \<Longrightarrow> a < 360 \<Longrightarrow> js_rem a 360 = a"
proof -
  assume a: "0 \<le> a" "a < 360"
  then have "0 \<le> a / 360" "a / 360 < 1" by simp_all
  then have "\<lfloor>a / 360\<rfloor> = 0" by linarith
  then show ?thesis using a by (simp add: js_rem_def)
qed

lemma js_rem_above: "360 \<le> a \<Longrightarrow> a < 720 \<Longrightarrow> js_rem a 360 = a - 360"
proof -
  assume a: "360 \<le> a" "a < 720"
  then have "1 \<le> a / 360" "a / 360 < 2" by simp_all
  then have "\<lfloor>a / 360\<rfloor> = 1" by linarith
  then show ?thesis using a by (simp add: js_rem_def)
qed

lemma sample_hue_wrap:
  assumes "0 \<le> hi" "hi < lo" "lo < 360" "0 \<le> r" "r < 1"
  shows "sample_hue lo hi r =
           (if lo + r * (360 - lo + hi) < 360 then lo + r * (360 - lo + hi)
            else lo + r * (360 - lo + hi) - 360)"
    and "0 \<le> r * (360 - lo + hi)" and "r * (360 - lo + hi) < 360 - lo + hi"
proof -
  let ?W = "360 - lo + hi"
  have W: "0 < ?W" using assms by simp
  show 1: "0 \<le> r * ?W" using assms W by simp
  show 2: "r * ?W < ?W" using assms W by simp
  have "lo + r * ?W < 720" using 2 assms by linarith
  moreover have "0 \<le> lo + r * ?W" using 1 assms by linarith
  ultimately show "sample_hue lo hi r =
           (if lo + r * ?W < 360 then lo + r * ?W else lo + r * ?W - 360)"
    using assms by (simp add: sample_hue_def Let_def js_rem_below js_rem_above)
qed

lemma sample_hue_arc:
  assumes "0 \<le> hi" "hi < lo" "lo < 360"
  shows "sample_hue lo hi ` {r. 0 \<le> r \<and> r < 1} = {h. lo \<le> h \<and> h < 360} \<union> {h. 0 \<le> h \<and> h < hi}"
proof (intro set_eqI iffI)
  fix h
  assume "h \<in> sample_hue lo hi ` {r. 0 \<le> r \<and> r < 1}"
  then obtain r where r: "0 \<le> r" "r < 1" and h: "h = sample_hue lo hi r" by blast
  note w = sample_hue_wrap [OF assms r]
  show "h \<in> {h. lo \<le> h \<and> h < 360} \<union> {h. 0 \<le> h \<and> h < hi}"
  proof (cases "lo + r * (360 - lo + hi) < 360")
    case True
    then show ?thesis using w h by simp
  next
    case False
    then have "h = lo + r * (360 - lo + hi) - 360" using w(1) h by simp
    then show ?thesis using False w(3) by simp
  qed
next
  fix h
  let ?W = "360 - lo + hi"
  have W: "0 < ?W" using assms by simp
  assume "h \<in> {h. lo \<le> h \<and> h < 360} \<union> {h. 0 \<le> h \<and> h < hi}"
  then consider "lo \<le> h \<and> h < 360" | "0 \<le> h \<and> h < hi" by blast
  then show "h \<in> sample_hue lo hi ` {r. 0 \<le> r \<and> r < 1}"
  proof cases
    case 1
    let ?r = "(h - lo) / ?W"
    have r: "0 \<le> ?r" "?r < 1" using 1 W assms by simp_all
    have e: "?r * ?W = h - lo" using W by simp
    have "sample_hue lo hi ?r = h"
      using sample_hue_wrap(1) [OF assms r] 1 by (simp only: e) simp
    then show ?thesis using r by (metis (mono_tags, lifting) image_eqI mem_Collect_eq)
  next
    case 2
    let ?r = "(h + 360 - lo) / ?W"
    have r: "0 \<le> ?r" "?r < 1" using 2 W assms by simp_all
    have e: "?r * ?W = h + 360 - lo" using W by simp
    have "sample_hue lo hi ?r = h"
      using sample_hue_wrap(1) [OF assms r] 2 by (simp only: e) simp
    then show ?thesis using r by (metis (mono_tags, lifting) image_eqI mem_Collect_eq)
  qed
qed

lemma sample_pixel_colors:
  assumes "\<forall>p\<in>set (pieces g). \<exists>k. pc_color p = Hsl (sample_hue (hueMin pg) (hueMax pg) (math_random e k)) 90 70"
  shows "\<forall>p\<in>set (pieces (sample_pixel e pg im y x g)).
           \<exists>k. pc_color p = Hsl (sample_hue (hueMin pg) (hueMax pg) (math_random e k)) 90 70"
  using assms by (auto simp: sample_pixel_def Let_def drawn_def rand_def)

lemma scan_x_colors:
  "\<forall>p\<in>set (pieces g). \<exists>k. pc_color p = Hsl (sample_hue (hueMin pg) (hueMax pg) (math_random e k)) 90 70 \<Longrightarrow>
   \<forall>p\<in>set (pieces (scan_x e pg im y x g)).
      \<exists>k. pc_color p = Hsl (sample_hue (hueMin pg) (hueMax pg) (math_random e k)) 90 70"
proof (induction e pg im y x g rule: scan_x.induct)
  case (1 e pg im y x g)
  show ?case
  proof (cases "x < img_width im")
    case True
    from "1.prems" have "\<forall>p\<in>set (pieces (sample_pixel e pg im y x g)).
           \<exists>k. pc_color p = Hsl (sample_hue (hueMin pg) (hueMax pg) (math_random e k)) 90 70"
      by (rule sample_pixel_colors)
    then show ?thesis
      using "1.IH" [OF True] True by (simp add: scan_x.simps [of e pg im y x])
  next
    case False
    then show ?thesis
      using "1.prems" by (simp add: scan_x.simps [of e pg im y x])
  qed
qed

lemma scan_y_colors:
  "\<forall>p\<in>set (pieces g). \<exists>k. pc_color p = Hsl (sample_hue (hueMin pg) (hueMax pg) (math_random e k)) 90 70 \<Longrightarrow>
   \<forall>p\<in>set (pieces (scan_y e pg im y g)).
      \<exists>k. pc_color p = Hsl (sample_hue (hueMin pg) (hueMax pg) (math_random e k)) 90 70"
proof (induction e pg im y g rule: scan_y.induct)
  case (1 e pg im y g)
  show ?case
  proof (cases "y < img_height im")
    case True
    from "1.prems" have "\<forall>p\<in>set (pieces (scan_x e pg im y 0 g)).
           \<exists>k. pc_color p = Hsl (sample_hue (hueMin pg) (hueMax pg) (math_random e k)) 90 70"
      by (rule scan_x_colors)
    then show ?thesis
      using "1.IH" [OF True] True by (simp add: scan_y.simps [of e pg im y])
  next
    case False
    then show ?thesis
      using "1.prems" by (simp add: scan_y.simps [of e pg im y])
  qed
qed

lemma create404Pieces_colors:
  "\<forall>p\<in>set (pieces (create404Pieces e pg g)).
      \<exists>k. pc_color p = Hsl (sample_hue (hueMin pg) (hueMax pg) (math_random e k)) 90 70"
proof (cases "offCtx pg")
  case None
  then show ?thesis by (simp add: create404Pieces_def)
next
  case (Some im)
  have "\<forall>p\<in>set (pieces (g\<lparr>pieces := []\<rparr>)).
      \<exists>k. pc_color p = Hsl (sample_hue (hueMin pg) (hueMax pg) (math_random e k)) 90 70"
    by simp
  then have "\<forall>p\<in>set (pieces (scan_y e pg im 0 (g\<lparr>pieces := []\<rparr>))).
      \<exists>k. pc_color p = Hsl (sample_hue (hueMin pg) (hueMax pg) (math_random e k)) 90 70"
    by (rule scan_y_colors)
  then show ?thesis using Some by (simp add: create404Pieces_def Let_def)
qed

text \<open>
  Claim C6. For a draw \<open>r\<close> in \<open>[0, 1)\<close>: with the bounds 340 and 20 the hue is in
  \<open>[340, 360)\<close> or in \<open>[0, 20]\<close>; with the bounds 180 and 300 it is in \<open>[180, 300]\<close>.
  For bounds \<open>hueMin > hueMax\<close> that are hue angles (\<open>0 \<le> hueMax\<close>, \<open>hueMin < 360\<close>) the
  hues drawn are exactly the arc from \<open>hueMin\<close> up to 360 followed by the arc from 0 up to
  \<open>hueMax\<close>, whose widths add up to \<open>(360 - hueMin) + hueMax\<close>. Every piece that
  \<^verbatim>\<open>create404Pieces\<close> makes has such a hue, from one of the random draws.
\<close>

theorem hue_sampling_ranges:
  "(0 \<le> r \<and> r < 1 \<longrightarrow>
      (340 \<le> sample_hue 340 20 r \<and> sample_hue 340 20 r < 360)
      \<or> (0 \<le> sample_hue 340 20 r \<and> sample_hue 340 20 r \<le> 20))
   \<and> (0 \<le> r \<and> r < 1 \<longrightarrow> 180 \<le> sample_hue 180 300 r \<and> sample_hue 180 300 r \<le> 300)
   \<and> (0 \<le> hi \<and> hi < lo \<and> lo < 360 \<longrightarrow>
        sample_hue lo hi ` {r. 0 \<le> r \<and> r < 1}
          = {h. lo \<le> h \<and> h < 360} \<union> {h. 0 \<le> h \<and> h < hi})
   \<and> (\<forall>p\<in>set (pieces (create404Pieces e pg g)).
        \<exists>k. pc_color p = Hsl (sample_hue (hueMin pg) (hueMax pg) (math_random e k)) 90 70)"
proof -
  have 1: "(340 \<le> sample_hue 340 20 r \<and> sample_hue 340 20 r < 360)
      \<or> (0 \<le> sample_hue 340 20 r \<and> sample_hue 340 20 r \<le> 20)" if "0 \<le> r" "r < 1"
  proof -
    have "sample_hue 340 20 r \<in> sample_hue 340 20 ` {r. 0 \<le> r \<and> r < 1}"
      using that by blast
    then have "sample_hue 340 20 r \<in> {h. 340 \<le> h \<and> h < 360} \<union> {h. 0 \<le> h \<and> h < 20}"
      using sample_hue_arc [of 20 340] by simp
    then show ?thesis by auto
  qed
  have 2: "180 \<le> sample_hue 180 300 r \<and> sample_hue 180 300 r \<le> 300" if "0 \<le> r" "r < 1"
    using that by (simp add: sample_hue_def)
  show ?thesis
    using 1 2 sample_hue_arc [of hi lo] create404Pieces_colors [of e pg g] by blast
qed

theorem hue_sampling_ranges_witness:
  "(0::real) \<le> 3 / 4 \<and> (3::real) / 4 < 1 \<and> sample_hue 340 20 (3 / 4) = 10
   \<and> sample_hue 180 300 (3 / 4) = 270
   \<and> (0::real) \<le> 20 \<and> (20::real) < 340 \<and> (340::real) < 360
   \<and> sample_hue 340 20 ` {r. 0 \<le> r \<and> r < 1}
        = {h. 340 \<le> h \<and> h < 360} \<union> {h. 0 \<le> h \<and> h < 20}
   \<and> \<lparr>pc_x = 45, pc_y = 29, pc_r = 3, pc_color = Hsl 340 90 70\<rparr>
        \<in> set (pieces (create404Pieces motion_env (row_page 30) (blank_session motion_env)))
   \<and> (\<exists>k. Hsl 340 90 70 = Hsl (sample_hue 340 20 (math_random motion_env k)) 90 70)"
proof -
  note w = hue_sampling_ranges
    [of "3 / 4" 20 340 motion_env "row_page 30" "blank_session motion_env"]
  have a: "sample_hue 340 20 (3 / 4) = 10"
    by (simp add: sample_hue_def js_rem_def Let_def)
  have b: "sample_hue 180 300 (3 / 4) = 270"
    by (simp add: sample_hue_def)
  from w have c: "sample_hue 340 20 ` {r. 0 \<le> r \<and> r < 1}
        = {h. 340 \<le> h \<and> h < 360} \<union> {h. 0 \<le> h \<and> h < 20}"
    by simp
  have d: "\<lparr>pc_x = 45, pc_y = 29, pc_r = 3, pc_color = Hsl 340 90 70\<rparr>
        \<in> set (pieces (create404Pieces motion_env (row_page 30) (blank_session motion_env)))"
    by (simp add: row_pieces)
  from w have "\<forall>p\<in>set (pieces (create404Pieces motion_env (row_page 30) (blank_session motion_env))).
        \<exists>k. pc_color p = Hsl (sample_hue (hueMin (row_page 30)) (hueMax (row_page 30))
                               (math_random motion_env k)) 90 70"
    by blast
  from bspec [OF this d]
  have f: "\<exists>k. Hsl 340 90 70 = Hsl (sample_hue 340 20 (math_random motion_env k)) 90 70"
    by (simp add: row_page_def)
  show ?thesis using a b c d f by simp
qed

subsection \<open>The concrete session, evaluated\<close>

lemma row_session_value:
  "row_session =
     \<lparr>width = 100, height = 100, dpr = 1,
      player = Some \<lparr>pl_x = 50, pl_y = 85, pl_w = 50, pl_h = 18, pl_targetX = 50\<rparr>,
      stars = [],
      pieces = [\<lparr>pc_x = 45, pc_y = 29, pc_r = 3, pc_color = Hsl 340 90 70\<rparr>,
                \<lparr>pc_x = 54, pc_y = 29, pc_r = 3, pc_color = Hsl 340 90 70\<rparr>],
      bullets = [], particles = [],
      pointerX = 50, pointerDown = False,
      globalTime = 0, lastShotAt = 0, lastFrameAt = 0,
      shakeMs = 0, shakeIntensity = 0,
      isRunning = True, isGameOver = False,
      draws = 8, trace = [OverlayVisible False]\<rparr>"
  by (simp add: row_session_def start_def new_game_def read_dpr_def Let_def setOverlayVisible_def
      createStars_def createPlayer_def row_pieces backgroundStarDensity_def)

lemma find_hit_2: "find_hit b ps 2 = (if overlaps b (ps ! 1) then Some 1 else find_hit b ps 1)"
  using find_hit.simps(2) [of b ps 1] by (simp add: numeral_2_eq_2)

lemma find_hit_1: "find_hit b ps 1 = (if overlaps b (ps ! 0) then Some 0 else None)"
  using find_hit.simps(2) [of b ps 0] by simp

lemma before_hit_value:
  "before_hit =
     \<lparr>width = 100, height = 100, dpr = 1,
      player = Some \<lparr>pl_x = 50, pl_y = 85, pl_w = 50, pl_h = 18, pl_targetX = 50\<rparr>,
      stars = [],
      pieces = [\<lparr>pc_x = 45, pc_y = 70, pc_r = 3, pc_color = Hsl 340 90 70\<rparr>,
                \<lparr>pc_x = 54, pc_y = 70, pc_r = 3, pc_color = Hsl 340 90 70\<rparr>],
      bullets = [\<lparr>b_x = 50, b_y = 1756 / 25, b_vy = - 360, b_r = 4\<rparr>], particles = [],
      pointerX = 50, pointerDown = True,
      globalTime = 16, lastShotAt = 1000, lastFrameAt = 16,
      shakeMs = 0, shakeIntensity = 0,
      isRunning = True, isGameOver = False,
      draws = 16, trace = [OverlayVisible False]\<rparr>"
  by (simp add: before_hit_def row_session_value onPointerDown_def getCanvasRelativeX_def aim_def
      loop_def update_def Let_def follow_target_def lerp_def clamp_def continuous_fire_def
      spawnBullet_def move_bullets_def move_bullet_def resolve_collisions_def collide_bullet_def
      find_hit_2 find_hit_1 overlaps_def age_particles_def decay_shake_def check_victory_def
      onResize_def read_dpr_def createStars_def row_pieces CONFIG)


lemma explode_12:
  "explode_loop e 12 0 x y c g =
     add_particle e x y c (add_particle e x y c (add_particle e x y c (add_particle e x y c
     (add_particle e x y c (add_particle e x y c (add_particle e x y c (add_particle e x y c
     (add_particle e x y c (add_particle e x y c (add_particle e x y c (add_particle e x y c g)))))))))))"
  by (simp add: explode_loop.simps [of e 12])

lemma replicate_12: "replicate 12 x = [x, x, x, x, x, x, x, x, x, x, x, x]"
  by (simp add: numeral_eq_Suc)

lemma age_particles_eq:
  "age_particles dtSec g = g\<lparr>particles := List.map_filter (age_particle dtSec) (particles g)\<rparr>"
  by (simp add: age_particles_def particles_loop_eq)

lemma move_bullets_eq:
  "move_bullets dtSec g =
     g\<lparr>bullets := filter (\<lambda>b. \<not> b_y b + b_r b < 0) (map (move_bullet dtSec) (bullets g))\<rparr>"
  by (simp add: move_bullets_def bullets_loop_eq)

lemma after_hit_collided:
  "resolve_collisions motion_env (move_bullets (1 / 1000) (continuous_fire 1000 1000
      (follow_target (before_hit\<lparr>lastFrameAt := 17, globalTime := 17\<rparr>)))) =
     \<lparr>width = 100, height = 100, dpr = 1,
      player = Some \<lparr>pl_x = 50, pl_y = 85, pl_w = 50, pl_h = 18, pl_targetX = 50\<rparr>,
      stars = [],
      pieces = [\<lparr>pc_x = 45, pc_y = 70, pc_r = 3, pc_color = Hsl 340 90 70\<rparr>],
      bullets = [],
      particles = replicate 12 \<lparr>pa_x = 54, pa_y = 70, pa_vx = 50, pa_vy = 0, pa_life = 2 / 5,
                      pa_age = 0, pa_alpha = 1, pa_color = Hsl 340 90 70\<rparr>,
      pointerX = 50, pointerDown = True,
      globalTime = 17, lastShotAt = 1000, lastFrameAt = 17,
      shakeMs = 150, shakeIntensity = 7,
      isRunning = True, isGameOver = False,
      draws = 53, trace = [OverlayVisible False, Burst 54 70 (Hsl 340 90 70), BubbleSound]\<rparr>"
  by (simp add: before_hit_value follow_target_def lerp_def clamp_def continuous_fire_def
      move_bullets_eq move_bullet_def resolve_collisions_def collide_bullet_def Let_def
      find_hit_2 find_hit_1 overlaps_def spawnExplosion_def explode_12 add_particle_def
      rand_def drawn_def motion_env_def triggerShake_def playBubbleSound_def splice1_def
      replicate_12 CONFIG)

lemma after_hit_value:
  "after_hit =
     \<lparr>width = 100, height = 100, dpr = 1,
      player = Some \<lparr>pl_x = 50, pl_y = 85, pl_w = 50, pl_h = 18, pl_targetX = 50\<rparr>,
      stars = [],
      pieces = [\<lparr>pc_x = 45, pc_y = 70, pc_r = 3, pc_color = Hsl 340 90 70\<rparr>],
      bullets = [],
      particles = replicate 12 \<lparr>pa_x = 1081 / 20, pa_y = 70, pa_vx = 50, pa_vy = 3 / 25,
                      pa_life = 2 / 5, pa_age = 1 / 1000, pa_alpha = 399 / 400,
                      pa_color = Hsl 340 90 70\<rparr>,
      pointerX = 50, pointerDown = True,
      globalTime = 17, lastShotAt = 1000, lastFrameAt = 17,
      shakeMs = 149, shakeIntensity = 7,
      isRunning = True, isGameOver = False,
      draws = 53, trace = [OverlayVisible False, Burst 54 70 (Hsl 340 90 70), BubbleSound]\<rparr>"
proof -
  have p: "player (before_hit\<lparr>lastFrameAt := 17\<rparr>) =
      Some \<lparr>pl_x = 50, pl_y = 85, pl_w = 50, pl_h = 18, pl_targetX = 50\<rparr>"
    and r: "isRunning before_hit" and l: "lastFrameAt before_hit = 16"
    and t: "globalTime before_hit = 16"
    by (simp_all add: before_hit_value)
  have m: "min (1::real) maxDeltaMs = 1" by (simp add: maxDeltaMs_def)
  have "after_hit = update motion_env 1 1000 1000 (before_hit\<lparr>lastFrameAt := 17\<rparr>)"
    using r l by (simp add: after_hit_def loop_def Let_def)
  also have "\<dots> = check_victory (decay_shake 1 (age_particles (1 / 1000)
      (resolve_collisions motion_env (move_bullets (1 / 1000) (continuous_fire 1000 1000
      (follow_target (before_hit\<lparr>lastFrameAt := 17, globalTime := 17\<rparr>)))))))"
    by (simp add: update_Some [OF p] m t)
  finally show ?thesis
    by (simp add: after_hit_collided age_particles_eq age_particle_def Let_def
        List.map_filter_simps decay_shake_def check_victory_def gravity_def
        replicate_12)
qed

subsection \<open>Explosion particles\<close>

lemma age_particle_None: "age_particle dtSec pa = None \<longleftrightarrow> pa_life pa \<le> pa_age pa + dtSec"
  by (simp add: age_particle_def Let_def)

lemma age_particle_Some:
  assumes "age_particle dtSec pa = Some pa'"
  shows "pa_age pa' = pa_age pa + dtSec" and "pa_life pa' = pa_life pa"
    and "pa_alpha pa' = 1 - pa_age pa' / pa_life pa'" and "pa_age pa' < pa_life pa'"
    and "pa_x pa' = pa_x pa + pa_vx pa * dtSec" and "pa_y pa' = pa_y pa + pa_vy pa * dtSec"
    and "pa_vx pa' = pa_vx pa" and "pa_vy pa' = pa_vy pa + gravity * dtSec"
    and "pa_color pa' = pa_color pa"
  using assms by (auto simp: age_particle_def Let_def split: if_splits)

lemma alpha_falls:
  assumes "0 < life" and "a1 < a2"
  shows "1 - a2 / life < 1 - a1 / (life :: real)"
  using assms by (simp add: divide_strict_right_mono)

lemma map_filter_mem:
  "y \<in> set (List.map_filter f xs) \<longleftrightarrow> (\<exists>x\<in>set xs. f x = Some y)"
  by (induction xs) (auto simp: List.map_filter_simps split: option.splits)

lemma run_in_session: "in_session e g \<Longrightarrow> in_session e (run e evs g)"
  by (induction evs arbitrary: g) (simp_all add: in_session.handled)

lemma row_session_in_session: "in_session motion_env row_session"
  unfolding row_session_def by (rule in_session.started)

lemma before_hit_in_session: "in_session motion_env before_hit"
  unfolding before_hit_def by (rule run_in_session) (rule row_session_in_session)

lemma after_hit_in_session: "in_session motion_env after_hit"
  unfolding after_hit_def by (rule in_session.handled) (rule before_hit_in_session)

lemma aged_particles_fade:
  "\<forall>pa\<in>set (particles (age_particles dtSec g)).
     pa_alpha pa = 1 - pa_age pa / pa_life pa \<and> pa_age pa < pa_life pa"
  using age_particle_Some(3,4)
  by (auto simp: age_particles_eq map_filter_mem)

lemma update_particles_fade:
  assumes "\<forall>pa\<in>set (particles g). pa_alpha pa = 1 - pa_age pa / pa_life pa"
  shows "\<forall>pa\<in>set (particles (update e dtMs now1 now2 g)). pa_alpha pa = 1 - pa_age pa / pa_life pa"
proof (cases "player g")
  case None
  then show ?thesis using assms by (simp add: update_None)
next
  case (Some p)
  show ?thesis
    using aged_particles_fade by (simp add: update_Some [OF Some] phase_same)
qed

lemma handle_particles_fade:
  assumes "\<forall>pa\<in>set (particles g). pa_alpha pa = 1 - pa_age pa / pa_life pa"
  shows "\<forall>pa\<in>set (particles (handle e ev g)). pa_alpha pa = 1 - pa_age pa / pa_life pa"
proof (cases ev)
  case (Frame ts now1 now2)
  have "\<forall>pa\<in>set (particles (g\<lparr>lastFrameAt := ts\<rparr>)). pa_alpha pa = 1 - pa_age pa / pa_life pa"
    using assms by simp
  then have "\<forall>pa\<in>set (particles (update e (ts - lastFrameAt g) now1 now2 (g\<lparr>lastFrameAt := ts\<rparr>))).
      pa_alpha pa = 1 - pa_age pa / pa_life pa"
    by (rule update_particles_fade)
  then show ?thesis
    using Frame assms by (simp add: loop_def Let_def)
next
  case (PointerMove l x)
  then show ?thesis using assms by (simp add: onPointerMove_def aim_def split: option.split)
next
  case (PointerDown l x)
  then show ?thesis using assms by (simp add: onPointerDown_def aim_def split: option.split)
next
  case PointerUp
  then show ?thesis using assms by (simp add: onPointerUp_def)
next
  case (Resize w h d pg)
  then show ?thesis
    using assms
    by (simp add: onResize_def Let_def create404Pieces_same createStars_def split: option.split)
next
  case (VisibilityChange hidden t)
  then show ?thesis using assms by (simp add: onVisibilityChange_def)
next
  case (Reset t pg)
  then show ?thesis
    by (simp add: reset_def Let_def setOverlayVisible_def create404Pieces_same createPlayer_def
        createStars_def)
qed

lemma session_particles_fade:
  "in_session e g \<Longrightarrow> \<forall>pa\<in>set (particles g). pa_alpha pa = 1 - pa_age pa / pa_life pa"
proof (induction rule: in_session.induct)
  case (started t pg w h d t0)
  show ?case
    by (simp add: start_def Let_def create404Pieces_same createPlayer_def createStars_def
        setOverlayVisible_def new_game_def)
next
  case (handled g ev)
  from handled.IH show ?case by (rule handle_particles_fade)
qed

text \<open>
  Claim C5. A tick with delta \<open>dtSec\<close> turns the particle store into the list of the aged
  survivors, in order: a particle is removed exactly when its age plus \<open>dtSec\<close> has reached
  its life, and a survivor's alpha is 1 minus its new age over its life. For a positive
  life, alpha as a function of age is strictly decreasing, so a tick with a positive delta
  lowers the alpha of every surviving particle. In every state of a session each stored
  particle has alpha equal to 1 minus age over life.
\<close>

theorem particle_fade:
  "particles (age_particles dtSec g) = List.map_filter (age_particle dtSec) (particles g)
   \<and> (age_particle dtSec pa = None \<longleftrightarrow> pa_life pa \<le> pa_age pa + dtSec)
   \<and> (\<forall>pa'\<in>set (particles (age_particles dtSec g)).
         pa_alpha pa' = 1 - pa_age pa' / pa_life pa' \<and> pa_age pa' < pa_life pa')
   \<and> (0 < life \<and> a1 < a2 \<longrightarrow> 1 - a2 / life < 1 - a1 / (life :: real))
   \<and> (\<forall>pa'. age_particle dtSec pa = Some pa' \<and> 0 < dtSec \<and> 0 < pa_life pa
              \<and> pa_alpha pa = 1 - pa_age pa / pa_life pa \<longrightarrow>
         pa_age pa' = pa_age pa + dtSec \<and> pa_alpha pa' < pa_alpha pa)
   \<and> (in_session e g \<longrightarrow>
         (\<forall>pa'\<in>set (particles g). pa_alpha pa' = 1 - pa_age pa' / pa_life pa'))"
proof -
  have 1: "particles (age_particles dtSec g) = List.map_filter (age_particle dtSec) (particles g)"
    by (simp add: age_particles_eq)
  have 3: "\<forall>pa'\<in>set (particles (age_particles dtSec g)).
         pa_alpha pa' = 1 - pa_age pa' / pa_life pa' \<and> pa_age pa' < pa_life pa'"
    by (rule aged_particles_fade)
  have 5: "pa_age pa' = pa_age pa + dtSec \<and> pa_alpha pa' < pa_alpha pa"
    if "age_particle dtSec pa = Some pa'" "0 < dtSec" "0 < pa_life pa"
       "pa_alpha pa = 1 - pa_age pa / pa_life pa" for pa'
  proof -
    note s = age_particle_Some [OF that(1)]
    have "1 - (pa_age pa + dtSec) / pa_life pa < 1 - pa_age pa / pa_life pa"
      using that(2,3) by (intro alpha_falls) simp_all
    then show ?thesis using s that(4) by simp
  qed
  have 6: "in_session e g \<longrightarrow>
         (\<forall>pa'\<in>set (particles g). pa_alpha pa' = 1 - pa_age pa' / pa_life pa')"
    using session_particles_fade [of e g] by blast
  show ?thesis
    using 1 3 5 6 age_particle_None [of dtSec pa] alpha_falls [of life a1 a2] by blast
qed

theorem particle_fade_witness:
  "in_session motion_env after_hit \<and> spark \<in> set (particles after_hit)
   \<and> pa_alpha spark = 1 - pa_age spark / pa_life spark
   \<and> (0::real) < 1 / 25 \<and> 0 < pa_life spark
   \<and> age_particle (1 / 25) spark
        = Some (spark\<lparr>pa_age := 41 / 1000, pa_alpha := 359 / 400, pa_x := 1121 / 20,
                        pa_y := 70 + 3 / 625, pa_vy := 3 / 25 + 24 / 5\<rparr>)
   \<and> (359::real) / 400 < pa_alpha spark
   \<and> pa_life (spark\<lparr>pa_age := 9 / 25\<rparr>) \<le> pa_age (spark\<lparr>pa_age := 9 / 25\<rparr>) + 1 / 25
   \<and> age_particle (1 / 25) (spark\<lparr>pa_age := 9 / 25\<rparr>) = None
   \<and> length (particles (age_particles (1 / 25) after_hit)) = 12"
proof -
  note w = particle_fade [of "1 / 25" after_hit spark "2 / 5" "1 / 1000" "41 / 1000" motion_env]
  note v = particle_fade [of "1 / 25" after_hit "spark\<lparr>pa_age := 9 / 25\<rparr>" "2 / 5" "1 / 1000"
      "41 / 1000" motion_env]
  have a: "in_session motion_env after_hit" by (rule after_hit_in_session)
  have b: "spark \<in> set (particles after_hit)"
    by (simp add: after_hit_value spark_def)
  from w a have "\<forall>pa'\<in>set (particles after_hit). pa_alpha pa' = 1 - pa_age pa' / pa_life pa'"
    by blast
  from bspec [OF this b] have c: "pa_alpha spark = 1 - pa_age spark / pa_life spark" .
  have d: "age_particle (1 / 25) spark
        = Some (spark\<lparr>pa_age := 41 / 1000, pa_alpha := 359 / 400, pa_x := 1121 / 20,
                        pa_y := 70 + 3 / 625, pa_vy := 3 / 25 + 24 / 5\<rparr>)"
    by (simp add: age_particle_def spark_def Let_def gravity_def)
  have l: "0 < pa_life spark" by (simp add: spark_def)
  from w d c l have "pa_alpha (spark\<lparr>pa_age := 41 / 1000, pa_alpha := 359 / 400, pa_x := 1121 / 20,
                        pa_y := 70 + 3 / 625, pa_vy := 3 / 25 + 24 / 5\<rparr>) < pa_alpha spark"
    by simp
  then have f: "(359::real) / 400 < pa_alpha spark" by simp
  have n: "pa_life (spark\<lparr>pa_age := 9 / 25\<rparr>) \<le> pa_age (spark\<lparr>pa_age := 9 / 25\<rparr>) + 1 / 25"
    by (simp add: spark_def)
  from v n have h: "age_particle (1 / 25) (spark\<lparr>pa_age := 9 / 25\<rparr>) = None" by blast
  from w have "particles (age_particles (1 / 25) after_hit)
      = List.map_filter (age_particle (1 / 25)) (particles after_hit)"
    by blast
  then have j: "length (particles (age_particles (1 / 25) after_hit)) = 12"
    using d by (simp add: after_hit_value replicate_12 List.map_filter_simps spark_def)
  show ?thesis
    using a b c d f h j l n by simp
qed

subsection \<open>Collisions\<close>

lemma resolve_no_overlap:
  "\<forall>b\<in>set (bullets (resolve_collisions e g)). \<forall>p\<in>set (pieces (resolve_collisions e g)).
     \<not> overlaps b p"
  unfolding resolve_collisions_def by (rule collide_loop_no_overlap) simp_all

lemma resolve_accounting:
  "\<exists>hits. mset (pieces g) = mset (pieces (resolve_collisions e g)) + mset hits
        \<and> length (bullets g) = length (bullets (resolve_collisions e g)) + length hits
        \<and> trace (resolve_collisions e g) = trace g @ concat (map hit_effects hits)
        \<and> (\<forall>p\<in>set hits. \<exists>b\<in>set (bullets g). overlaps b p)"
  unfolding resolve_collisions_def by (rule collide_loop_accounting) simp

lemma resolve_balance:
  "length (pieces g) + length (bullets (resolve_collisions e g))
     = length (pieces (resolve_collisions e g)) + length (bullets g)"
proof -
  obtain hits where
    a: "mset (pieces g) = mset (pieces (resolve_collisions e g)) + mset hits"
    and b: "length (bullets g) = length (bullets (resolve_collisions e g)) + length hits"
    using resolve_accounting [where g=g and e=e] by blast
  have "length (pieces g) = length (pieces (resolve_collisions e g)) + length hits"
    using arg_cong [OF a, of size] by simp
  then show ?thesis using b by simp
qed

lemma update_pieces:
  "player g = Some p \<Longrightarrow>
   pieces (update e dtMs now1 now2 g)
     = pieces (resolve_collisions e (move_bullets (min dtMs maxDeltaMs / 1000)
         (continuous_fire now1 now2
            (follow_target (g\<lparr>globalTime := globalTime g + min dtMs maxDeltaMs\<rparr>)))))"
  and update_bullets:
  "player g = Some p \<Longrightarrow>
   bullets (update e dtMs now1 now2 g)
     = bullets (resolve_collisions e (move_bullets (min dtMs maxDeltaMs / 1000)
         (continuous_fire now1 now2
            (follow_target (g\<lparr>globalTime := globalTime g + min dtMs maxDeltaMs\<rparr>)))))"
  by (simp_all add: update_Some phase_same)

lemma update_no_overlap:
  assumes "player g \<noteq> None"
  shows "\<forall>b\<in>set (bullets (update e dtMs now1 now2 g)).
           \<forall>p\<in>set (pieces (update e dtMs now1 now2 g)). \<not> overlaps b p"
proof -
  obtain p where p: "player g = Some p" using assms by blast
  show ?thesis
    unfolding update_pieces [OF p] update_bullets [OF p] by (rule resolve_no_overlap)
qed

lemma at_impact_value:
  "bullets at_impact = [move_bullet (1 / 1000) shot]"
  "pieces at_impact = [left_piece, right_piece]"
  "trace at_impact = [OverlayVisible False]"
  by (simp_all add: at_impact_def before_hit_value phase_same move_bullets_eq continuous_fire_def
      move_bullet_def shot_def left_piece_def right_piece_def CONFIG)

lemma at_impact_resolved:
  "pieces (resolve_collisions motion_env at_impact) = [left_piece]"
  "bullets (resolve_collisions motion_env at_impact) = []"
  "trace (resolve_collisions motion_env at_impact)
     = [OverlayVisible False, Burst 54 70 (Hsl 340 90 70), BubbleSound]"
  unfolding at_impact_def after_hit_collided by (simp_all add: left_piece_def)

lemma first_shot:
  "bullets (update motion_env 16 1000 1000 armed) = [shot]"
  "pieces (update motion_env 16 1000 1000 armed)
     = [left_piece\<lparr>pc_y := 29\<rparr>, right_piece\<lparr>pc_y := 29\<rparr>]"
proof -
  let ?g = "armed"
  have v: "?g = row_session\<lparr>pointerDown := True\<rparr>"
    by (simp add: armed_def row_session_value onPointerDown_def aim_def getCanvasRelativeX_def)
  have p: "player ?g = Some \<lparr>pl_x = 50, pl_y = 85, pl_w = 50, pl_h = 18, pl_targetX = 50\<rparr>"
    by (simp add: v row_session_value)
  let ?a = "move_bullets (min 16 maxDeltaMs / 1000) (continuous_fire 1000 1000
         (follow_target (?g\<lparr>globalTime := globalTime ?g + min 16 maxDeltaMs\<rparr>)))"
  have a: "bullets ?a = [shot]"
    "pieces ?a = [left_piece\<lparr>pc_y := 29\<rparr>, right_piece\<lparr>pc_y := 29\<rparr>]"
    by (simp_all add: v row_session_value phase_same move_bullets_eq continuous_fire_def
        spawnBullet_def follow_target_def lerp_def clamp_def Let_def
        move_bullet_def shot_def left_piece_def right_piece_def CONFIG)
  have "collide_bullet motion_env 0 ?a = ?a"
    by (rule collide_bullet_miss)
      (simp add: a find_hit_2 find_hit_1 overlaps_def shot_def left_piece_def right_piece_def)
  then have "resolve_collisions motion_env ?a = ?a"
    by (simp add: resolve_collisions_def a)
  then show
    "bullets (update motion_env 16 1000 1000 ?g) = [shot]"
    "pieces (update motion_env 16 1000 1000 ?g)
       = [left_piece\<lparr>pc_y := 29\<rparr>, right_piece\<lparr>pc_y := 29\<rparr>]"
    using a by (simp_all add: update_pieces [OF p] update_bullets [OF p])
qed

text \<open>
  Claim C1, as the code has it. The collision loop runs after the bullets have moved and
  takes the bullets from the last to the first; a bullet that overlaps a live piece is
  removed with one piece, and one burst is spawned at that piece with its colour. So the
  pieces removed (\<open>hits\<close>), the bullets removed and the bursts correspond one to one, every
  removed piece overlapped a bullet of that moment, and when a tick of a session ends no
  live bullet overlaps a live piece.
\<close>

theorem collision_resolution:
  "(\<forall>b\<in>set (bullets (resolve_collisions e g)). \<forall>p\<in>set (pieces (resolve_collisions e g)).
      \<not> overlaps b p)
   \<and> (\<exists>hits. mset (pieces g) = mset (pieces (resolve_collisions e g)) + mset hits
          \<and> length (bullets g) = length (bullets (resolve_collisions e g)) + length hits
          \<and> trace (resolve_collisions e g) = trace g @ concat (map hit_effects hits)
          \<and> (\<forall>p\<in>set hits. \<exists>b\<in>set (bullets g). overlaps b p))
   \<and> (in_session e g \<longrightarrow>
        (\<forall>b\<in>set (bullets (update e dtMs now1 now2 g)).
           \<forall>p\<in>set (pieces (update e dtMs now1 now2 g)). \<not> overlaps b p))"
  using resolve_no_overlap [of e g] resolve_accounting [of g e]
    update_no_overlap [OF in_session_player, where e=e and g=g and dtMs=dtMs and ?now1.0=now1
      and ?now2.0=now2]
  by blast

theorem collision_resolution_witness:
  "in_session motion_env armed
   \<and> shot \<in> set (bullets (update motion_env 16 1000 1000 armed))
   \<and> right_piece\<lparr>pc_y := 29\<rparr>
        \<in> set (pieces (update motion_env 16 1000 1000 armed))
   \<and> \<not> overlaps shot (right_piece\<lparr>pc_y := 29\<rparr>)
   \<and> (\<exists>hits. mset [left_piece, right_piece] = mset [left_piece] + mset hits
          \<and> length [move_bullet (1 / 1000) shot] = length ([] :: bullet list) + length hits
          \<and> [OverlayVisible False, Burst 54 70 (Hsl 340 90 70), BubbleSound]
               = [OverlayVisible False] @ concat (map hit_effects hits))"
proof -
  let ?g = "armed"
  note w = collision_resolution [of motion_env ?g 16 1000 1000]
  note v = collision_resolution [of motion_env at_impact]
  have a: "in_session motion_env ?g"
    unfolding armed_def by (rule in_session.handled) (rule row_session_in_session)
  have b: "shot \<in> set (bullets (update motion_env 16 1000 1000 ?g))"
    and c: "right_piece\<lparr>pc_y := 29\<rparr> \<in> set (pieces (update motion_env 16 1000 1000 ?g))"
    by (simp_all add: first_shot)
  from w a have "\<forall>b\<in>set (bullets (update motion_env 16 1000 1000 ?g)).
       \<forall>p\<in>set (pieces (update motion_env 16 1000 1000 ?g)). \<not> overlaps b p"
    by blast
  then have d: "\<not> overlaps shot (right_piece\<lparr>pc_y := 29\<rparr>)"
    using b c by blast
  from v have f: "\<exists>hits. mset [left_piece, right_piece] = mset [left_piece] + mset hits
          \<and> length [move_bullet (1 / 1000) shot] = length ([] :: bullet list) + length hits
          \<and> [OverlayVisible False, Burst 54 70 (Hsl 340 90 70), BubbleSound]
               = [OverlayVisible False] @ concat (map hit_effects hits)"
    unfolding at_impact_value at_impact_resolved by blast
  show ?thesis
    using a b c d f by blast
qed

text \<open>
  Claim C1 as stated fails in the concrete session: when the frame at 17 ms starts, the
  bullet \<open>shot\<close> and the piece \<open>left_piece\<close> are live and overlap (they still overlap once
  the bullet has moved), yet \<open>left_piece\<close> is live when the frame ends: the bullet was used
  up on \<open>right_piece\<close>, which comes first in the scan, and the only burst is there.
\<close>

theorem overlapping_piece_survives:
  "in_session motion_env before_hit
   \<and> shot \<in> set (bullets before_hit) \<and> left_piece \<in> set (pieces before_hit)
   \<and> overlaps shot left_piece \<and> overlaps (move_bullet (1 / 1000) shot) left_piece
   \<and> left_piece \<in> set (pieces (handle motion_env (Frame 17 1000 1000) before_hit))
   \<and> trace (handle motion_env (Frame 17 1000 1000) before_hit)
        = trace before_hit @ [Burst 54 70 (Hsl 340 90 70), BubbleSound]"
proof -
  have "overlaps shot left_piece" "overlaps (move_bullet (1 / 1000) shot) left_piece"
    by (simp_all add: overlaps_def shot_def left_piece_def move_bullet_def)
  moreover have "shot \<in> set (bullets before_hit)" "left_piece \<in> set (pieces before_hit)"
    by (simp_all add: before_hit_value shot_def left_piece_def)
  moreover have "left_piece \<in> set (pieces after_hit)"
    "trace after_hit = trace before_hit @ [Burst 54 70 (Hsl 340 90 70), BubbleSound]"
    by (simp_all add: after_hit_value before_hit_value left_piece_def)
  ultimately show ?thesis
    using before_hit_in_session unfolding after_hit_def by blast
qed

lemma collide_bullet_pieces_le:
  "length (pieces g) \<le> length (pieces (collide_bullet e i g)) + 1"
proof (cases "find_hit (bullets g ! i) (pieces g) (length (pieces g))")
  case None
  then show ?thesis by (simp add: collide_bullet_miss)
next
  case (Some j)
  then show ?thesis
    using find_hit_Some [OF Some] by (simp add: collide_bullet_hit(1) [OF Some] splice1_length)
qed

lemma collide_bullet_cases:
  "(case find_hit (bullets g ! i) (pieces g) (length (pieces g)) of
      None \<Rightarrow> collide_bullet e i g = g
    | Some j \<Rightarrow>
        j < length (pieces g) \<and> overlaps (bullets g ! i) (pieces g ! j)
        \<and> (\<forall>k. j < k \<and> k < length (pieces g) \<longrightarrow> \<not> overlaps (bullets g ! i) (pieces g ! k))
        \<and> pieces (collide_bullet e i g) = splice1 j (pieces g)
        \<and> (\<forall>k<j. pieces (collide_bullet e i g) ! k = pieces g ! k)
        \<and> bullets (collide_bullet e i g) = splice1 i (bullets g))"
proof (cases "find_hit (bullets g ! i) (pieces g) (length (pieces g))")
  case None
  then show ?thesis by (simp add: collide_bullet_miss)
next
  case (Some j)
  then show ?thesis
    using find_hit_Some [OF Some] collide_bullet_hit(1,2) [OF Some]
    by (simp add: splice1_nth_below)
qed

lemma update_pieces_le:
  "length (pieces g) \<le> length (pieces (update e dtMs now1 now2 g)) + length (bullets g) + 1"
proof (cases "player g")
  case None
  then show ?thesis by (simp add: update_None)
next
  case (Some p)
  let ?g3 = "continuous_fire now1 now2
            (follow_target (g\<lparr>globalTime := globalTime g + min dtMs maxDeltaMs\<rparr>))"
  let ?g4 = "move_bullets (min dtMs maxDeltaMs / 1000) ?g3"
  have "length (bullets ?g3) \<le> length (bullets g) + 1"
    by (simp add: continuous_fire_def spawnBullet_def follow_target_same Let_def
        split: option.split)
  moreover have "length (bullets ?g4) \<le> length (bullets ?g3)"
    by (simp add: move_bullets_eq)
  moreover have "pieces ?g4 = pieces g"
    by (simp add: phase_same)
  moreover have "length (pieces ?g4) + length (bullets (resolve_collisions e ?g4))
     = length (pieces (resolve_collisions e ?g4)) + length (bullets ?g4)"
    by (rule resolve_balance)
  ultimately show ?thesis
    by (simp add: update_pieces [OF Some])
qed

text \<open>
  Claim C7. One turn of the collision loop, for the bullet at index \<open>i\<close>, scans the pieces
  from the last index down and stops at the first one that overlaps: that piece and the
  bullet are spliced out and every piece below it, overlapping or not, is left as it was.
  So a turn removes at most one piece; over the whole collision loop as many pieces go as
  bullets, and a tick removes no more pieces than it had bullets, plus the one it may fire.
\<close>

theorem one_piece_per_bullet:
  "(case find_hit (bullets g ! i) (pieces g) (length (pieces g)) of
      None \<Rightarrow> collide_bullet e i g = g
    | Some j \<Rightarrow>
        j < length (pieces g) \<and> overlaps (bullets g ! i) (pieces g ! j)
        \<and> (\<forall>k. j < k \<and> k < length (pieces g) \<longrightarrow> \<not> overlaps (bullets g ! i) (pieces g ! k))
        \<and> pieces (collide_bullet e i g) = splice1 j (pieces g)
        \<and> (\<forall>k<j. pieces (collide_bullet e i g) ! k = pieces g ! k)
        \<and> bullets (collide_bullet e i g) = splice1 i (bullets g))
   \<and> length (pieces g) \<le> length (pieces (collide_bullet e i g)) + 1
   \<and> length (pieces g) + length (bullets (resolve_collisions e g))
        = length (pieces (resolve_collisions e g)) + length (bullets g)
   \<and> length (pieces g) \<le> length (pieces (update e dtMs now1 now2 g)) + length (bullets g) + 1"
  using collide_bullet_cases [where g=g and i=i and e=e]
    collide_bullet_pieces_le [where g=g and i=i and e=e]
    resolve_balance [where g=g and e=e]
    update_pieces_le [where g=g and e=e and dtMs=dtMs and ?now1.0=now1 and ?now2.0=now2]
  by blast

theorem one_piece_per_bullet_witness:
  "find_hit (bullets at_impact ! 0) (pieces at_impact) (length (pieces at_impact)) = Some 1
   \<and> overlaps (bullets at_impact ! 0) (pieces at_impact ! 1)
   \<and> overlaps (bullets at_impact ! 0) (pieces at_impact ! 0)
   \<and> pieces (collide_bullet motion_env 0 at_impact) = [left_piece]
   \<and> pieces (collide_bullet motion_env 0 at_impact) ! 0 = pieces at_impact ! 0
   \<and> bullets (collide_bullet motion_env 0 at_impact) = []
   \<and> length (pieces at_impact) = 2 \<and> length (bullets at_impact) = 1
   \<and> length (pieces (resolve_collisions motion_env at_impact)) = 1
   \<and> length (bullets (resolve_collisions motion_env at_impact)) = 0"
proof -
  note w = one_piece_per_bullet [where g=at_impact and i=0 and e=motion_env and dtMs=1
      and ?now1.0=1000 and ?now2.0=1000]
  have o: "overlaps (bullets at_impact ! 0) (pieces at_impact ! 1)"
    "overlaps (bullets at_impact ! 0) (pieces at_impact ! 0)"
    by (simp_all add: at_impact_value overlaps_def move_bullet_def shot_def left_piece_def
        right_piece_def)
  have f: "find_hit (bullets at_impact ! 0) (pieces at_impact) (length (pieces at_impact)) = Some 1"
    using o by (simp add: at_impact_value(2) find_hit_2)
  have w1: "pieces (collide_bullet motion_env 0 at_impact) = splice1 1 (pieces at_impact)"
    and w2: "\<forall>k<1. pieces (collide_bullet motion_env 0 at_impact) ! k = pieces at_impact ! k"
    and w3: "bullets (collide_bullet motion_env 0 at_impact) = splice1 0 (bullets at_impact)"
    using w unfolding f option.case by blast+
  have c: "pieces (collide_bullet motion_env 0 at_impact) = [left_piece]"
    "pieces (collide_bullet motion_env 0 at_impact) ! 0 = pieces at_impact ! 0"
    "bullets (collide_bullet motion_env 0 at_impact) = []"
    using w2 by (simp_all add: w1 w3 at_impact_value splice1_def)
  have l: "length (pieces at_impact) = 2" "length (bullets at_impact) = 1"
    by (simp_all add: at_impact_value)
  have r: "length (bullets (resolve_collisions motion_env at_impact)) = 0"
    by (simp add: at_impact_resolved)
  from w have "length (pieces at_impact) + length (bullets (resolve_collisions motion_env at_impact))
        = length (pieces (resolve_collisions motion_env at_impact)) + length (bullets at_impact)"
    by blast
  then have q: "length (pieces (resolve_collisions motion_env at_impact)) = 1"
    using l r by simp
  show ?thesis
    using o f c l r q by blast
qed

subsection \<open>The player stays on screen\<close>

lemma clamp_within: "lo \<le> hi \<Longrightarrow> lo \<le> clamp v lo hi \<and> clamp v lo hi \<le> hi"
  by (simp add: clamp_def)

lemma clamp_inverted: "hi < lo \<Longrightarrow> clamp v lo hi = lo"
  by (simp add: clamp_def)

lemma update_player_x:
  assumes "player g = Some p"
  shows "player (update e dtMs now1 now2 g)
           = Some (p\<lparr>pl_x := clamp (lerp (pl_x p) (pl_targetX p) playerLerp) (pl_w p / 2)
                                  (width g - pl_w p / 2)\<rparr>)"
    and "width (update e dtMs now1 now2 g) = width g"
proof -
  have "player (g\<lparr>globalTime := globalTime g + min dtMs maxDeltaMs\<rparr>) = Some p"
    using assms by simp
  from follow_target_player [OF this]
  show "player (update e dtMs now1 now2 g)
           = Some (p\<lparr>pl_x := clamp (lerp (pl_x p) (pl_targetX p) playerLerp) (pl_w p / 2)
                                  (width g - pl_w p / 2)\<rparr>)"
    by (simp add: update_Some [OF assms] phase_same)
  show "width (update e dtMs now1 now2 g) = width g"
    by (simp add: update_Some [OF assms] phase_same)
qed

text \<open>
  Claim C4, as the code has it. When the player exists, an update keeps its width and sets
  its x to the smoothed position clamped by \<^verbatim>\<open>Math.max(min, Math.min(max, v))\<close>: whatever
  the delta and the pointer target, x lies within \<open>[w/2, width - w/2]\<close> provided the
  viewport is at least as wide as the player; in a narrower viewport the interval is
  empty and x is \<open>w/2\<close>.
\<close>

theorem player_x_clamped:
  "player g = Some p \<longrightarrow>
     (\<exists>p'. player (update e dtMs now1 now2 g) = Some p' \<and> pl_w p' = pl_w p
        \<and> width (update e dtMs now1 now2 g) = width g
        \<and> (pl_w p \<le> width g \<longrightarrow> pl_w p / 2 \<le> pl_x p' \<and> pl_x p' \<le> width g - pl_w p / 2)
        \<and> (width g < pl_w p \<longrightarrow> pl_x p' = pl_w p / 2))"
proof
  assume p: "player g = Some p"
  let ?p' = "p\<lparr>pl_x := clamp (lerp (pl_x p) (pl_targetX p) playerLerp) (pl_w p / 2)
                                  (width g - pl_w p / 2)\<rparr>"
  have 1: "pl_w p \<le> width g \<longrightarrow> pl_w p / 2 \<le> pl_x ?p' \<and> pl_x ?p' \<le> width g - pl_w p / 2"
    using clamp_within [of "pl_w p / 2" "width g - pl_w p / 2"] by simp
  have 2: "width g < pl_w p \<longrightarrow> pl_x ?p' = pl_w p / 2"
    using clamp_inverted [of "width g - pl_w p / 2" "pl_w p / 2"] by simp
  have "player (update e dtMs now1 now2 g) = Some ?p' \<and> pl_w ?p' = pl_w p
        \<and> width (update e dtMs now1 now2 g) = width g"
    using update_player_x [OF p] by simp
  then show "\<exists>p'. player (update e dtMs now1 now2 g) = Some p' \<and> pl_w p' = pl_w p
        \<and> width (update e dtMs now1 now2 g) = width g
        \<and> (pl_w p \<le> width g \<longrightarrow> pl_w p / 2 \<le> pl_x p' \<and> pl_x p' \<le> width g - pl_w p / 2)
        \<and> (width g < pl_w p \<longrightarrow> pl_x p' = pl_w p / 2)"
    using 1 2 by blast
qed

lemma armed_value: "armed = row_session\<lparr>pointerDown := True\<rparr>"
  by (simp add: armed_def row_session_value onPointerDown_def aim_def getCanvasRelativeX_def)

lemma narrow_session_value:
  "narrow_session =
     \<lparr>width = 40, height = 100, dpr = 1,
      player = Some \<lparr>pl_x = 20, pl_y = 85, pl_w = 50, pl_h = 18, pl_targetX = 20\<rparr>,
      stars = [], pieces = [], bullets = [], particles = [],
      pointerX = 20, pointerDown = False,
      globalTime = 0, lastShotAt = 0, lastFrameAt = 0,
      shakeMs = 0, shakeIntensity = 0,
      isRunning = True, isGameOver = False,
      draws = 0, trace = [OverlayVisible False]\<rparr>"
  by (simp add: narrow_session_def start_def new_game_def read_dpr_def Let_def setOverlayVisible_def
      createStars_def createPlayer_def create404Pieces_def blank_page_def backgroundStarDensity_def)

theorem player_x_clamped_witness:
  "player (onPointerMove 0 90 armed)
     = Some \<lparr>pl_x = 50, pl_y = 85, pl_w = 50, pl_h = 18, pl_targetX = 90\<rparr>
   \<and> (50::real) \<le> width (onPointerMove 0 90 armed)
   \<and> player (update motion_env 16 1000 1000 (onPointerMove 0 90 armed))
       = Some \<lparr>pl_x = 286 / 5, pl_y = 85, pl_w = 50, pl_h = 18, pl_targetX = 90\<rparr>
   \<and> (50::real) / 2 \<le> 286 / 5 \<and> (286::real) / 5 \<le> 100 - 50 / 2
   \<and> player narrow_session = Some \<lparr>pl_x = 20, pl_y = 85, pl_w = 50, pl_h = 18, pl_targetX = 20\<rparr>
   \<and> width narrow_session < 50
   \<and> (\<exists>p'. player (update motion_env 16 1000 1000 narrow_session) = Some p' \<and> pl_x p' = 25)"
proof -
  let ?g = "onPointerMove 0 90 armed"
  let ?p = "\<lparr>pl_x = 50, pl_y = 85, pl_w = 50, pl_h = 18, pl_targetX = 90\<rparr>"
  let ?q = "\<lparr>pl_x = 20, pl_y = 85, pl_w = 50, pl_h = 18, pl_targetX = 20\<rparr>"
  note w = player_x_clamped [of ?g ?p motion_env 16 1000 1000]
  note v = player_x_clamped [of narrow_session ?q motion_env 16 1000 1000]
  have a: "player ?g = Some ?p" and b: "width ?g = 100"
    by (simp_all add: armed_value row_session_value onPointerMove_def aim_def getCanvasRelativeX_def)
  have c: "player (update motion_env 16 1000 1000 ?g)
       = Some \<lparr>pl_x = 286 / 5, pl_y = 85, pl_w = 50, pl_h = 18, pl_targetX = 90\<rparr>"
    by (simp add: update_player_x(1) [OF a] b lerp_def clamp_def playerLerp_def)
  from w a obtain p' where p': "player (update motion_env 16 1000 1000 ?g) = Some p'"
    "pl_w ?p \<le> width ?g \<longrightarrow> pl_w ?p / 2 \<le> pl_x p' \<and> pl_x p' \<le> width ?g - pl_w ?p / 2"
    by blast
  then have d: "(50::real) / 2 \<le> 286 / 5 \<and> (286::real) / 5 \<le> 100 - 50 / 2"
    using b c by simp
  have f: "player narrow_session = Some ?q" and h: "width narrow_session < 50"
    by (simp_all add: narrow_session_value)
  from v f h have i: "\<exists>p'. player (update motion_env 16 1000 1000 narrow_session) = Some p' \<and> pl_x p' = 25"
    by auto
  show ?thesis
    using a b c d f h i by simp
qed

text \<open>
  Claim C4 as stated fails in a window 40 wide: the session starts with a player of
  width 50 at x = 20, and after the first update x is 25, which is \<open>w/2\<close> but more than
  \<open>width - w/2 = 15\<close>.
\<close>

theorem narrow_window_player_outside:
  "in_session motion_env narrow_session
   \<and> player (update motion_env 16 1000 1000 narrow_session)
       = Some \<lparr>pl_x = 25, pl_y = 85, pl_w = 50, pl_h = 18, pl_targetX = 20\<rparr>
   \<and> width (update motion_env 16 1000 1000 narrow_session) = 40
   \<and> \<not> ((25::real) \<le> 40 - 50 / 2)"
proof -
  have "in_session motion_env narrow_session"
    unfolding narrow_session_def by (rule in_session.started)
  moreover have "player narrow_session
      = Some \<lparr>pl_x = 20, pl_y = 85, pl_w = 50, pl_h = 18, pl_targetX = 20\<rparr>"
    by (simp add: narrow_session_value)
  from update_player_x [OF this, of motion_env 16 1000 1000]
  have "player (update motion_env 16 1000 1000 narrow_session)
       = Some \<lparr>pl_x = 25, pl_y = 85, pl_w = 50, pl_h = 18, pl_targetX = 20\<rparr>"
    "width (update motion_env 16 1000 1000 narrow_session) = 40"
    by (simp_all add: narrow_session_value lerp_def clamp_def playerLerp_def)
  ultimately show ?thesis by simp
qed

subsection \<open>Victory with no targets\<close>

lemma collide_loop_no_pieces: "pieces g = [] \<Longrightarrow> collide_loop e n g = g"
  by (induction n) (simp_all add: collide_bullet_def)

lemma resolve_no_pieces: "pieces g = [] \<Longrightarrow> resolve_collisions e g = g"
  by (simp add: resolve_collisions_def collide_loop_no_pieces)

lemma update_no_pieces:
  assumes "player g = Some p" and "pieces g = []"
  shows "isGameOver (update e dtMs now1 now2 g)"
    and "pieces (update e dtMs now1 now2 g) = []"
    and "trace (update e dtMs now1 now2 g)
           = (if isGameOver g then trace g else trace g @ [OverlayTimer 350])"
proof -
  let ?g4 = "move_bullets (min dtMs maxDeltaMs / 1000) (continuous_fire now1 now2
       (follow_target (g\<lparr>globalTime := globalTime g + min dtMs maxDeltaMs\<rparr>)))"
  have e: "pieces ?g4 = []" using assms(2) by (simp add: phase_same)
  have r: "resolve_collisions e ?g4 = ?g4" by (rule resolve_no_pieces) (rule e)
  show "isGameOver (update e dtMs now1 now2 g)"
    by (simp add: update_Some [OF assms(1)] r check_victory_def phase_same assms(2))
  show "pieces (update e dtMs now1 now2 g) = []"
    by (simp add: update_Some [OF assms(1)] r phase_same assms(2))
  show "trace (update e dtMs now1 now2 g)
           = (if isGameOver g then trace g else trace g @ [OverlayTimer 350])"
    by (simp add: update_Some [OF assms(1)] r check_victory_def phase_same assms(2))
qed

lemma start_fields:
  "isRunning (start e t pg g)" "\<not> isGameOver (start e t pg g)"
  "trace (start e t pg g) = trace g @ [OverlayVisible False]"
  by (simp_all add: start_def Let_def create404Pieces_same createPlayer_def createStars_def
      setOverlayVisible_def)

lemma start_no_context: "offCtx pg = None \<Longrightarrow> pieces (start e t pg g) = []"
  by (simp add: start_def Let_def create404Pieces_def)

text \<open>
  Claim C9. In a session, an update that finds the piece set empty leaves the game over;
  if the game was not over before, it marks it and sets the one timer that shows the
  overlay after 350 ms. When the offscreen context is missing, \<^verbatim>\<open>start()\<close> leaves no pieces
  and the game not over, so the first frame of the session does exactly that.
\<close>

theorem no_targets_is_victory:
  "(in_session e g \<and> pieces g = [] \<longrightarrow>
      isGameOver (update e dtMs now1 now2 g)
      \<and> (\<not> isGameOver g \<longrightarrow>
            trace (update e dtMs now1 now2 g) = trace g @ [OverlayTimer 350]))
   \<and> (offCtx pg = None \<longrightarrow>
        pieces (start e t pg (new_game w h d t0)) = []
        \<and> \<not> isGameOver (start e t pg (new_game w h d t0))
        \<and> isGameOver (handle e (Frame ts now1 now2) (start e t pg (new_game w h d t0)))
        \<and> trace (handle e (Frame ts now1 now2) (start e t pg (new_game w h d t0)))
             = [OverlayVisible False, OverlayTimer 350])"
proof -
  have 1: "isGameOver (update e dtMs now1 now2 g)
      \<and> (\<not> isGameOver g \<longrightarrow>
            trace (update e dtMs now1 now2 g) = trace g @ [OverlayTimer 350])"
    if s: "in_session e g" and n: "pieces g = []"
  proof -
    obtain p where p: "player g = Some p" using in_session_player [OF s] by blast
    show ?thesis using update_no_pieces [OF p n] by simp
  qed
  have 2: "pieces (start e t pg (new_game w h d t0)) = []
        \<and> \<not> isGameOver (start e t pg (new_game w h d t0))
        \<and> isGameOver (handle e (Frame ts now1 now2) (start e t pg (new_game w h d t0)))
        \<and> trace (handle e (Frame ts now1 now2) (start e t pg (new_game w h d t0)))
             = [OverlayVisible False, OverlayTimer 350]"
    if n: "offCtx pg = None"
  proof -
    let ?s = "start e t pg (new_game w h d t0)"
    have s: "in_session e ?s" by (rule in_session.started)
    obtain p where p: "player (?s\<lparr>lastFrameAt := ts\<rparr>) = Some p"
      using in_session_player [OF s] by auto
    have e: "pieces (?s\<lparr>lastFrameAt := ts\<rparr>) = []"
      using start_no_context [OF n] by simp
    have "handle e (Frame ts now1 now2) ?s
        = update e (ts - lastFrameAt ?s) now1 now2 (?s\<lparr>lastFrameAt := ts\<rparr>)"
      by (simp add: loop_def Let_def start_fields(1))
    then show ?thesis
      using update_no_pieces [OF p e] start_no_context [OF n]
      by (simp add: start_fields(2,3) new_game_def)
  qed
  show ?thesis using 1 2 by blast
qed

theorem no_targets_is_victory_witness:
  "in_session motion_env (blank_session motion_env) \<and> pieces (blank_session motion_env) = []
   \<and> \<not> isGameOver (blank_session motion_env)
   \<and> isGameOver (update motion_env 16 1000 1000 (blank_session motion_env))
   \<and> trace (update motion_env 16 1000 1000 (blank_session motion_env))
        = [OverlayVisible False, OverlayTimer 350]
   \<and> offCtx blank_page = None
   \<and> isGameOver (handle motion_env (Frame 16 1000 1000) (blank_session motion_env))"
proof -
  note w = no_targets_is_victory [of motion_env "blank_session motion_env" 16 1000 1000
      blank_page 0 100 100 1 0 16]
  have a: "in_session motion_env (blank_session motion_env)"
    by (rule blank_session_in_session)
  have b: "pieces (blank_session motion_env) = []" "\<not> isGameOver (blank_session motion_env)"
    "trace (blank_session motion_env) = [OverlayVisible False]"
    by (simp_all add: blank_session_value)
  have c: "offCtx blank_page = None" by (simp add: blank_page_def)
  from w a b have d: "isGameOver (update motion_env 16 1000 1000 (blank_session motion_env))"
    "trace (update motion_env 16 1000 1000 (blank_session motion_env))
        = [OverlayVisible False, OverlayTimer 350]"
    by simp_all
  from w c have f: "isGameOver (handle motion_env (Frame 16 1000 1000) (blank_session motion_env))"
    unfolding blank_session_def by blast
  show ?thesis using a b d c f by simp
qed

subsection \<open>Continuous fire\<close>

lemma follow_target_keeps_player: "player g \<noteq> None \<Longrightarrow> player (follow_target g) \<noteq> None"
  by (auto simp: follow_target_def Let_def)

lemma continuous_fire_bullets:
  assumes "player g = Some p"
  shows "bullets (continuous_fire now1 now2 g) =
           (if \<not> isGameOver g \<and> pointerDown g \<and> now1 - lastShotAt g > shootIntervalMs
            then bullets g @ [\<lparr>b_x = pl_x p, b_y = pl_y p - pl_h p / 2,
                                b_vy = - (0.9 * max bulletSpeedMin (height g * bulletSpeedFactor)),
                                b_r = bulletRadius\<rparr>]
            else bullets g)"
    and "lastShotAt (continuous_fire now1 now2 g) =
           (if \<not> isGameOver g \<and> pointerDown g \<and> now1 - lastShotAt g > shootIntervalMs
            then now2 else lastShotAt g)"
  using assms by (simp_all add: continuous_fire_def spawnBullet_def Let_def)

lemma update_bullets_le:
  assumes "player g = Some p"
  shows "length (bullets (update e dtMs now1 now2 g))
           \<le> length (bullets (continuous_fire now1 now2
                 (follow_target (g\<lparr>globalTime := globalTime g + min dtMs maxDeltaMs\<rparr>))))"
proof -
  let ?g3 = "continuous_fire now1 now2
            (follow_target (g\<lparr>globalTime := globalTime g + min dtMs maxDeltaMs\<rparr>))"
  let ?g4 = "move_bullets (min dtMs maxDeltaMs / 1000) ?g3"
  have "length (bullets (resolve_collisions e ?g4)) \<le> length (bullets ?g4)"
    using resolve_balance [of ?g4 e] resolve_accounting [of ?g4 e] by auto
  moreover have "length (bullets ?g4) \<le> length (bullets ?g3)"
    by (simp add: move_bullets_eq)
  ultimately show ?thesis
    by (simp add: update_bullets [OF assms])
qed

text \<open>
  Claim C3. In a tick of a session, let \<open>fire\<close> say that the game is not over, the pointer
  is held and the clock reading minus \<^verbatim>\<open>lastShotAt\<close> exceeds the shoot interval. When the
  update reaches the shooting step (time advanced, player moved), that step appends one
  bullet, at the player's nose, exactly when \<open>fire\<close> holds, and then resets the shot timer;
  otherwise it leaves the bullets and the timer as they are. Nothing else in the tick adds
  a bullet: without \<open>fire\<close> the tick ends with at most as many bullets as it began with,
  and with it with at most one more.
\<close>

theorem bullet_fired_iff:
  "in_session e g \<longrightarrow>
     (let fire = (\<not> isGameOver g \<and> pointerDown g \<and> now1 - lastShotAt g > shootIntervalMs);
          g2 = follow_target (g\<lparr>globalTime := globalTime g + min dtMs maxDeltaMs\<rparr>);
          g3 = continuous_fire now1 now2 g2
      in (length (bullets g3) = length (bullets g) + 1 \<longleftrightarrow> fire)
       \<and> (bullets g3 = bullets g \<longleftrightarrow> \<not> fire)
       \<and> (fire \<longrightarrow> (\<exists>p. player g2 = Some p
              \<and> bullets g3 = bullets g @
                   [\<lparr>b_x = pl_x p, b_y = pl_y p - pl_h p / 2,
                     b_vy = - (0.9 * max bulletSpeedMin (height g * bulletSpeedFactor)),
                     b_r = bulletRadius\<rparr>]
              \<and> lastShotAt g3 = now2))
       \<and> (\<not> fire \<longrightarrow> lastShotAt g3 = lastShotAt g)
       \<and> (\<not> fire \<longrightarrow> length (bullets (update e dtMs now1 now2 g)) \<le> length (bullets g))
       \<and> length (bullets (update e dtMs now1 now2 g)) \<le> length (bullets g) + 1)"
proof
  assume s: "in_session e g"
  let ?g1 = "g\<lparr>globalTime := globalTime g + min dtMs maxDeltaMs\<rparr>"
  let ?g2 = "follow_target ?g1"
  let ?g3 = "continuous_fire now1 now2 ?g2"
  let ?fire = "\<not> isGameOver g \<and> pointerDown g \<and> now1 - lastShotAt g > shootIntervalMs"
  obtain p where p: "player g = Some p" using in_session_player [OF s] by blast
  have "player ?g1 \<noteq> None" using p by simp
  then obtain q where q: "player ?g2 = Some q"
    using follow_target_keeps_player [of ?g1] by blast
  have same: "isGameOver ?g2 = isGameOver g" "pointerDown ?g2 = pointerDown g"
    "lastShotAt ?g2 = lastShotAt g" "bullets ?g2 = bullets g" "height ?g2 = height g"
    by (simp_all add: follow_target_same)
  note cf = continuous_fire_bullets [OF q, of now1 now2, unfolded same]
  have le: "length (bullets (update e dtMs now1 now2 g)) \<le> length (bullets ?g3)"
    by (rule update_bullets_le [OF p])
  have 1: "length (bullets ?g3) = length (bullets g) + 1 \<longleftrightarrow> ?fire"
    by (simp add: cf(1))
  have 2: "bullets ?g3 = bullets g \<longleftrightarrow> \<not> ?fire"
    by (simp add: cf(1))
  have 3: "?fire \<longrightarrow> (\<exists>p. player ?g2 = Some p
              \<and> bullets ?g3 = bullets g @
                   [\<lparr>b_x = pl_x p, b_y = pl_y p - pl_h p / 2,
                     b_vy = - (0.9 * max bulletSpeedMin (height g * bulletSpeedFactor)),
                     b_r = bulletRadius\<rparr>]
              \<and> lastShotAt ?g3 = now2)"
    using q by (simp add: cf)
  have 4: "\<not> ?fire \<longrightarrow> lastShotAt ?g3 = lastShotAt g"
    by (simp add: cf(2))
  have 5: "\<not> ?fire \<longrightarrow> length (bullets (update e dtMs now1 now2 g)) \<le> length (bullets g)"
    using le unfolding cf(1) by (auto split: if_splits)
  have 6: "length (bullets (update e dtMs now1 now2 g)) \<le> length (bullets g) + 1"
    using le unfolding cf(1) by (auto split: if_splits)
  show "let fire = ?fire; g2 = ?g2; g3 = continuous_fire now1 now2 g2
      in (length (bullets g3) = length (bullets g) + 1 \<longleftrightarrow> fire)
       \<and> (bullets g3 = bullets g \<longleftrightarrow> \<not> fire)
       \<and> (fire \<longrightarrow> (\<exists>p. player g2 = Some p
              \<and> bullets g3 = bullets g @
                   [\<lparr>b_x = pl_x p, b_y = pl_y p - pl_h p / 2,
                     b_vy = - (0.9 * max bulletSpeedMin (height g * bulletSpeedFactor)),
                     b_r = bulletRadius\<rparr>]
              \<and> lastShotAt g3 = now2))
       \<and> (\<not> fire \<longrightarrow> lastShotAt g3 = lastShotAt g)
       \<and> (\<not> fire \<longrightarrow> length (bullets (update e dtMs now1 now2 g)) \<le> length (bullets g))
       \<and> length (bullets (update e dtMs now1 now2 g)) \<le> length (bullets g) + 1"
    unfolding Let_def using 1 2 3 4 5 6 by blast
qed

theorem bullet_fired_iff_witness:
  "in_session motion_env armed \<and> \<not> isGameOver armed \<and> pointerDown armed
   \<and> 1000 - lastShotAt armed > shootIntervalMs
   \<and> length (bullets (continuous_fire 1000 1000
         (follow_target (armed\<lparr>globalTime := globalTime armed + min 16 maxDeltaMs\<rparr>))))
        = length (bullets armed) + 1
   \<and> length (bullets (update motion_env 16 1000 1000 armed)) \<le> length (bullets armed) + 1
   \<and> bullets (update motion_env 16 1000 1000 armed) = [shot]
   \<and> in_session motion_env before_hit \<and> pointerDown before_hit
   \<and> \<not> 1016 - lastShotAt before_hit > shootIntervalMs
   \<and> length (bullets (update motion_env 16 1016 1016 before_hit)) \<le> length (bullets before_hit)
   \<and> in_session motion_env row_session \<and> \<not> pointerDown row_session
   \<and> bullets (continuous_fire 1000 1000
         (follow_target (row_session\<lparr>globalTime := globalTime row_session + min 16 maxDeltaMs\<rparr>)))
        = bullets row_session"
proof -
  note w1 = bullet_fired_iff [where e=motion_env and g=armed and dtMs=16 and ?now1.0=1000
      and ?now2.0=1000, unfolded Let_def]
  note w2 = bullet_fired_iff [where e=motion_env and g=before_hit and dtMs=16 and ?now1.0=1016
      and ?now2.0=1016, unfolded Let_def]
  note w3 = bullet_fired_iff [where e=motion_env and g=row_session and dtMs=16 and ?now1.0=1000
      and ?now2.0=1000, unfolded Let_def]
  have a: "in_session motion_env armed"
    unfolding armed_def by (rule in_session.handled) (rule row_session_in_session)
  have b: "\<not> isGameOver armed" "pointerDown armed" "1000 - lastShotAt armed > shootIntervalMs"
    by (simp_all add: armed_value row_session_value shootIntervalMs_def)
  from w1 a b have c: "length (bullets (continuous_fire 1000 1000
         (follow_target (armed\<lparr>globalTime := globalTime armed + min 16 maxDeltaMs\<rparr>))))
        = length (bullets armed) + 1"
    by blast
  from w1 a have d: "length (bullets (update motion_env 16 1000 1000 armed)) \<le> length (bullets armed) + 1"
    by blast
  have f: "pointerDown before_hit" "\<not> 1016 - lastShotAt before_hit > shootIntervalMs"
    by (simp_all add: before_hit_value shootIntervalMs_def)
  from w2 before_hit_in_session f(2)
  have h: "length (bullets (update motion_env 16 1016 1016 before_hit)) \<le> length (bullets before_hit)"
    by blast
  have i: "\<not> pointerDown row_session" by (simp add: row_session_value)
  from w3 row_session_in_session i
  have j: "bullets (continuous_fire 1000 1000
         (follow_target (row_session\<lparr>globalTime := globalTime row_session + min 16 maxDeltaMs\<rparr>)))
        = bullets row_session"
    by blast
  show ?thesis
    using a b c d f h i j before_hit_in_session row_session_in_session first_shot(1)
    by blast
qed

subsection \<open>Piece count and game over across ticks\<close>

lemma overlay_timers_append:
  "overlay_timers (xs @ ys) = overlay_timers xs + overlay_timers ys"
  by (induction xs rule: overlay_timers.induct) simp_all

lemma overlay_timers_hits: "overlay_timers (concat (map hit_effects hits)) = 0"
  by (induction hits) (simp_all add: hit_effects_def)

lemma update_tick:
  "length (pieces (update e dtMs now1 now2 g)) \<le> length (pieces g)"
  "isGameOver g \<Longrightarrow> isGameOver (update e dtMs now1 now2 g)"
  "overlay_timers (trace (update e dtMs now1 now2 g))
     = overlay_timers (trace g)
       + (if isGameOver (update e dtMs now1 now2 g) \<and> \<not> isGameOver g then 1 else 0)"
  "player g \<noteq> None \<Longrightarrow>
     isGameOver (update e dtMs now1 now2 g)
       \<longleftrightarrow> isGameOver g \<or> pieces (update e dtMs now1 now2 g) = []"
  "player g \<noteq> None \<Longrightarrow> \<not> isGameOver g \<Longrightarrow> pieces (update e dtMs now1 now2 g) = [] \<Longrightarrow>
     \<exists>tr. trace (update e dtMs now1 now2 g) = tr @ [OverlayTimer 350]
        \<and> overlay_timers tr = overlay_timers (trace g)"
proof -
  let ?g4 = "move_bullets (min dtMs maxDeltaMs / 1000) (continuous_fire now1 now2
       (follow_target (g\<lparr>globalTime := globalTime g + min dtMs maxDeltaMs\<rparr>)))"
  let ?g5 = "resolve_collisions e ?g4"
  let ?g7 = "decay_shake (min dtMs maxDeltaMs) (age_particles (min dtMs maxDeltaMs / 1000) ?g5)"
  obtain hits where
    h: "mset (pieces ?g4) = mset (pieces ?g5) + mset hits"
       "trace ?g5 = trace ?g4 @ concat (map hit_effects hits)"
    using resolve_accounting [where g="?g4" and e=e] by blast
  have g4: "pieces ?g4 = pieces g" "trace ?g4 = trace g" "isGameOver ?g4 = isGameOver g"
    by (simp_all add: phase_same)
  have g7: "pieces ?g7 = pieces ?g5" "trace ?g7 = trace ?g5" "isGameOver ?g7 = isGameOver g"
    by (simp_all add: phase_same)
  have len: "length (pieces ?g5) \<le> length (pieces g)"
    using arg_cong [OF h(1), of size] by (simp add: g4)
  have tim: "overlay_timers (trace ?g7) = overlay_timers (trace g)"
    by (simp add: g7 h(2) g4 overlay_timers_append overlay_timers_hits)
  show "length (pieces (update e dtMs now1 now2 g)) \<le> length (pieces g)"
  proof (cases "player g")
    case None
    then show ?thesis by (simp add: update_None)
  next
    case (Some p)
    then show ?thesis using len by (simp add: update_pieces [OF Some])
  qed
  show "isGameOver (update e dtMs now1 now2 g)" if "isGameOver g"
  proof (cases "player g")
    case None
    then show ?thesis using that by (simp add: update_None)
  next
    case (Some p)
    then show ?thesis using that by (simp add: update_Some [OF Some] check_victory_def g7)
  qed
  show "overlay_timers (trace (update e dtMs now1 now2 g))
     = overlay_timers (trace g)
       + (if isGameOver (update e dtMs now1 now2 g) \<and> \<not> isGameOver g then 1 else 0)"
  proof (cases "player g")
    case None
    then show ?thesis by (simp add: update_None)
  next
    case (Some p)
    show ?thesis
      using tim
      by (simp add: update_Some [OF Some] check_victory_def g7(3) overlay_timers_append)
  qed
  show "isGameOver (update e dtMs now1 now2 g)
       \<longleftrightarrow> isGameOver g \<or> pieces (update e dtMs now1 now2 g) = []" if pl: "player g \<noteq> None"
  proof -
    obtain p where p: "player g = Some p" using pl by blast
    show ?thesis
      by (simp add: update_Some [OF p] check_victory_def g7(3))
  qed
  show "\<exists>tr. trace (update e dtMs now1 now2 g) = tr @ [OverlayTimer 350]
        \<and> overlay_timers tr = overlay_timers (trace g)"
    if pl: "player g \<noteq> None" and no: "\<not> isGameOver g"
      and em: "pieces (update e dtMs now1 now2 g) = []"
  proof -
    obtain p where p: "player g = Some p" using pl by blast
    have "pieces ?g7 = []"
      using em by (simp add: update_pieces [OF p] g7(1))
    then have "trace (update e dtMs now1 now2 g) = trace ?g7 @ [OverlayTimer 350]"
      using no by (simp add: update_Some [OF p] check_victory_def g7(3))
    then show ?thesis using tim by blast
  qed
qed

lemma handle_plays:
  assumes "plays ev"
  shows "length (pieces (handle e ev g)) \<le> length (pieces g)"
    and "isGameOver g \<longrightarrow> isGameOver (handle e ev g)"
    and "overlay_timers (trace (handle e ev g))
           = overlay_timers (trace g)
             + (if isGameOver (handle e ev g) \<and> \<not> isGameOver g then 1 else 0)"
proof -
  have "length (pieces (handle e ev g)) \<le> length (pieces g)
    \<and> (isGameOver g \<longrightarrow> isGameOver (handle e ev g))
    \<and> overlay_timers (trace (handle e ev g))
           = overlay_timers (trace g)
             + (if isGameOver (handle e ev g) \<and> \<not> isGameOver g then 1 else 0)"
  proof (cases ev)
    case (Frame ts now1 now2)
    let ?g = "g\<lparr>lastFrameAt := ts\<rparr>"
    note u = update_tick(1-3) [where g="?g" and e=e and dtMs="ts - lastFrameAt g"
        and ?now1.0=now1 and ?now2.0=now2]
    show ?thesis
    proof (cases "isRunning g")
      case True
      then show ?thesis using Frame u by (simp add: loop_def Let_def)
    next
      case False
      then show ?thesis using Frame by (simp add: loop_def)
    qed
  next
    case (PointerMove l x)
    then show ?thesis by (simp add: onPointerMove_def aim_def split: option.split)
  next
    case (PointerDown l x)
    then show ?thesis by (simp add: onPointerDown_def aim_def split: option.split)
  next
    case PointerUp
    then show ?thesis by (simp add: onPointerUp_def)
  next
    case (Resize w h d pg)
    then show ?thesis using assms by simp
  next
    case (VisibilityChange hidden t)
    then show ?thesis by (simp add: onVisibilityChange_def)
  next
    case (Reset t pg)
    then show ?thesis using assms by simp
  qed
  then show "length (pieces (handle e ev g)) \<le> length (pieces g)"
    and "isGameOver g \<longrightarrow> isGameOver (handle e ev g)"
    and "overlay_timers (trace (handle e ev g))
           = overlay_timers (trace g)
             + (if isGameOver (handle e ev g) \<and> \<not> isGameOver g then 1 else 0)"
    by blast+
qed

lemma flips_once:
  fixes a b c :: nat
  assumes "b = a + (if B \<and> \<not> A then 1 else 0)" and "c = b + (if C \<and> \<not> B then 1 else 0)"
    and "A \<longrightarrow> B" and "B \<longrightarrow> C"
  shows "c = a + (if C \<and> \<not> A then 1 else 0)"
  using assms by (cases A; cases B; cases C) simp_all

lemma run_plays:
  "\<forall>ev\<in>set evs. plays ev \<Longrightarrow>
   length (pieces (run e evs g)) \<le> length (pieces g)
   \<and> (isGameOver g \<longrightarrow> isGameOver (run e evs g))
   \<and> overlay_timers (trace (run e evs g))
        = overlay_timers (trace g) + (if isGameOver (run e evs g) \<and> \<not> isGameOver g then 1 else 0)"
proof (induction evs arbitrary: g)
  case Nil
  then show ?case by simp
next
  case (Cons ev evs)
  have p: "plays ev" and ps: "\<forall>ev\<in>set evs. plays ev"
    using Cons.prems by simp_all
  let ?g' = "handle e ev g"
  note h = handle_plays [OF p, where e=e and g=g]
  note r = Cons.IH [OF ps, where g="?g'"]
  have 1: "length (pieces (run e evs ?g')) \<le> length (pieces g)"
    using h(1) r by linarith
  have 2: "isGameOver g \<longrightarrow> isGameOver (run e evs ?g')"
    using h(2) r by blast
  have 3: "overlay_timers (trace (run e evs ?g'))
        = overlay_timers (trace g) + (if isGameOver (run e evs ?g') \<and> \<not> isGameOver g then 1 else 0)"
    by (rule flips_once [OF h(3) _ h(2)]) (use r in blast)+
  show ?case
    using 1 2 3 by simp
qed

lemma resolve_no_bullets: "bullets g = [] \<Longrightarrow> resolve_collisions e g = g"
  by (simp add: resolve_collisions_def)

subsection \<open>A session that is won\<close>

lemma dot_pieces:
  "create404Pieces motion_env dot_page g =
     g\<lparr>pieces := [\<lparr>pc_x = 50, pc_y = 28, pc_r = 3, pc_color = Hsl 340 90 70\<rparr>],
       draws := draws g + 4\<rparr>"
  by (simp add: create404Pieces_def dot_page_def Let_def scan_y.simps scan_x.simps
      sample_pixel_def motion_env_def rand_def drawn_def sample_hue_def js_rem_def CONFIG)

lemma dot_session_value:
  "dot_session =
     \<lparr>width = 100, height = 100, dpr = 1,
      player = Some \<lparr>pl_x = 50, pl_y = 85, pl_w = 50, pl_h = 18, pl_targetX = 50\<rparr>,
      stars = [],
      pieces = [\<lparr>pc_x = 50, pc_y = 28, pc_r = 3, pc_color = Hsl 340 90 70\<rparr>],
      bullets = [], particles = [],
      pointerX = 50, pointerDown = False,
      globalTime = 0, lastShotAt = 0, lastFrameAt = 0,
      shakeMs = 0, shakeIntensity = 0,
      isRunning = True, isGameOver = False,
      draws = 4, trace = [OverlayVisible False]\<rparr>"
  by (simp add: dot_session_def start_def new_game_def read_dpr_def Let_def setOverlayVisible_def
      createStars_def createPlayer_def dot_pieces backgroundStarDensity_def)

lemma in_flight_value:
  "in_flight =
     \<lparr>width = 100, height = 100, dpr = 1,
      player = Some \<lparr>pl_x = 50, pl_y = 85, pl_w = 50, pl_h = 18, pl_targetX = 50\<rparr>,
      stars = [],
      pieces = [\<lparr>pc_x = 50, pc_y = 28, pc_r = 3, pc_color = Hsl 340 90 70\<rparr>],
      bullets = [\<lparr>b_x = 50, b_y = 236 / 5, b_vy = - 360, b_r = 4\<rparr>], particles = [],
      pointerX = 50, pointerDown = False,
      globalTime = 80, lastShotAt = 1000, lastFrameAt = 80,
      shakeMs = 0, shakeIntensity = 0,
      isRunning = True, isGameOver = False,
      draws = 4, trace = [OverlayVisible False]\<rparr>"
  by (simp add: in_flight_def dot_session_value onPointerDown_def onPointerUp_def
      getCanvasRelativeX_def aim_def
      loop_def update_def Let_def follow_target_def lerp_def clamp_def continuous_fire_def
      spawnBullet_def move_bullets_eq move_bullet_def resolve_collisions_def collide_bullet_def
      find_hit_1 overlaps_def age_particles_eq List.map_filter_simps decay_shake_def
      check_victory_def CONFIG)

lemma in_flight_in_session: "in_session motion_env in_flight"
  unfolding in_flight_def dot_session_def
  by (rule run_in_session) (rule in_session.started)

lemma won_in_session: "in_session motion_env won"
  unfolding won_def by (rule in_session.handled) (rule in_flight_in_session)

lemma won_value:
  "pieces won = []" "isGameOver won"
proof -
  let ?g = "in_flight\<lparr>lastFrameAt := 120\<rparr>"
  have p: "player ?g = Some \<lparr>pl_x = 50, pl_y = 85, pl_w = 50, pl_h = 18, pl_targetX = 50\<rparr>"
    by (simp add: in_flight_value)
  have w: "won = update motion_env 40 1080 1080 ?g"
    by (simp add: won_def loop_def Let_def in_flight_value)
  let ?g4 = "move_bullets (min 40 maxDeltaMs / 1000) (continuous_fire 1080 1080
         (follow_target (?g\<lparr>globalTime := globalTime ?g + min 40 maxDeltaMs\<rparr>)))"
  have b: "bullets ?g4 = [\<lparr>b_x = 50, b_y = 164 / 5, b_vy = - 360, b_r = 4\<rparr>]"
    by (simp add: in_flight_value move_bullets_eq move_bullet_def continuous_fire_def
        follow_target_def Let_def CONFIG)
  have q: "pieces ?g4 = [\<lparr>pc_x = 50, pc_y = 28, pc_r = 3, pc_color = Hsl 340 90 70\<rparr>]"
    by (simp add: phase_same in_flight_value)
  have f: "find_hit (bullets ?g4 ! 0) (pieces ?g4) (length (pieces ?g4)) = Some 0"
    unfolding b q by (simp add: find_hit_1 overlaps_def)
  have "pieces (collide_bullet motion_env 0 ?g4) = []"
    unfolding collide_bullet_hit(1) [OF f] q by (simp add: splice1_def)
  then have "pieces (resolve_collisions motion_env ?g4) = []"
    unfolding resolve_collisions_def b by simp
  then show e: "pieces won = []"
    unfolding w update_pieces [OF p] .
  have "player ?g \<noteq> None" using p by simp
  from update_tick(4) [OF this, of motion_env 40 1080 1080] e show "isGameOver won"
    unfolding w by blast
qed

subsection \<open>The flag and the timer over every event\<close>

lemma handle_flag:
  "overlay_timers (trace (handle e ev g))
     = overlay_timers (trace g) + (if isGameOver (handle e ev g) \<and> \<not> isGameOver g then 1 else 0)"
  "\<not> restarts ev \<Longrightarrow> isGameOver g \<longrightarrow> isGameOver (handle e ev g)"
proof -
  have r: "overlay_timers (trace (handle e ev g))
     = overlay_timers (trace g) + (if isGameOver (handle e ev g) \<and> \<not> isGameOver g then 1 else 0)
     \<and> (\<not> restarts ev \<longrightarrow> isGameOver g \<longrightarrow> isGameOver (handle e ev g))"
  proof (cases "plays ev")
    case True
    then show ?thesis using handle_plays(2,3) [OF True, where e=e and g=g] by blast
  next
    case False
    then show ?thesis
    proof (cases ev)
      case (Resize w h d pg)
      then show ?thesis
        by (simp add: onResize_def Let_def create404Pieces_same createStars_def split: option.split)
    next
      case (Reset t pg)
      then show ?thesis
        by (simp add: reset_def Let_def setOverlayVisible_def create404Pieces_same createPlayer_def
            createStars_def overlay_timers_append)
    qed simp_all
  qed
  from r show "overlay_timers (trace (handle e ev g))
     = overlay_timers (trace g) + (if isGameOver (handle e ev g) \<and> \<not> isGameOver g then 1 else 0)"
    by blast
  from r show "\<not> restarts ev \<Longrightarrow> isGameOver g \<longrightarrow> isGameOver (handle e ev g)"
    by blast
qed

lemma run_no_restart:
  "\<forall>ev\<in>set evs. \<not> restarts ev \<Longrightarrow>
   (isGameOver g \<longrightarrow> isGameOver (run e evs g))
   \<and> overlay_timers (trace (run e evs g))
        = overlay_timers (trace g) + (if isGameOver (run e evs g) \<and> \<not> isGameOver g then 1 else 0)"
proof (induction evs arbitrary: g)
  case Nil
  then show ?case by simp
next
  case (Cons ev evs)
  have p: "\<not> restarts ev" and ps: "\<forall>ev\<in>set evs. \<not> restarts ev"
    using Cons.prems by simp_all
  let ?g' = "handle e ev g"
  note h = handle_flag [where e=e and g=g and ev=ev]
  note r = Cons.IH [OF ps, where g="?g'"]
  have 2: "isGameOver g \<longrightarrow> isGameOver (run e evs ?g')"
    using h(2) [OF p] r by blast
  have 3: "overlay_timers (trace (run e evs ?g'))
        = overlay_timers (trace g) + (if isGameOver (run e evs ?g') \<and> \<not> isGameOver g then 1 else 0)"
    by (rule flips_once [OF h(1) _ h(2) [OF p]]) (use r in blast)+
  show ?case
    using 2 3 by simp
qed

text \<open>
  Claim C2, as the code has it. An update never adds a piece, and over any run of frames,
  pointer events and visibility changes the piece count does not grow; a resize or a
  restart builds the pieces again. In every step of a session, whatever the event, an
  overlay timer is set exactly when the game-over flag goes from false to true. Over any
  run with no restart, resizes included, the flag never goes back to false, so it flips
  at most once and the number of overlay timers set in the run is 1 if it flipped and 0
  otherwise: none is set while the game is over. In a session the flag is true after an
  update exactly when it was true before or the update ends with no pieces, and the timer
  set at the flip has the delay 350.
\<close>

theorem pieces_fall_and_game_over_once:
  "((\<forall>ev\<in>set evs. plays ev) \<longrightarrow> length (pieces (run e evs g)) \<le> length (pieces g))
   \<and> ((\<forall>ev\<in>set evs. \<not> restarts ev) \<longrightarrow>
        (isGameOver g \<longrightarrow> isGameOver (run e evs g))
        \<and> overlay_timers (trace (run e evs g))
             = overlay_timers (trace g)
               + (if isGameOver (run e evs g) \<and> \<not> isGameOver g then 1 else 0))
   \<and> overlay_timers (trace (handle e ev g))
        = overlay_timers (trace g) + (if isGameOver (handle e ev g) \<and> \<not> isGameOver g then 1 else 0)
   \<and> length (pieces (update e dtMs now1 now2 g)) \<le> length (pieces g)
   \<and> (in_session e g \<longrightarrow>
        (isGameOver (update e dtMs now1 now2 g)
           \<longleftrightarrow> isGameOver g \<or> pieces (update e dtMs now1 now2 g) = []))
   \<and> (in_session e g \<and> \<not> isGameOver g \<and> pieces (update e dtMs now1 now2 g) = [] \<longrightarrow>
        (\<exists>tr. trace (update e dtMs now1 now2 g) = tr @ [OverlayTimer 350]
           \<and> overlay_timers tr = overlay_timers (trace g)))"
proof -
  note u = update_tick [where e=e and g=g and dtMs=dtMs and ?now1.0=now1 and ?now2.0=now2]
  have 1: "(\<forall>ev\<in>set evs. plays ev) \<longrightarrow> length (pieces (run e evs g)) \<le> length (pieces g)"
    using run_plays [where evs=evs and e=e and g=g] by blast
  have 2: "(\<forall>ev\<in>set evs. \<not> restarts ev) \<longrightarrow>
        (isGameOver g \<longrightarrow> isGameOver (run e evs g))
        \<and> overlay_timers (trace (run e evs g))
             = overlay_timers (trace g)
               + (if isGameOver (run e evs g) \<and> \<not> isGameOver g then 1 else 0)"
    using run_no_restart [where evs=evs and e=e and g=g] by blast
  have 3: "in_session e g \<longrightarrow>
        (isGameOver (update e dtMs now1 now2 g)
           \<longleftrightarrow> isGameOver g \<or> pieces (update e dtMs now1 now2 g) = [])"
    using u(4) in_session_player [of e g] by blast
  have 4: "in_session e g \<and> \<not> isGameOver g \<and> pieces (update e dtMs now1 now2 g) = [] \<longrightarrow>
        (\<exists>tr. trace (update e dtMs now1 now2 g) = tr @ [OverlayTimer 350]
           \<and> overlay_timers tr = overlay_timers (trace g))"
    using u(5) in_session_player [of e g] by blast
  show ?thesis
    using 1 2 handle_flag(1) [where e=e and ev=ev and g=g] u(1) 3 4 by blast
qed

theorem pieces_fall_and_game_over_once_witness:
  "plays (PointerDown 0 50) \<and> plays (Frame 40 1000 1000) \<and> plays PointerUp
   \<and> plays (Frame 80 1040 1040) \<and> plays (Frame 120 1080 1080)
   \<and> in_session motion_env dot_session \<and> length (pieces dot_session) = 1
   \<and> \<not> isGameOver dot_session \<and> overlay_timers (trace dot_session) = 0
   \<and> length (pieces in_flight) = 1 \<and> \<not> isGameOver in_flight
   \<and> overlay_timers (trace in_flight) = 0
   \<and> in_session motion_env (in_flight\<lparr>lastFrameAt := 120\<rparr>)
   \<and> pieces (update motion_env 40 1080 1080 (in_flight\<lparr>lastFrameAt := 120\<rparr>)) = []
   \<and> isGameOver (update motion_env 40 1080 1080 (in_flight\<lparr>lastFrameAt := 120\<rparr>))
   \<and> (\<exists>tr. trace (update motion_env 40 1080 1080 (in_flight\<lparr>lastFrameAt := 120\<rparr>))
              = tr @ [OverlayTimer 350] \<and> overlay_timers tr = 0)
   \<and> length (pieces (run motion_env
        [PointerDown 0 50, Frame 40 1000 1000, PointerUp, Frame 80 1040 1040, Frame 120 1080 1080]
        dot_session)) \<le> length (pieces dot_session)
   \<and> isGameOver (run motion_env
        [PointerDown 0 50, Frame 40 1000 1000, PointerUp, Frame 80 1040 1040, Frame 120 1080 1080]
        dot_session)
   \<and> overlay_timers (trace (run motion_env
        [PointerDown 0 50, Frame 40 1000 1000, PointerUp, Frame 80 1040 1040, Frame 120 1080 1080]
        dot_session)) = 1
   \<and> \<not> restarts (Frame 160 1120 1120) \<and> \<not> restarts (Resize 100 193 1 (row_page 71))
   \<and> \<not> restarts (Frame 200 1160 1160)
   \<and> isGameOver (run motion_env
        [Frame 160 1120 1120, Resize 100 193 1 (row_page 71), Frame 200 1160 1160] won)
   \<and> overlay_timers (trace (run motion_env
        [Frame 160 1120 1120, Resize 100 193 1 (row_page 71), Frame 200 1160 1160] won)) = 1"
proof -
  let ?win = "[PointerDown 0 50, Frame 40 1000 1000, PointerUp, Frame 80 1040 1040,
      Frame 120 1080 1080]"
  let ?later = "[Frame 160 1120 1120, Resize 100 193 1 (row_page 71), Frame 200 1160 1160]"
  let ?g = "in_flight\<lparr>lastFrameAt := 120\<rparr>"
  note w = pieces_fall_and_game_over_once
    [where evs="?win" and e=motion_env and g=dot_session]
  note v = pieces_fall_and_game_over_once
    [where evs="?later" and e=motion_env and g=won]
  note x = pieces_fall_and_game_over_once
    [where e=motion_env and g="?g" and dtMs=40 and ?now1.0=1080 and ?now2.0=1080]
  have pl: "\<forall>ev\<in>set ?win. plays ev" "\<forall>ev\<in>set ?win. \<not> restarts ev"
    "\<forall>ev\<in>set ?later. \<not> restarts ev"
    by simp_all
  have p0: "plays (PointerDown 0 50) \<and> plays (Frame 40 1000 1000) \<and> plays PointerUp
     \<and> plays (Frame 80 1040 1040) \<and> plays (Frame 120 1080 1080)"
    "\<not> restarts (Frame 160 1120 1120) \<and> \<not> restarts (Resize 100 193 1 (row_page 71))
     \<and> \<not> restarts (Frame 200 1160 1160)"
    by simp_all
  have a: "in_session motion_env dot_session"
    unfolding dot_session_def by (rule in_session.started)
  have b: "length (pieces dot_session) = 1" "\<not> isGameOver dot_session"
    "overlay_timers (trace dot_session) = 0"
    by (simp_all add: dot_session_value)
  have c: "length (pieces in_flight) = 1" "\<not> isGameOver in_flight"
    "overlay_timers (trace in_flight) = 0" "isRunning in_flight" "lastFrameAt in_flight = 80"
    by (simp_all add: in_flight_value)
  have "in_session motion_env (handle motion_env (VisibilityChange False 120) in_flight)"
    by (rule in_session.handled) (rule in_flight_in_session)
  then have s: "in_session motion_env ?g"
    by (simp add: onVisibilityChange_def)
  have wu: "won = update motion_env 40 1080 1080 ?g"
    by (simp add: won_def loop_def Let_def c)
  have rw: "run motion_env ?win dot_session = won"
    by (simp add: won_def in_flight_def)
  have d: "pieces (update motion_env 40 1080 1080 ?g) = []"
    using won_value(1) unfolding wu .
  from x s c(2) d have f: "isGameOver (update motion_env 40 1080 1080 ?g)"
    by simp
  from x s c(2) d have "\<exists>tr. trace (update motion_env 40 1080 1080 ?g) = tr @ [OverlayTimer 350]
           \<and> overlay_timers tr = overlay_timers (trace ?g)"
    by simp
  then have h: "\<exists>tr. trace (update motion_env 40 1080 1080 ?g) = tr @ [OverlayTimer 350]
           \<and> overlay_timers tr = 0"
    using c(3) by simp
  from w pl(1) have i: "length (pieces (run motion_env ?win dot_session)) \<le> length (pieces dot_session)"
    by blast
  have j: "isGameOver (run motion_env ?win dot_session)"
    unfolding rw wu by (rule f)
  from w pl(2) have "overlay_timers (trace (run motion_env ?win dot_session))
             = overlay_timers (trace dot_session)
               + (if isGameOver (run motion_env ?win dot_session) \<and> \<not> isGameOver dot_session
                  then 1 else 0)"
    by blast
  then have k: "overlay_timers (trace (run motion_env ?win dot_session)) = 1"
    using j b by simp
  have ow: "isGameOver won" "overlay_timers (trace won) = 1"
    using j k unfolding rw by simp_all
  from v pl(3) ow(1) have l: "isGameOver (run motion_env ?later won)"
    by blast
  from v pl(3) have "overlay_timers (trace (run motion_env ?later won))
             = overlay_timers (trace won)
               + (if isGameOver (run motion_env ?later won) \<and> \<not> isGameOver won then 1 else 0)"
    by blast
  then have m: "overlay_timers (trace (run motion_env ?later won)) = 1"
    using ow by simp
  show ?thesis
    using p0 a b c(1-3) s d f h i j k l m by blast
qed

text \<open>
  Claim C2 as stated fails in the concrete session: the frame at 17 ms ends with one
  piece; a resize of the window to 100 by 193 then builds the two pieces of the page
  again, and the next frame ends with two.
\<close>

theorem resize_restores_pieces:
  "in_session motion_env after_hit \<and> length (pieces after_hit) = 1
   \<and> length (pieces (run motion_env [Resize 100 193 1 (row_page 71), Frame 33 1016 1016] after_hit)) = 2"
proof -
  let ?r = "onResize motion_env 100 193 1 (row_page 71) after_hit"
  let ?r' = "?r\<lparr>lastFrameAt := 33\<rparr>"
  have r: "pieces ?r' = [left_piece, right_piece]" "bullets ?r' = []" "isRunning ?r"
    "player ?r' = Some \<lparr>pl_x = 50, pl_y = 193 * 0.85, pl_w = 50, pl_h = 18, pl_targetX = 50\<rparr>"
    "pointerDown ?r'" "lastShotAt ?r' = 1000" "\<not> isGameOver ?r'"
    by (simp_all add: onResize_def Let_def after_hit_value row_pieces createStars_def
        left_piece_def right_piece_def)
  let ?g3 = "continuous_fire 1016 1016
            (follow_target (?r'\<lparr>globalTime := globalTime ?r' + min (33 - lastFrameAt ?r) maxDeltaMs\<rparr>))"
  let ?g4 = "move_bullets (min (33 - lastFrameAt ?r) maxDeltaMs / 1000) ?g3"
  have "bullets ?g3 = []"
    using r(2,6) by (simp add: continuous_fire_def follow_target_same shootIntervalMs_def)
  then have "bullets ?g4 = []" by (simp add: move_bullets_eq)
  then have "resolve_collisions motion_env ?g4 = ?g4" by (rule resolve_no_bullets)
  then have "pieces (update motion_env (33 - lastFrameAt ?r) 1016 1016 ?r') = pieces ?r'"
    by (simp add: update_pieces [OF r(4)] phase_same)
  then have "pieces (run motion_env [Resize 100 193 1 (row_page 71), Frame 33 1016 1016] after_hit)
      = [left_piece, right_piece]"
    using r(1,3) by (simp add: loop_def Let_def)
  moreover have "length (pieces after_hit) = 1" by (simp add: after_hit_value)
  ultimately show ?thesis using after_hit_in_session by simp
qed

subsection \<open>What a tick does with its delta\<close>

lemma add_particle_appends:
  "\<exists>new. particles (add_particle e x y c g) = particles g @ new"
  by (simp add: add_particle_def Let_def drawn_def)

lemma explode_loop_appends:
  "\<exists>new. particles (explode_loop e cnt i x y c g) = particles g @ new"
proof (induction e cnt i x y c g rule: explode_loop.induct)
  case (1 e cnt i x y c g)
  show ?case
  proof (cases "real i < cnt")
    case True
    obtain n1 where n1: "particles (add_particle e x y c g) = particles g @ n1"
      using add_particle_appends by blast
    obtain n2 where "particles (explode_loop e cnt (Suc i) x y c (add_particle e x y c g))
        = particles (add_particle e x y c g) @ n2"
      using "1.IH" [OF True] by blast
    then have "particles (explode_loop e cnt i x y c g) = particles g @ (n1 @ n2)"
      using True n1 by (simp add: explode_loop.simps [of e cnt i])
    then show ?thesis by blast
  next
    case False
    then have "particles (explode_loop e cnt i x y c g) = particles g @ []"
      by (simp add: explode_loop.simps [of e cnt i])
    then show ?thesis by blast
  qed
qed

lemma spawnExplosion_appends:
  "\<exists>new. particles (spawnExplosion e x y c g) = particles g @ new"
  using explode_loop_appends
    [where e=e and i=0 and x=x and y=y and c=c
       and g="drawn (g\<lparr>trace := trace g @ [Burst x y c]\<rparr>)"]
  by (simp add: spawnExplosion_def Let_def drawn_def)

lemma collide_bullet_step:
  "\<exists>new. particles (collide_bullet e i g) = particles g @ new"
  "set (bullets (collide_bullet e i g)) \<subseteq> set (bullets g)"
  "shakeMs (collide_bullet e i g) = shakeMs g \<or> shakeMs (collide_bullet e i g) = shakeDurationMs"
proof -
  show "\<exists>new. particles (collide_bullet e i g) = particles g @ new"
  proof (cases "find_hit (bullets g ! i) (pieces g) (length (pieces g))")
    case None
    then have "particles (collide_bullet e i g) = particles g @ []"
      by (simp add: collide_bullet_miss)
    then show ?thesis by blast
  next
    case (Some j)
    then show ?thesis
      using spawnExplosion_appends
      by (simp add: collide_bullet_def Let_def playBubbleSound_def triggerShake_def)
  qed
  show "set (bullets (collide_bullet e i g)) \<subseteq> set (bullets g)"
  proof (cases "find_hit (bullets g ! i) (pieces g) (length (pieces g))")
    case None
    then show ?thesis by (simp add: collide_bullet_miss)
  next
    case (Some j)
    then show ?thesis
      using splice1_subset [of i "bullets g"] by (simp add: collide_bullet_hit(2) [OF Some])
  qed
  show "shakeMs (collide_bullet e i g) = shakeMs g \<or> shakeMs (collide_bullet e i g) = shakeDurationMs"
    by (simp add: collide_bullet_def Let_def playBubbleSound_def triggerShake_def
        spawnExplosion_same split: option.split)
qed

lemma collide_loop_step:
  "(\<exists>new. particles (collide_loop e n g) = particles g @ new)
   \<and> set (bullets (collide_loop e n g)) \<subseteq> set (bullets g)
   \<and> (shakeMs (collide_loop e n g) = shakeMs g \<or> shakeMs (collide_loop e n g) = shakeDurationMs)"
proof (induction n arbitrary: g)
  case 0
  have "particles (collide_loop e 0 g) = particles g @ []" by simp
  then show ?case by auto
next
  case (Suc n)
  let ?g' = "collide_bullet e n g"
  note s = collide_bullet_step [of e n g]
  note r = Suc.IH [of ?g']
  obtain n1 where n1: "particles ?g' = particles g @ n1" using s(1) by blast
  obtain n2 where n2: "particles (collide_loop e n ?g') = particles ?g' @ n2" using r by blast
  have "particles (collide_loop e (Suc n) g) = particles g @ (n1 @ n2)"
    using n1 n2 by simp
  then have 1: "\<exists>new. particles (collide_loop e (Suc n) g) = particles g @ new" by blast
  have 2: "set (bullets (collide_loop e (Suc n) g)) \<subseteq> set (bullets g)"
    using s(2) r by auto
  have 3: "shakeMs (collide_loop e (Suc n) g) = shakeMs g
      \<or> shakeMs (collide_loop e (Suc n) g) = shakeDurationMs"
    using s(3) r by auto
  show ?case using 1 2 3 by blast
qed

lemma decay_shake_value:
  "shakeMs (decay_shake dt g) = (if 0 < shakeMs g then max 0 (shakeMs g - dt) else shakeMs g)"
  by (simp add: decay_shake_def Let_def max_def)

lemma follow_target_time:
  "player (follow_target (g\<lparr>globalTime := z\<rparr>)) = player (follow_target g)"
  by (simp add: follow_target_def Let_def split: option.split)

text \<open>
  Claim C8, as the code has it. With \<open>dt = min dtMs maxDeltaMs\<close>, the result of
  \<^verbatim>\<open>update(dtMs)\<close> is the result of \<^verbatim>\<open>update(dt)\<close>, so a delta of at least
  \<open>maxDeltaMs\<close> gives the state that \<open>maxDeltaMs\<close> gives. When the player exists: the
  global time grows by \<open>dt\<close>; every bullet (the one just fired included) moves by its
  velocity times \<open>dt / 1000\<close> and is dropped once above the top, and the bullets the tick
  ends with are among these; every particle, old or spawned in this tick, ages by
  \<open>dt / 1000\<close> and moves by its velocity times \<open>dt / 1000\<close>, its vertical velocity growing
  by gravity times \<open>dt / 1000\<close>, and is dropped once its age has reached its life; a
  positive shake time (the old one, or the configured duration after a hit) falls by
  \<open>dt\<close>, not below 0. The player's smoothing takes no delta: the player after the update
  is the player after \<^verbatim>\<open>lerp\<close> and \<^verbatim>\<open>clamp\<close>, whatever the delta. A frame that follows a
  return to visibility at time \<open>t\<close> measures its delta from \<open>t\<close>.
\<close>

theorem clamped_delta_advances:
  "(let dt = min dtMs maxDeltaMs;
        g3 = continuous_fire now1 now2 (follow_target (g\<lparr>globalTime := globalTime g + dt\<rparr>));
        g4 = move_bullets (dt / 1000) g3;
        g5 = resolve_collisions e g4;
        g' = update e dtMs now1 now2 g
    in g' = update e dt now1 now2 g
     \<and> (maxDeltaMs \<le> dtMs \<longrightarrow> g' = update e maxDeltaMs now1 now2 g)
     \<and> globalTime g' \<le> globalTime g + maxDeltaMs
     \<and> (player g \<noteq> None \<longrightarrow>
           globalTime g' = globalTime g + dt
         \<and> bullets g4 = filter (\<lambda>b. \<not> b_y b + b_r b < 0)
                            (map (\<lambda>b. b\<lparr>b_y := b_y b + b_vy b * (dt / 1000)\<rparr>) (bullets g3))
         \<and> set (bullets g') \<subseteq> set (bullets g4)
         \<and> (\<exists>new. particles g5 = particles g @ new)
         \<and> particles g' = List.map_filter (age_particle (dt / 1000)) (particles g5)
         \<and> (shakeMs g5 = shakeMs g \<or> shakeMs g5 = shakeDurationMs)
         \<and> shakeMs g' = (if 0 < shakeMs g5 then max 0 (shakeMs g5 - dt) else shakeMs g5)
         \<and> player g' = player (follow_target g)))
   \<and> (age_particle d pa = Some pa' \<longrightarrow>
         pa_age pa' = pa_age pa + d \<and> pa_x pa' = pa_x pa + pa_vx pa * d
         \<and> pa_y pa' = pa_y pa + pa_vy pa * d \<and> pa_vy pa' = pa_vy pa + gravity * d)
   \<and> (age_particle d pa = None \<longleftrightarrow> pa_life pa \<le> pa_age pa + d)
   \<and> (isRunning g \<longrightarrow>
        loop e ts now1 now2 (onVisibilityChange False t g)
          = update e (min (ts - t) maxDeltaMs) now1 now2 (g\<lparr>lastFrameAt := ts\<rparr>))"
proof -
  let ?dt = "min dtMs maxDeltaMs"
  let ?g3 = "continuous_fire now1 now2 (follow_target (g\<lparr>globalTime := globalTime g + ?dt\<rparr>))"
  let ?g4 = "move_bullets (?dt / 1000) ?g3"
  let ?g5 = "resolve_collisions e ?g4"
  let ?g' = "update e dtMs now1 now2 g"
  have 1: "?g' = update e ?dt now1 now2 g"
    by (rule update_clamped)
  have 2: "maxDeltaMs \<le> dtMs \<longrightarrow> ?g' = update e maxDeltaMs now1 now2 g"
    using update_clamped [of e dtMs now1 now2 g] by (simp add: min_def)
  have 3: "globalTime ?g' \<le> globalTime g + maxDeltaMs"
    by (simp add: update_globalTime maxDeltaMs_def split: option.split)
  have 4: "globalTime ?g' = globalTime g + ?dt
         \<and> bullets ?g4 = filter (\<lambda>b. \<not> b_y b + b_r b < 0)
                            (map (\<lambda>b. b\<lparr>b_y := b_y b + b_vy b * (?dt / 1000)\<rparr>) (bullets ?g3))
         \<and> set (bullets ?g') \<subseteq> set (bullets ?g4)
         \<and> (\<exists>new. particles ?g5 = particles g @ new)
         \<and> particles ?g' = List.map_filter (age_particle (?dt / 1000)) (particles ?g5)
         \<and> (shakeMs ?g5 = shakeMs g \<or> shakeMs ?g5 = shakeDurationMs)
         \<and> shakeMs ?g' = (if 0 < shakeMs ?g5 then max 0 (shakeMs ?g5 - ?dt) else shakeMs ?g5)
         \<and> player ?g' = player (follow_target g)" if pl: "player g \<noteq> None"
  proof -
    obtain p where p: "player g = Some p" using pl by blast
    note c = collide_loop_step [of e "length (bullets ?g4)" ?g4, folded resolve_collisions_def]
    have a: "globalTime ?g' = globalTime g + ?dt"
      using p by (simp add: update_globalTime)
    have b: "bullets ?g4 = filter (\<lambda>b. \<not> b_y b + b_r b < 0)
                            (map (\<lambda>b. b\<lparr>b_y := b_y b + b_vy b * (?dt / 1000)\<rparr>) (bullets ?g3))"
      by (simp add: move_bullets_eq move_bullet_def [abs_def])
    have d: "set (bullets ?g') \<subseteq> set (bullets ?g4)"
      using c by (simp add: update_bullets [OF p])
    have "particles ?g4 = particles g" by (simp add: phase_same)
    then have f: "\<exists>new. particles ?g5 = particles g @ new"
      using c by simp
    have h: "particles ?g' = List.map_filter (age_particle (?dt / 1000)) (particles ?g5)"
      by (simp add: update_Some [OF p] phase_same age_particles_eq)
    have "shakeMs ?g4 = shakeMs g" by (simp add: phase_same)
    then have i: "shakeMs ?g5 = shakeMs g \<or> shakeMs ?g5 = shakeDurationMs"
      using c by simp
    have j: "shakeMs ?g' = (if 0 < shakeMs ?g5 then max 0 (shakeMs ?g5 - ?dt) else shakeMs ?g5)"
      by (simp add: update_Some [OF p] phase_same decay_shake_value)
    have k: "player ?g' = player (follow_target g)"
      by (simp add: update_Some [OF p] phase_same follow_target_time)
    show ?thesis using a b d f h i j k by blast
  qed
  have 5: "age_particle d pa = Some pa' \<longrightarrow>
         pa_age pa' = pa_age pa + d \<and> pa_x pa' = pa_x pa + pa_vx pa * d
         \<and> pa_y pa' = pa_y pa + pa_vy pa * d \<and> pa_vy pa' = pa_vy pa + gravity * d"
    using age_particle_Some [of d pa pa'] by blast
  have 6: "age_particle d pa = None \<longleftrightarrow> pa_life pa \<le> pa_age pa + d"
    by (rule age_particle_None)
  have 7: "isRunning g \<longrightarrow>
        loop e ts now1 now2 (onVisibilityChange False t g)
          = update e (min (ts - t) maxDeltaMs) now1 now2 (g\<lparr>lastFrameAt := ts\<rparr>)"
    using update_clamped [of e "ts - t" now1 now2 "g\<lparr>lastFrameAt := ts\<rparr>"]
    by (simp add: loop_def onVisibilityChange_def Let_def)
  show ?thesis
    unfolding Let_def using 1 2 3 4 5 6 7 by blast
qed

lemma stalled_frame:
  "bullets (move_bullets (min 10000 maxDeltaMs / 1000) (continuous_fire 11000 11000
      (follow_target (after_hit\<lparr>globalTime := globalTime after_hit + min 10000 maxDeltaMs\<rparr>))))
     = [\<lparr>b_x = 50, b_y = 308 / 5, b_vy = - 360, b_r = 4\<rparr>]"
  "resolve_collisions motion_env (move_bullets (min 10000 maxDeltaMs / 1000)
      (continuous_fire 11000 11000
        (follow_target (after_hit\<lparr>globalTime := globalTime after_hit + min 10000 maxDeltaMs\<rparr>))))
     = move_bullets (min 10000 maxDeltaMs / 1000) (continuous_fire 11000 11000
        (follow_target (after_hit\<lparr>globalTime := globalTime after_hit + min 10000 maxDeltaMs\<rparr>)))"
proof -
  let ?g4 = "move_bullets (min 10000 maxDeltaMs / 1000) (continuous_fire 11000 11000
      (follow_target (after_hit\<lparr>globalTime := globalTime after_hit + min 10000 maxDeltaMs\<rparr>)))"
  show b: "bullets ?g4 = [\<lparr>b_x = 50, b_y = 308 / 5, b_vy = - 360, b_r = 4\<rparr>]"
    by (simp add: after_hit_value move_bullets_eq move_bullet_def continuous_fire_def
        spawnBullet_def follow_target_def lerp_def clamp_def Let_def CONFIG)
  have p: "pieces ?g4 = [left_piece]"
    by (simp add: phase_same after_hit_value left_piece_def)
  have "collide_bullet motion_env 0 ?g4 = ?g4"
    by (rule collide_bullet_miss) (simp add: b p find_hit_1 overlaps_def left_piece_def)
  then show "resolve_collisions motion_env ?g4 = ?g4"
    by (simp add: resolve_collisions_def b)
qed

lemma stalled_bullets:
  "bullets (update motion_env 10000 11000 11000 after_hit)
     = [\<lparr>b_x = 50, b_y = 308 / 5, b_vy = - 360, b_r = 4\<rparr>]"
proof -
  have p: "player after_hit = Some \<lparr>pl_x = 50, pl_y = 85, pl_w = 50, pl_h = 18, pl_targetX = 50\<rparr>"
    by (simp add: after_hit_value)
  show ?thesis
    unfolding update_bullets [OF p] stalled_frame by (rule refl)
qed

theorem clamped_delta_advances_witness:
  "maxDeltaMs \<le> 10000 \<and> player after_hit \<noteq> None \<and> isRunning after_hit
   \<and> update motion_env 10000 11000 11000 after_hit = update motion_env 40 11000 11000 after_hit
   \<and> globalTime after_hit = 17
   \<and> globalTime (update motion_env 10000 11000 11000 after_hit) = 57
   \<and> bullets after_hit = []
   \<and> bullets (update motion_env 10000 11000 11000 after_hit)
        = [\<lparr>b_x = 50, b_y = 308 / 5, b_vy = - 360, b_r = 4\<rparr>]
   \<and> set (bullets (update motion_env 10000 11000 11000 after_hit))
        \<subseteq> {\<lparr>b_x = 50, b_y = 308 / 5, b_vy = - 360, b_r = 4\<rparr>}
   \<and> particles after_hit = replicate 12 spark
   \<and> particles (update motion_env 10000 11000 11000 after_hit)
        = replicate 12 (spark\<lparr>pa_age := 41 / 1000, pa_alpha := 359 / 400, pa_x := 1121 / 20,
                                pa_y := 70 + 3 / 625, pa_vy := 3 / 25 + 24 / 5\<rparr>)
   \<and> shakeMs after_hit = 149
   \<and> shakeMs (update motion_env 10000 11000 11000 after_hit) = 109
   \<and> loop motion_env 20016 11000 11000 (onVisibilityChange False 20000 after_hit)
       = update motion_env 16 11000 11000 (after_hit\<lparr>lastFrameAt := 20016\<rparr>)"
proof -
  let ?g4 = "move_bullets (min 10000 maxDeltaMs / 1000) (continuous_fire 11000 11000
      (follow_target (after_hit\<lparr>globalTime := globalTime after_hit + min 10000 maxDeltaMs\<rparr>)))"
  let ?g' = "update motion_env 10000 11000 11000 after_hit"
  note w = clamped_delta_advances
    [where dtMs=10000 and ?now1.0=11000 and ?now2.0=11000 and g=after_hit and e=motion_env
       and ts=20016 and t=20000, unfolded Let_def stalled_frame]
  have m: "min 10000 maxDeltaMs = 40" "maxDeltaMs \<le> 10000"
    by (simp_all add: maxDeltaMs_def)
  have a: "player after_hit \<noteq> None" "isRunning after_hit" "globalTime after_hit = 17"
    "shakeMs after_hit = 149" "particles after_hit = replicate 12 spark"
    by (simp_all add: after_hit_value spark_def)
  have g4: "shakeMs (move_bullets d (continuous_fire n1 n2
        (follow_target (after_hit\<lparr>globalTime := z\<rparr>)))) = 149"
    "particles (move_bullets d (continuous_fire n1 n2
        (follow_target (after_hit\<lparr>globalTime := z\<rparr>)))) = replicate 12 spark" for d n1 n2 z
    by (simp_all add: phase_same a)
  from w m(2) have "?g' = update motion_env maxDeltaMs 11000 11000 after_hit"
    by blast
  then have b: "?g' = update motion_env 40 11000 11000 after_hit"
    by (simp add: maxDeltaMs_def)
  from w a(1) have "globalTime ?g' = globalTime after_hit + min 10000 maxDeltaMs"
    by blast
  then have c: "globalTime ?g' = 57" by (simp add: a m)
  from w a(1) have "set (bullets ?g') \<subseteq> set [\<lparr>b_x = 50, b_y = 308 / 5, b_vy = - 360, b_r = 4\<rparr>]"
    by blast
  then have d: "set (bullets ?g') \<subseteq> {\<lparr>b_x = 50, b_y = 308 / 5, b_vy = - 360, b_r = 4\<rparr>}"
    by simp
  from w a(1) have "particles ?g' = List.map_filter (age_particle (min 10000 maxDeltaMs / 1000)) (particles ?g4)"
    by blast
  then have "particles ?g' = List.map_filter (age_particle (40 / 1000)) (replicate 12 spark)"
    by (simp only: g4 m)
  moreover have "List.map_filter (age_particle (40 / 1000)) (replicate 12 spark)
      = replicate 12 (spark\<lparr>pa_age := 41 / 1000, pa_alpha := 359 / 400,
        pa_x := 1121 / 20, pa_y := 70 + 3 / 625, pa_vy := 3 / 25 + 24 / 5\<rparr>)"
    by (simp add: replicate_12 List.map_filter_simps age_particle_def spark_def Let_def
        gravity_def)
  ultimately have f: "particles ?g' = replicate 12 (spark\<lparr>pa_age := 41 / 1000, pa_alpha := 359 / 400,
        pa_x := 1121 / 20, pa_y := 70 + 3 / 625, pa_vy := 3 / 25 + 24 / 5\<rparr>)"
    by (rule trans)
  from w a(1) have "shakeMs ?g' = (if 0 < shakeMs ?g4 then max 0 (shakeMs ?g4 - min 10000 maxDeltaMs)
      else shakeMs ?g4)"
    by blast
  then have h: "shakeMs ?g' = 109" by (simp add: g4 m)
  from w a(2) have "loop motion_env 20016 11000 11000 (onVisibilityChange False 20000 after_hit)
       = update motion_env (min (20016 - 20000) maxDeltaMs) 11000 11000 (after_hit\<lparr>lastFrameAt := 20016\<rparr>)"
    by blast
  then have i: "loop motion_env 20016 11000 11000 (onVisibilityChange False 20000 after_hit)
       = update motion_env 16 11000 11000 (after_hit\<lparr>lastFrameAt := 20016\<rparr>)"
    by (simp add: maxDeltaMs_def)
  have n: "bullets after_hit = []" by (simp add: after_hit_value)
  show ?thesis
    using m(2) a b c d f h i n stalled_bullets by blast
qed

text \<open>
  Claim C8 as stated fails for the player's smoothing, which it lists among the steps that
  use the clamped delta. In the concrete session, with the pointer at 90 and the player at
  50, an update with delta 0 leaves the global time where it was and still moves the
  player to 57.2, exactly as an update with delta 40 does: the step is
  \<^verbatim>\<open>lerp(x, targetX, 0.18)\<close> per tick, whatever the delta.
\<close>

theorem smoothing_ignores_delta:
  "in_session motion_env (onPointerMove 0 90 armed)
   \<and> player (onPointerMove 0 90 armed)
        = Some \<lparr>pl_x = 50, pl_y = 85, pl_w = 50, pl_h = 18, pl_targetX = 90\<rparr>
   \<and> globalTime (update motion_env 0 1000 1000 (onPointerMove 0 90 armed))
        = globalTime (onPointerMove 0 90 armed)
   \<and> player (update motion_env 0 1000 1000 (onPointerMove 0 90 armed))
        = Some \<lparr>pl_x = 286 / 5, pl_y = 85, pl_w = 50, pl_h = 18, pl_targetX = 90\<rparr>
   \<and> player (update motion_env 40 1000 1000 (onPointerMove 0 90 armed))
        = Some \<lparr>pl_x = 286 / 5, pl_y = 85, pl_w = 50, pl_h = 18, pl_targetX = 90\<rparr>"
proof -
  let ?g = "onPointerMove 0 90 armed"
  have "in_session motion_env (handle motion_env (PointerMove 0 90) armed)"
    unfolding armed_def
    by (intro in_session.handled) (rule row_session_in_session)
  then have s: "in_session motion_env ?g" by simp
  have a: "player ?g = Some \<lparr>pl_x = 50, pl_y = 85, pl_w = 50, pl_h = 18, pl_targetX = 90\<rparr>"
    and b: "width ?g = 100"
    by (simp_all add: armed_value row_session_value onPointerMove_def aim_def getCanvasRelativeX_def)
  have c: "player (update motion_env dtMs 1000 1000 ?g)
       = Some \<lparr>pl_x = 286 / 5, pl_y = 85, pl_w = 50, pl_h = 18, pl_targetX = 90\<rparr>" for dtMs
    by (simp add: update_player_x(1) [OF a] b lerp_def clamp_def playerLerp_def)
  have d: "globalTime (update motion_env 0 1000 1000 ?g) = globalTime ?g"
    using a by (simp add: update_globalTime maxDeltaMs_def)
  show ?thesis using s a c d by blast
qed

end
